(* ===== verification/Prelude.thy ===== *)
theory Prelude
  imports Complex_Main "HOL-Library.List_Lexorder" "HOL-Library.Char_ord" "HOL-Library.Word"
begin

text \<open>
  What every component of the model shares: the outcome of a piece of C++ that may run into
  undefined behaviour, \<open>std::map\<close> as a key-ordered association list together with the map
  interface its clients rely on, C strings, and the decimal rendering of \<open>std::to_string\<close>.
\<close>

section \<open>Automation\<close>

named_theorems nx_defs \<open>definitions the component proofs unfold\<close>
named_theorems frame_simps \<open>what an operation leaves unchanged\<close>

section \<open>Outcomes of C++ code\<close>

text \<open>
  An operation of the model either completes or meets a fault: a point where the C++ program has
  undefined behaviour or aborts. Ordinary failures (a \<open>false\<close> result with an error record) are
  values of the completed outcome.
\<close>

datatype fault =
    UseAfterFree        \<comment> \<open>a pointer to a deleted object is followed\<close>
  | BadCast             \<comment> \<open>an object is used through a pointer of another class\<close>
  | NullDeref           \<comment> \<open>a null pointer is followed\<close>
  | BufferOverflow      \<comment> \<open>a write beyond the end of a local buffer\<close>
  | JsonTypeMisuse      \<comment> \<open>a rapidjson getter applied to a value of another type\<close>
  | IndeterminateRead   \<comment> \<open>an uninitialised member decides what happens\<close>
  | FloatOutOfRange     \<comment> \<open>a float whose value does not fit the integer type it is converted to\<close>
  | InactiveMember      \<comment> \<open>a member of a union is read that is not the one written last\<close>
  | UnlockedWait        \<comment> \<open>a condition variable is waited for without holding the mutex\<close>
  | UncaughtException   \<comment> \<open>an exception nothing catches: the process is terminated\<close>

type_synonym 'a outcome = "fault + 'a"

fun bind_outcome :: "'a outcome \<Rightarrow> ('a \<Rightarrow> 'b outcome) \<Rightarrow> 'b outcome" where
  "bind_outcome (Inl f) k = Inl f"
| "bind_outcome (Inr x) k = k x"

lemma bind_outcome_Inr_iff [simp]:
  "bind_outcome m k = Inr y \<longleftrightarrow> (\<exists>x. m = Inr x \<and> k x = Inr y)"
  by (cases m) auto

lemma bind_outcome_Inl_iff:
  "bind_outcome m k = Inl f \<longleftrightarrow> m = Inl f \<or> (\<exists>x. m = Inr x \<and> k x = Inl f)"
  by (cases m) auto

lemma bind_outcome_assoc:
  "bind_outcome (bind_outcome m k) l = bind_outcome m (\<lambda>x. bind_outcome (k x) l)"
  by (cases m) auto

lemma bind_outcome_cong [fundef_cong]:
  "m = m' \<Longrightarrow> (\<And>x. m' = Inr x \<Longrightarrow> k x = k' x) \<Longrightarrow> bind_outcome m k = bind_outcome m' k'"
  by (cases m') auto

definition faultless :: "'a outcome \<Rightarrow> bool" where
  "faultless m \<longleftrightarrow> (case m of Inl _ \<Rightarrow> False | Inr _ \<Rightarrow> True)"

lemma faultless_simps [simp]: "faultless (Inr x)" "\<not> faultless (Inl f)"
  by (simp_all add: faultless_def)

lemma faultless_iff: "faultless m \<longleftrightarrow> (\<exists>x. m = Inr x)"
  by (cases m) simp_all

section \<open>\<open>std::map\<close>\<close>

text \<open>
  A \<open>std::map\<close> iterates in the order of its keys, and the program's messages and JSON output
  follow that order, so the model keeps the entries as a list sorted by key.
  \<open>std::string\<close> keys compare lexicographically by unsigned character, which is the order
  \<^theory_text>\<open>List_Lexorder\<close> and \<^theory_text>\<open>Char_ord\<close> give \<open>string\<close>.
\<close>

type_synonym ('k, 'v) smap = "('k \<times> 'v) list"

definition sm_wf :: "('k::linorder, 'v) smap \<Rightarrow> bool" where
  "sm_wf m \<longleftrightarrow> sorted_wrt (<) (map fst m)"

definition sm_get :: "('k, 'v) smap \<Rightarrow> 'k \<Rightarrow> 'v option" where
  "sm_get m k = map_of m k"

definition sm_has :: "('k, 'v) smap \<Rightarrow> 'k \<Rightarrow> bool" where
  "sm_has m k \<longleftrightarrow> map_of m k \<noteq> None"

fun sm_put :: "('k::linorder, 'v) smap \<Rightarrow> 'k \<Rightarrow> 'v \<Rightarrow> ('k, 'v) smap" where
  "sm_put [] k v = [(k, v)]"
| "sm_put ((k', v') # m) k v =
     (if k < k' then (k, v) # (k', v') # m
      else if k = k' then (k, v) # m
      else (k', v') # sm_put m k v)"

fun sm_erase :: "('k, 'v) smap \<Rightarrow> 'k \<Rightarrow> ('k, 'v) smap" where
  "sm_erase [] k = []"
| "sm_erase ((k', v') # m) k = (if k = k' then m else (k', v') # sm_erase m k)"

lemma sm_wf_Nil [simp]: "sm_wf []"
  by (simp add: sm_wf_def)

lemma sm_wf_Cons: "sm_wf ((k, v) # m) \<longleftrightarrow> (\<forall>k' \<in> fst ` set m. k < k') \<and> sm_wf m"
  by (auto simp: sm_wf_def)

lemma sm_wf_distinct: "sm_wf m \<Longrightarrow> distinct (map fst m)"
  by (simp add: sm_wf_def strict_sorted_iff)

lemma sm_get_Nil [simp]: "sm_get [] k = None"
  by (simp add: sm_get_def)

lemma sm_has_Nil [simp]: "\<not> sm_has [] k"
  by (simp add: sm_has_def)

lemma sm_has_iff: "sm_has m k \<longleftrightarrow> (\<exists>v. sm_get m k = Some v)"
  by (auto simp: sm_has_def sm_get_def)

lemma sm_has_keys: "sm_has m k \<longleftrightarrow> k \<in> fst ` set m"
  by (simp add: sm_has_def map_of_eq_None_iff)

lemma sm_get_put [simp]: "sm_get (sm_put m k v) k' = (if k' = k then Some v else sm_get m k')"
  by (induction m k v rule: sm_put.induct) (auto simp: sm_get_def)

lemma sm_has_put [simp]: "sm_has (sm_put m k v) k' \<longleftrightarrow> k' = k \<or> sm_has m k'"
  by (auto simp: sm_has_iff)

lemma sm_put_keys [simp]: "fst ` set (sm_put m k v) = insert k (fst ` set m)"
  by (induction m k v rule: sm_put.induct) auto

lemma sm_wf_put [simp, intro]: "sm_wf m \<Longrightarrow> sm_wf (sm_put m k v)"
  by (induction m k v rule: sm_put.induct) (auto simp: sm_wf_Cons)

lemma sm_erase_subset: "set (sm_erase m k) \<subseteq> set m"
  by (induction m k rule: sm_erase.induct) auto

lemma sm_wf_erase [simp, intro]: "sm_wf m \<Longrightarrow> sm_wf (sm_erase m k)"
  by (induction m k rule: sm_erase.induct) (use sm_erase_subset in \<open>fastforce simp: sm_wf_Cons\<close>)+

lemma sm_get_erase [simp]:
  "sm_wf m \<Longrightarrow> sm_get (sm_erase m k) k' = (if k' = k then None else sm_get m k')"
proof (induction m k rule: sm_erase.induct)
  case (2 l w m k)
  have "\<not> sm_has m l" using 2(2) by (auto simp: sm_has_keys sm_wf_Cons)
  then show ?case using 2 by (auto simp: sm_get_def sm_has_def sm_wf_Cons)
qed simp

lemma sm_has_erase [simp]: "sm_wf m \<Longrightarrow> sm_has (sm_erase m k) k' \<longleftrightarrow> k' \<noteq> k \<and> sm_has m k'"
  by (auto simp: sm_has_iff)

lemma sm_get_in_set: "sm_wf m \<Longrightarrow> sm_get m k = Some v \<longleftrightarrow> (k, v) \<in> set m"
  by (simp add: sm_get_def sm_wf_distinct)

lemma sm_erase_absent: "\<not> sm_has m k \<Longrightarrow> sm_erase m k = m"
  by (induction m k rule: sm_erase.induct) (auto simp: sm_has_keys)

lemma sm_put_same_keys: "sm_wf m \<Longrightarrow> sm_has m k \<Longrightarrow> map fst (sm_put m k v) = map fst m"
  by (induction m k v rule: sm_put.induct) (auto simp: sm_has_keys sm_wf_Cons)

text \<open>
  The interface a client of \<open>std::map\<close> relies on. Its laws are discharged once for the
  association lists above; the request tables of the E2AP library and the resource tables of the
  application use the facts proved from the laws.
\<close>

locale ordered_map =
  fixes empty :: "'m"
    and get :: "'m \<Rightarrow> 'k::linorder \<Rightarrow> 'v option"
    and put :: "'m \<Rightarrow> 'k \<Rightarrow> 'v \<Rightarrow> 'm"
    and erase :: "'m \<Rightarrow> 'k \<Rightarrow> 'm"
    and items :: "'m \<Rightarrow> ('k \<times> 'v) list"
    and wf :: "'m \<Rightarrow> bool"
  assumes wf_empty: "wf empty"
    and wf_put: "wf m \<Longrightarrow> wf (put m k v)"
    and wf_erase: "wf m \<Longrightarrow> wf (erase m k)"
    and get_empty: "get empty k = None"
    and get_put: "get (put m k v) k' = (if k' = k then Some v else get m k')"
    and get_erase: "wf m \<Longrightarrow> get (erase m k) k' = (if k' = k then None else get m k')"
    and items_sorted: "wf m \<Longrightarrow> sorted_wrt (<) (map fst (items m))"
    and items_get: "wf m \<Longrightarrow> (k, v) \<in> set (items m) \<longleftrightarrow> get m k = Some v"
begin

lemma items_determined:
  assumes "wf m" "wf m'" "\<And>k. get m k = get m' k"
  shows "items m = items m'"
proof -
  have eq: "set (items m) = set (items m')"
    using assms by (auto simp: items_get)
  have "sorted (map fst (items m))" "distinct (map fst (items m))"
    "sorted (map fst (items m'))" "distinct (map fst (items m'))"
    using items_sorted assms(1,2) by (auto simp: strict_sorted_iff)
  moreover have "inj_on fst (set (items m) \<union> set (items m'))"
    using calculation(2) eq by (simp add: distinct_map)
  ultimately show ?thesis
    using eq by (intro map_sorted_distinct_set_unique)
qed

lemma erase_put_fresh:
  "wf m \<Longrightarrow> get m k = None \<Longrightarrow> items (erase (put m k v) k) = items m"
  by (rule items_determined) (auto simp: wf_erase wf_put get_erase get_put)

lemma put_put_commute:
  "wf m \<Longrightarrow> k \<noteq> k' \<Longrightarrow> items (put (put m k v) k' v') = items (put (put m k' v') k v)"
  by (rule items_determined) (auto simp: wf_put get_put)

lemma put_overwrite: "wf m \<Longrightarrow> items (put (put m k v) k v') = items (put m k v')"
  by (rule items_determined) (auto simp: wf_put get_put)

lemma erase_erase: "wf m \<Longrightarrow> items (erase (erase m k) k) = items (erase m k)"
  by (rule items_determined) (auto simp: wf_erase get_erase)

end

interpretation smap: ordered_map "[]" sm_get sm_put sm_erase "\<lambda>m. m" sm_wf
  by unfold_locales (auto simp: sm_get_in_set, auto simp: sm_wf_def)

section \<open>The last element of a list, if any\<close>

definition last_opt :: "'a list \<Rightarrow> 'a option" where
  "last_opt xs = (if xs = [] then None else Some (last xs))"

lemma last_opt_snoc [simp]: "last_opt (xs @ [x]) = Some x" "last_opt [] = None"
  by (simp_all add: last_opt_def)

section \<open>C strings\<close>

text \<open>
  \<open>std::string(const char *)\<close>, \<open>strcmp\<close>, \<open>strlen\<close> and \<open>strcpy\<close> stop at the first NUL.
\<close>

definition cstr :: "string \<Rightarrow> string" where
  "cstr s = takeWhile (\<lambda>c. c \<noteq> CHR 0x00) s"

definition no_nul :: "string \<Rightarrow> bool" where
  "no_nul s \<longleftrightarrow> CHR 0x00 \<notin> set s"

lemma cstr_id [simp]: "no_nul s \<Longrightarrow> cstr s = s"
  by (auto simp: cstr_def no_nul_def takeWhile_eq_all_conv)

lemma no_nul_cstr [simp]: "no_nul (cstr s)"
  by (auto simp: cstr_def no_nul_def dest: set_takeWhileD)

lemma no_nul_simps [simp]:
  "no_nul []" "no_nul (c # s) \<longleftrightarrow> c \<noteq> CHR 0x00 \<and> no_nul s" "no_nul (s @ t) \<longleftrightarrow> no_nul s \<and> no_nul t"
  by (auto simp: no_nul_def)

section \<open>Numerals\<close>

text \<open>Digits as \<open>std::to_string\<close> (base 10) and the \<open>%x\<close> conversion (base 16) print them.\<close>

definition digit :: "nat \<Rightarrow> char" where
  "digit d = (if d < 10 then char_of (48 + d) else char_of (87 + d))"

definition digit_val :: "char \<Rightarrow> nat" where
  "digit_val c = (let n = of_char c in if n < 58 then n - 48 else n - 87)"

fun nat_base :: "nat \<Rightarrow> nat \<Rightarrow> string" where
  "nat_base b n = (if b < 2 \<or> n < b then [digit n] else nat_base b (n div b) @ [digit (n mod b)])"

declare nat_base.simps [simp del]

definition base_val :: "nat \<Rightarrow> string \<Rightarrow> nat" where
  "base_val b s = foldl (\<lambda>a c. b * a + digit_val c) 0 s"

lemma digit_val_digit [simp]: "d < 16 \<Longrightarrow> digit_val (digit d) = d"
  by (auto simp: digit_def digit_val_def)

lemma base_val_snoc [simp]: "base_val b (s @ [c]) = b * base_val b s + digit_val c"
  by (simp add: base_val_def)

lemma base_val_nat_base: "2 \<le> b \<Longrightarrow> b \<le> 16 \<Longrightarrow> base_val b (nat_base b n) = n"
proof (induction b n rule: nat_base.induct)
  case (1 b n)
  show ?case
  proof (cases "n < b")
    case True
    then show ?thesis using 1 by (simp add: nat_base.simps [of b n] base_val_def)
  next
    case False
    moreover have "digit_val (digit (n mod b)) = n mod b"
      using 1(2,3) by (intro digit_val_digit) (meson mod_less_divisor less_le_trans pos2 order_less_le_trans)
    ultimately show ?thesis using 1 by (simp add: nat_base.simps [of b n])
  qed
qed

lemma base_val_zeros [simp]: "base_val b (replicate k (CHR ''0'') @ s) = base_val b s"
proof -
  have "foldl (\<lambda>a c. b * a + digit_val c) 0 (replicate k (CHR ''0'')) = 0"
    by (induction k) (auto simp: digit_val_def)
  then show ?thesis by (simp add: base_val_def)
qed

definition lowhex :: "char \<Rightarrow> bool" where
  "lowhex c \<longleftrightarrow> (let n = of_char c :: nat in (48 \<le> n \<and> n \<le> 57) \<or> (97 \<le> n \<and> n \<le> 102))"

lemma digit_range: "d < 16 \<Longrightarrow> lowhex (digit d)"
  by (auto simp: digit_def lowhex_def)

lemma nat_base_chars: "2 \<le> b \<Longrightarrow> b \<le> 16 \<Longrightarrow> list_all lowhex (nat_base b n)"
proof (induction b n rule: nat_base.induct)
  case (1 b n)
  have "n mod b < 16" using 1(2,3) by (meson mod_less_divisor less_le_trans pos2)
  then have r: "lowhex (digit (n mod b))" by (rule digit_range)
  show ?case
  proof (cases "n < b")
    case True
    then show ?thesis using 1 r by (simp add: nat_base.simps [of b n])
  next
    case False
    then have "list_all lowhex (nat_base b (n div b))" using 1 by simp
    then show ?thesis using False 1(2) r by (simp add: nat_base.simps [of b n])
  qed
qed

definition to_string :: "int \<Rightarrow> string" where
  "to_string i = (if i < 0 then CHR ''-'' # nat_base 10 (nat (- i)) else nat_base 10 (nat i))"

lemma nat_base_not: "\<not> lowhex c \<Longrightarrow> c \<notin> set (nat_base 10 n)"
  using nat_base_chars [of 10 n] by (auto simp: list_all_iff)

lemma lowhex_not [simp]: "\<not> lowhex (CHR ''-'')" "\<not> lowhex (CHR ''.'')" "\<not> lowhex (CHR ''_'')"
  by (simp_all add: lowhex_def)

lemma nat_base_Nil [simp]: "nat_base b n \<noteq> []"
  by (simp add: nat_base.simps [of b n])

lemma nat_base_inject: "nat_base 10 m = nat_base 10 n \<longleftrightarrow> m = n"
proof
  assume "nat_base 10 m = nat_base 10 n"
  then have "base_val 10 (nat_base 10 m) = base_val 10 (nat_base 10 n)" by (rule arg_cong)
  then show "m = n" by (simp add: base_val_nat_base)
qed simp

lemma nat_base_no_dash: "CHR ''-'' # s \<noteq> nat_base 10 n"
  using nat_base_not [of "CHR ''-''" n] by (metis list.set_intros(1) lowhex_not(1))

lemma to_string_inject [simp]: "to_string i = to_string j \<longleftrightarrow> i = j"
  using nat_base_no_dash [THEN not_sym] nat_base_no_dash
  by (auto simp: to_string_def nat_base_inject split: if_splits)

lemma to_string_no_dot: "CHR ''.'' \<notin> set (to_string i)"
  using nat_base_not [of "CHR ''.''"] by (auto simp: to_string_def)

lemma split_at_char:
  assumes "c \<notin> set a" "c \<notin> set a'" "a @ c # r = a' @ c # r'"
  shows "a = a' \<and> r = r'"
proof -
  have "takeWhile (\<lambda>x. x \<noteq> c) (a @ c # r) = a" "takeWhile (\<lambda>x. x \<noteq> c) (a' @ c # r') = a'"
    using assms(1,2) by (auto simp: takeWhile_append)
  with assms(3) show ?thesis by simp
qed

section \<open>Addresses and machine ranges\<close>

text \<open>Heap objects are held by pointer: the model keeps their address.\<close>

type_synonym addr = nat


definition int32_range :: "int \<Rightarrow> bool" where
  "int32_range n \<longleftrightarrow> - (2 ^ 31) \<le> n \<and> n < 2 ^ 31"

definition uint32_range :: "int \<Rightarrow> bool" where
  "uint32_range n \<longleftrightarrow> 0 \<le> n \<and> n < 2 ^ 32"

end
