(* ===== verification/Json_Value.thy ===== *)
theory Json_Value
  imports Prelude
begin

text \<open>
  The JSON documents the northbound interface receives and the writer calls it answers with.
  rapidjson itself is not part of the repository: the text parser is a parameter of the handlers,
  and what the code relies on here are the documented value kinds, the type tests, member lookup
  (the first member of that name), the typed getters and the SAX interface of the writer.
\<close>

section \<open>Values\<close>

datatype json =
    JNull
  | JBool bool
  | JInt int                       \<comment> \<open>a number written without fraction or exponent\<close>
  | JReal rat                      \<comment> \<open>any other number\<close>
  | JString string
  | JArray "json list"
  | JObject "(string \<times> json) list"

fun is_object :: "json \<Rightarrow> bool" where
  "is_object (JObject _) = True" | "is_object _ = False"

fun is_array :: "json \<Rightarrow> bool" where
  "is_array (JArray _) = True" | "is_array _ = False"

fun is_string :: "json \<Rightarrow> bool" where
  "is_string (JString _) = True" | "is_string _ = False"

fun is_bool :: "json \<Rightarrow> bool" where
  "is_bool (JBool _) = True" | "is_bool _ = False"

fun is_int :: "json \<Rightarrow> bool" where
  "is_int (JInt n) = int32_range n" | "is_int _ = False"

fun is_uint :: "json \<Rightarrow> bool" where
  "is_uint (JInt n) = uint32_range n" | "is_uint _ = False"

fun is_float :: "json \<Rightarrow> bool" where
  "is_float (JReal r) = (\<bar>r\<bar> \<le> 340282346638528859811704183484516925440)" | "is_float _ = False"

fun members :: "json \<Rightarrow> (string \<times> json) list" where
  "members (JObject ms) = ms" | "members _ = []"

definition json_member :: "json \<Rightarrow> string \<Rightarrow> json option" where
  "json_member j k = map_of (members j) k"

definition has_member :: "json \<Rightarrow> string \<Rightarrow> bool" where
  "has_member j k \<longleftrightarrow> json_member j k \<noteq> None"

lemma has_member_iff: "has_member j k \<longleftrightarrow> (\<exists>v. json_member j k = Some v)"
  by (auto simp: has_member_def)

text \<open>
  The getters. Applied to a value of another kind they fail an assertion, and in a build with
  assertions disabled read another union member: a fault in both cases. \<open>GetString\<close> is used by the
  code through C-string interfaces only.
\<close>

fun get_cstring :: "json \<Rightarrow> string outcome" where
  "get_cstring (JString s) = Inr (cstr s)" | "get_cstring _ = Inl JsonTypeMisuse"

fun get_bool :: "json \<Rightarrow> bool outcome" where
  "get_bool (JBool b) = Inr b" | "get_bool _ = Inl JsonTypeMisuse"

definition get_int :: "json \<Rightarrow> int outcome" where
  "get_int j = (case j of JInt n \<Rightarrow> if int32_range n then Inr n else Inl JsonTypeMisuse
                        | _ \<Rightarrow> Inl JsonTypeMisuse)"

definition get_uint :: "json \<Rightarrow> int outcome" where
  "get_uint j = (case j of JInt n \<Rightarrow> if uint32_range n then Inr n else Inl JsonTypeMisuse
                         | _ \<Rightarrow> Inl JsonTypeMisuse)"

text \<open>\<open>obj["k"]\<close> on a member that is absent fails an assertion as well.\<close>

definition at_member :: "json \<Rightarrow> string \<Rightarrow> (json \<Rightarrow> 'a outcome) \<Rightarrow> 'a outcome" where
  "at_member j k g = (case json_member j k of None \<Rightarrow> Inl JsonTypeMisuse | Some v \<Rightarrow> g v)"

lemma at_member_Some [simp]: "json_member j k = Some v \<Longrightarrow> at_member j k g = g v"
  by (simp add: at_member_def)

lemma get_cstring_ok: "is_string j \<Longrightarrow> \<exists>s. j = JString s \<and> get_cstring j = Inr (cstr s)"
  by (cases j) auto

lemma get_int_ok: "is_int j \<Longrightarrow> \<exists>n. j = JInt n \<and> int32_range n \<and> get_int j = Inr n"
  by (cases j) (auto simp: get_int_def)

lemma get_uint_ok: "is_uint j \<Longrightarrow> \<exists>n. j = JInt n \<and> uint32_range n \<and> get_uint j = Inr n"
  by (cases j) (auto simp: get_uint_def)

lemma get_bool_ok: "is_bool j \<Longrightarrow> \<exists>b. j = JBool b \<and> get_bool j = Inr b"
  by (cases j) auto

lemma is_string_iff: "is_string j \<longleftrightarrow> (\<exists>s. j = JString s)"
  by (cases j) auto

lemma is_int_iff: "is_int j \<longleftrightarrow> (\<exists>n. j = JInt n \<and> int32_range n)"
  by (cases j) auto

lemma faultless_getters [simp]:
  "faultless (get_cstring j) \<longleftrightarrow> is_string j"
  "faultless (get_bool j) \<longleftrightarrow> is_bool j"
  "faultless (get_int j) \<longleftrightarrow> is_int j"
  "faultless (get_uint j) \<longleftrightarrow> is_uint j"
  by (cases j; simp add: get_int_def get_uint_def)+

section \<open>The writer\<close>

text \<open>The calls made on \<open>rapidjson::Writer\<close>, in order.\<close>

datatype wcall =
    StartObject | EndObject | StartArray | EndArray
  | WString string | WInt int | WUint int | WBool bool

text \<open>
  The calls that write a given document, with \<open>Int\<close> for its numbers (\<open>Uint\<close> prints the same text).
\<close>

fun calls_of :: "json \<Rightarrow> wcall list"
  and calls_of_elems :: "json list \<Rightarrow> wcall list"
  and calls_of_members :: "(string \<times> json) list \<Rightarrow> wcall list" where
  "calls_of JNull = []"
| "calls_of (JReal _) = []"
| "calls_of (JBool b) = [WBool b]"
| "calls_of (JInt n) = [WInt n]"
| "calls_of (JString s) = [WString s]"
| "calls_of (JArray js) = StartArray # calls_of_elems js @ [EndArray]"
| "calls_of (JObject ms) = StartObject # calls_of_members ms @ [EndObject]"
| "calls_of_elems [] = []"
| "calls_of_elems (j # js) = calls_of j @ calls_of_elems js"
| "calls_of_members [] = []"
| "calls_of_members ((k, j) # ms) = WString k # calls_of j @ calls_of_members ms"

fun print_call :: "wcall \<Rightarrow> wcall" where
  "print_call (WUint n) = WInt n" | "print_call c = c"

text \<open>Documents the program writes: no null and no fraction.\<close>

fun plain :: "json \<Rightarrow> bool"
  and plain_elems :: "json list \<Rightarrow> bool"
  and plain_members :: "(string \<times> json) list \<Rightarrow> bool" where
  "plain JNull = False"
| "plain (JReal _) = False"
| "plain (JBool b) = True"
| "plain (JInt n) = True"
| "plain (JString s) = True"
| "plain (JArray js) = plain_elems js"
| "plain (JObject ms) = plain_members ms"
| "plain_elems [] = True"
| "plain_elems (j # js) = (plain j \<and> plain_elems js)"
| "plain_members [] = True"
| "plain_members ((k, j) # ms) = (plain j \<and> plain_members ms)"

definition writes :: "wcall list \<Rightarrow> json \<Rightarrow> bool" where
  "writes cs j \<longleftrightarrow> plain j \<and> map print_call cs = calls_of j"

text \<open>A plain document never starts with a closing bracket.\<close>

lemma calls_of_nonempty: "plain j \<Longrightarrow> \<exists>c cs. calls_of j = c # cs \<and> c \<noteq> EndArray \<and> c \<noteq> EndObject"
  by (cases j) auto

lemma calls_of_prefix_free:
  "plain j \<Longrightarrow> plain j' \<Longrightarrow> calls_of j @ r = calls_of j' @ r' \<Longrightarrow> j = j' \<and> r = r'"
  and calls_of_elems_prefix_free:
  "plain_elems js \<Longrightarrow> plain_elems js' \<Longrightarrow>
     calls_of_elems js @ EndArray # r = calls_of_elems js' @ EndArray # r' \<Longrightarrow> js = js' \<and> r = r'"
  and calls_of_members_prefix_free:
  "plain_members ms \<Longrightarrow> plain_members ms' \<Longrightarrow>
     calls_of_members ms @ EndObject # r = calls_of_members ms' @ EndObject # r' \<Longrightarrow> ms = ms' \<and> r = r'"
proof (induction j and js and ms arbitrary: j' r r' and js' r r' and ms' r r'
    rule: calls_of_calls_of_elems_calls_of_members.induct)
  case (3 b) then show ?case by (cases j') auto
next
  case (4 n) then show ?case by (cases j') auto
next
  case (5 s) then show ?case by (cases j') auto
next
  case (6 js)
  from "6.prems" obtain js' where j': "j' = JArray js'" "calls_of_elems js @ EndArray # r = calls_of_elems js' @ EndArray # r'"
    by (cases j') simp_all
  with "6.prems" show ?case using "6.IH" [of js' r r'] by simp
next
  case (7 ms)
  from "7.prems" obtain ms' where j': "j' = JObject ms'" "calls_of_members ms @ EndObject # r = calls_of_members ms' @ EndObject # r'"
    by (cases j') simp_all
  with "7.prems" show ?case using "7.IH" [of ms' r r'] by simp
next
  case 8
  show ?case
  proof (cases js')
    case Nil
    then show ?thesis using 8 by simp
  next
    case (Cons i ks)
    with "8.prems" obtain c cs where "calls_of i = c # cs" "c \<noteq> EndArray"
      using calls_of_nonempty [of i] by auto
    with "8.prems" Cons show ?thesis by simp
  qed
next
  case (9 j js)
  show ?case
  proof (cases js')
    case Nil
    from "9.prems" obtain c cs where "calls_of j = c # cs" "c \<noteq> EndArray"
      using calls_of_nonempty [of j] by auto
    with "9.prems" Nil show ?thesis by simp
  next
    case (Cons i ks)
    then have "calls_of j @ (calls_of_elems js @ EndArray # r) = calls_of i @ (calls_of_elems ks @ EndArray # r')"
      using "9.prems" Cons by simp
    then have "j = i \<and> calls_of_elems js @ EndArray # r = calls_of_elems ks @ EndArray # r'"
      using "9.prems" Cons by (intro "9.IH"(1)) simp_all
    then show ?thesis using "9.IH"(2) [of ks r r'] "9.prems" Cons by simp
  qed
next
  case 10 then show ?case by (cases ms') auto
next
  case (11 k j ms)
  show ?case
  proof (cases ms')
    case Nil
    then show ?thesis using "11.prems" by simp
  next
    case (Cons m ns)
    obtain l i where m: "m = (l, i)" by (cases m)
    then have "calls_of j @ (calls_of_members ms @ EndObject # r) = calls_of i @ (calls_of_members ns @ EndObject # r')"
      using "11.prems" Cons m by simp
    then have "j = i \<and> calls_of_members ms @ EndObject # r = calls_of_members ns @ EndObject # r'"
      using "11.prems" Cons m by (intro "11.IH"(1)) simp_all
    then show ?thesis using "11.IH"(2) [of ns r r'] "11.prems" Cons m by simp
  qed
qed simp_all

text \<open>The text written determines the document.\<close>

lemma writes_unique: "writes cs j \<Longrightarrow> writes cs j' \<Longrightarrow> j = j'"
  using calls_of_prefix_free [of j j' "[]" "[]"] by (simp add: writes_def)

lemma calls_of_elems_map: "calls_of_elems (map f xs) = concat (map (\<lambda>x. calls_of (f x)) xs)"
  by (induction xs) auto

lemma plain_elems_map: "plain_elems (map f xs) \<longleftrightarrow> (\<forall>x \<in> set xs. plain (f x))"
  by (induction xs) auto

end
