(* ===== verification/Resource_Schema.thy ===== *)
theory Resource_Schema
  imports Json_Value
begin

text \<open>
  \<open>include/nexran.h\<close> and \<open>include/restserver.h\<close>: error records, the schema a resource class
  declares, and the generic validation \<open>Resource<T>::validate_json\<close>. The locale at the end is the
  \<open>AbstractResource\<close> interface the application core works through.
\<close>

section \<open>Error records\<close>

record app_error =
  http_status :: int
  messages :: "string list"

definition new_error :: "int \<Rightarrow> app_error" where
  "new_error status = \<lparr>http_status = status, messages = []\<rparr>"

definition error_add :: "app_error \<Rightarrow> string \<Rightarrow> app_error" where
  "error_add e msg = e\<lparr>messages := messages e @ [msg]\<rparr>"

definition error_serialize :: "app_error \<Rightarrow> wcall list" where
  "error_serialize e =
     [StartObject, WString ''errors'', StartArray] @ map (\<lambda>m. WString (cstr m)) (messages e)
     @ [EndArray, EndObject]"

text \<open>
  The out-parameter \<open>AppError **ae\<close>: \<open>None\<close> is a null pointer, \<open>Some None\<close> points to a null
  \<open>AppError *\<close>, \<open>Some (Some e)\<close> to an error built so far. The status of the first error stays.
\<close>

type_synonym ae = "app_error option option"

definition ae_add :: "int \<Rightarrow> string \<Rightarrow> ae \<Rightarrow> ae" where
  "ae_add status msg ae =
     (case ae of None \<Rightarrow> None
      | Some slot \<Rightarrow>
          Some (Some (error_add (case slot of None \<Rightarrow> new_error status | Some e \<Rightarrow> e) msg)))"

definition ae_adds :: "int \<Rightarrow> string list \<Rightarrow> ae \<Rightarrow> ae" where
  "ae_adds status msgs ae = fold (ae_add status) msgs ae"

lemma ae_adds_simps [simp]:
  "ae_adds st [] ae = ae" "ae_adds st (m # ms) ae = ae_adds st ms (ae_add st m ae)"
  "ae_adds st (ms @ ms') ae = ae_adds st ms' (ae_adds st ms ae)"
  by (simp_all add: ae_adds_def)

lemma ae_add_fresh [simp]: "ae_add st m (Some None) = Some (Some \<lparr>http_status = st, messages = [m]\<rparr>)"
  by (simp add: ae_add_def new_error_def error_add_def)

lemma ae_add_some [simp]:
  "ae_add st m (Some (Some e)) = Some (Some (e\<lparr>messages := messages e @ [m]\<rparr>))"
  by (simp add: ae_add_def error_add_def)

lemma ae_add_null [simp]: "ae_add st m None = None"
  by (simp add: ae_add_def)

lemma ae_adds_some:
  "ae_adds st ms (Some (Some e)) = Some (Some (e\<lparr>messages := messages e @ ms\<rparr>))"
  by (induction ms arbitrary: e) auto

lemma ae_adds_fresh:
  "ms \<noteq> [] \<Longrightarrow> ae_adds st ms (Some None) = Some (Some \<lparr>http_status = st, messages = ms\<rparr>)"
  by (cases ms) (auto simp: ae_adds_some)

lemma error_serialize_writes:
  "writes (error_serialize e) (JObject [(''errors'', JArray (map (\<lambda>m. JString (cstr m)) (messages e)))])"
  by (auto simp: writes_def error_serialize_def calls_of_elems_map plain_elems_map comp_def)

section \<open>Schemas\<close>

datatype json_type = J_STRING | J_INT | J_UINT | J_FLOAT | J_OBJECT | J_ARRAY | J_BOOL

datatype http_method = GET | HEAD | POST | PUT | DELETE | CONNECT | OPTIONS | TRACE | PATCH

record schema =
  propertyTypes :: "(string \<times> json_type) list"
  propertyEnums :: "(string \<times> string list) list"
  required :: "(http_method \<times> string list) list"
  optional :: "(http_method \<times> string list) list"
  disallowed :: "(http_method \<times> string list) list"
  propertyErrorImmediateAbort :: bool

fun has_type :: "json_type \<Rightarrow> json \<Rightarrow> bool" where
  "has_type J_STRING v = is_string v"
| "has_type J_INT v = is_int v"
| "has_type J_UINT v = is_uint v"
| "has_type J_FLOAT v = is_float v"
| "has_type J_OBJECT v = is_object v"
| "has_type J_ARRAY v = is_array v"
| "has_type J_BOOL v = is_bool v"

definition validate_value :: "schema \<Rightarrow> string \<Rightarrow> json \<Rightarrow> bool" where
  "validate_value T k v =
     (case map_of (propertyTypes T) k of None \<Rightarrow> False | Some t \<Rightarrow> has_type t v)"

text \<open>What each of the four loops of \<open>validate_json\<close> says about one property.\<close>

definition required_violation :: "schema \<Rightarrow> json \<Rightarrow> string \<Rightarrow> string option" where
  "required_violation T obj k =
     (case json_member obj k of
        None \<Rightarrow> Some (''missing required property: '' @ k)
      | Some v \<Rightarrow> if \<not> validate_value T k v then Some (''invalid type for property: '' @ k) else None)"

definition optional_violation :: "schema \<Rightarrow> json \<Rightarrow> string \<Rightarrow> string option" where
  "optional_violation T obj k =
     (case json_member obj k of
        None \<Rightarrow> None
      | Some v \<Rightarrow> if \<not> validate_value T k v then Some (''invalid type for property: '' @ k) else None)"

definition disallowed_violation :: "json \<Rightarrow> string \<Rightarrow> string option" where
  "disallowed_violation obj k =
     (if \<not> has_member obj k then None else Some (''invalid property: '' @ k))"

definition enum_violation :: "json \<Rightarrow> string \<times> string list \<Rightarrow> string option" where
  "enum_violation obj kv =
     (case json_member obj (fst kv) of
        Some (JString s) \<Rightarrow>
          if cstr s \<notin> set (snd kv) then Some (''invalid enum value for property: '' @ fst kv) else None
      | _ \<Rightarrow> None)"

text \<open>
  One loop: every violation is added to the error record with status 400; the loop goes on with the
  result cleared, or leaves the function at once if the class asks for it (\<open>Inl\<close>).
\<close>

fun property_loop ::
    "bool \<Rightarrow> ('p \<Rightarrow> string option) \<Rightarrow> 'p list \<Rightarrow> bool \<times> ae \<Rightarrow> ae + (bool \<times> ae)" where
  "property_loop abort viol [] (retval, ae) = Inr (retval, ae)"
| "property_loop abort viol (p # ps) (retval, ae) =
     (case viol p of
        None \<Rightarrow> property_loop abort viol ps (retval, ae)
      | Some msg \<Rightarrow>
          if abort then Inl (ae_add 400 msg ae)
          else property_loop abort viol ps (False, ae_add 400 msg ae))"

definition method_list :: "(http_method \<times> string list) list \<Rightarrow> http_method \<Rightarrow> string list" where
  "method_list table m = (case map_of table m of None \<Rightarrow> [] | Some ps \<Rightarrow> ps)"

definition validate_json :: "schema \<Rightarrow> http_method \<Rightarrow> json \<Rightarrow> ae \<Rightarrow> bool \<times> ae" where
  "validate_json T m obj ae =
     (let abort = propertyErrorImmediateAbort T in
      case property_loop abort (required_violation T obj) (method_list (required T) m) (True, ae) of
        Inl ae1 \<Rightarrow> (False, ae1)
      | Inr s1 \<Rightarrow>
      (case property_loop abort (optional_violation T obj) (method_list (optional T) m) s1 of
        Inl ae2 \<Rightarrow> (False, ae2)
      | Inr s2 \<Rightarrow>
      (case property_loop abort (disallowed_violation obj) (method_list (disallowed T) m) s2 of
        Inl ae3 \<Rightarrow> (False, ae3)
      | Inr s3 \<Rightarrow>
      (case property_loop abort (enum_violation obj) (propertyEnums T) s3 of
        Inl ae4 \<Rightarrow> (False, ae4)
      | Inr s4 \<Rightarrow> s4))))"

section \<open>What validation decides\<close>

text \<open>All violations of a document, in the order the four loops meet them.\<close>

definition violations :: "schema \<Rightarrow> http_method \<Rightarrow> json \<Rightarrow> string list" where
  "violations T m obj =
     List.map_filter (required_violation T obj) (method_list (required T) m)
     @ List.map_filter (optional_violation T obj) (method_list (optional T) m)
     @ List.map_filter (disallowed_violation obj) (method_list (disallowed T) m)
     @ List.map_filter (enum_violation obj) (propertyEnums T)"

text \<open>The documents a schema is meant to accept, without reference to the loops.\<close>

definition conforms :: "schema \<Rightarrow> http_method \<Rightarrow> json \<Rightarrow> bool" where
  "conforms T m obj \<longleftrightarrow>
     (\<forall>k \<in> set (method_list (required T) m). \<exists>v. json_member obj k = Some v \<and> validate_value T k v) \<and>
     (\<forall>k \<in> set (method_list (optional T) m). \<forall>v. json_member obj k = Some v \<longrightarrow> validate_value T k v) \<and>
     (\<forall>k \<in> set (method_list (disallowed T) m). \<not> has_member obj k) \<and>
     (\<forall>(k, vs) \<in> set (propertyEnums T). \<forall>s. json_member obj k = Some (JString s) \<longrightarrow> cstr s \<in> set vs)"

lemma map_filter_Nil_iff: "List.map_filter f xs = [] \<longleftrightarrow> (\<forall>x \<in> set xs. f x = None)"
  by (auto simp: List.map_filter_def filter_empty_conv)

lemma violations_conforms: "violations T m obj = [] \<longleftrightarrow> conforms T m obj"
proof -
  have "(\<forall>k \<in> S. required_violation T obj k = None) \<longleftrightarrow>
    (\<forall>k \<in> S. \<exists>v. json_member obj k = Some v \<and> validate_value T k v)" for S
    by (auto simp: required_violation_def split: option.splits if_splits)
  moreover have "(\<forall>k \<in> S. optional_violation T obj k = None) \<longleftrightarrow>
    (\<forall>k \<in> S. \<forall>v. json_member obj k = Some v \<longrightarrow> validate_value T k v)" for S
    by (auto simp: optional_violation_def split: option.splits if_splits)
  moreover have "(\<forall>k \<in> S. disallowed_violation obj k = None) \<longleftrightarrow> (\<forall>k \<in> S. \<not> has_member obj k)" for S
    by (auto simp: disallowed_violation_def)
  moreover have "(\<forall>p \<in> S. enum_violation obj p = None) \<longleftrightarrow>
    (\<forall>(k, vs) \<in> S. \<forall>s. json_member obj k = Some (JString s) \<longrightarrow> cstr s \<in> set vs)" for S
    by (fastforce simp: enum_violation_def split: option.splits json.splits if_splits)
  ultimately show ?thesis
    by (simp add: violations_def conforms_def map_filter_Nil_iff)
qed

lemma map_filter_Cons:
  "List.map_filter f (x # xs) = (case f x of None \<Rightarrow> List.map_filter f xs | Some y \<Rightarrow> y # List.map_filter f xs)"
  by (simp add: List.map_filter_def split: option.splits)

lemma property_loop_continue:
  "property_loop False viol ps (b, ae) =
     Inr (b \<and> List.map_filter viol ps = [], ae_adds 400 (List.map_filter viol ps) ae)"
  by (induction ps arbitrary: b ae) (auto simp: map_filter_Cons map_filter_simps(2) split: option.splits)

lemma property_loop_abort:
  "property_loop True viol ps (b, ae) =
     (case List.map_filter viol ps of [] \<Rightarrow> Inr (b, ae) | m # _ \<Rightarrow> Inl (ae_add 400 m ae))"
  by (induction ps arbitrary: b ae) (auto simp: map_filter_Cons map_filter_simps(2) split: option.splits)

lemma validate_json_collects:
  "\<not> propertyErrorImmediateAbort T \<Longrightarrow>
     validate_json T m obj ae = (violations T m obj = [], ae_adds 400 (violations T m obj) ae)"
  by (auto simp: validate_json_def Let_def property_loop_continue violations_def)

lemma validate_json_aborts:
  "propertyErrorImmediateAbort T \<Longrightarrow>
     validate_json T m obj ae = (violations T m obj = [], ae_adds 400 (take 1 (violations T m obj)) ae)"
  by (auto simp: validate_json_def Let_def property_loop_abort violations_def split: list.splits)

lemma validate_json_result: "fst (validate_json T m obj ae) \<longleftrightarrow> conforms T m obj"
  by (cases "propertyErrorImmediateAbort T")
     (simp_all add: validate_json_collects validate_json_aborts violations_conforms)

lemma validate_json_True:
  "validate_json T m obj ae = (True, ae') \<longleftrightarrow> conforms T m obj \<and> ae' = ae"
  by (cases "propertyErrorImmediateAbort T")
     (auto simp: validate_json_collects validate_json_aborts simp flip: violations_conforms)

lemma validate_json_False:
  assumes "validate_json T m obj (Some None) = (False, ae')"
  shows "\<exists>e. ae' = Some (Some e) \<and> http_status e = 400 \<and> messages e \<noteq> []"
proof (cases "violations T m obj")
  case Nil
  then have "conforms T m obj" by (simp add: violations_conforms)
  with assms validate_json_result [of T m obj "Some None"] show ?thesis by simp
next
  case (Cons v vs)
  with assms show ?thesis
    by (cases "propertyErrorImmediateAbort T")
       (auto simp: validate_json_collects validate_json_aborts ae_adds_some)
qed

section \<open>The resource interface\<close>

text \<open>
  \<open>AbstractResource\<close> with the static \<open>create\<close> of its three classes, as the application uses it.
  The last argument of \<open>create\<close> is the byte an uninitialised member happens to hold.
\<close>

locale resource_class =
  fixes getName :: "'r \<Rightarrow> string"
    and create :: "json \<Rightarrow> ae \<Rightarrow> bool \<Rightarrow> ('r option \<times> ae) outcome"
    and update :: "json \<Rightarrow> ae \<Rightarrow> 'r \<Rightarrow> (bool \<times> ae \<times> 'r) outcome"
    and serialize :: "'r \<Rightarrow> wcall list"
    and view :: "'r \<Rightarrow> json"
  assumes create_some: "create d ae mem = Inr (Some r, ae') \<Longrightarrow> ae' = ae"
    and create_none: "create d (Some None) mem = Inr (None, ae') \<Longrightarrow>
          \<exists>e. ae' = Some (Some e) \<and> http_status e = 400 \<and> messages e \<noteq> []"
    and create_object: "create d ae mem = Inr (Some r, ae') \<Longrightarrow> is_object d"
    and update_name: "update d ae r = Inr (b, ae', r') \<Longrightarrow> getName r' = getName r"
    and update_true: "update d ae r = Inr (True, ae', r') \<Longrightarrow> ae' = ae"
    and update_false: "update d ae r = Inr (False, ae', r') \<Longrightarrow> r' = r"
    and update_error: "update d (Some None) r = Inr (False, ae', r') \<Longrightarrow>
          \<exists>e. ae' = Some (Some e) \<and> http_status e \<in> {400, 403} \<and> messages e \<noteq> []"
    and serialize_view: "writes (serialize r) (view r)"
begin

text \<open>The reply of a PUT: no error record exactly when the update succeeded.\<close>

lemma update_reply:
  assumes "update d (Some None) r = Inr (b, ae', r')"
  shows "b \<longleftrightarrow> ae' = Some None"
  using assms update_true update_error by (cases b) fastforce+

lemma update_reply_status:
  assumes "update d (Some None) r = Inr (b, Some (Some e), r')"
  shows "\<not> b \<and> r' = r \<and> http_status e \<in> {400, 403}"
  using assms update_true update_error update_false by (cases b) fastforce+

lemma create_reply:
  assumes "create d (Some None) mem = Inr (res, ae')"
  shows "res \<noteq> None \<longleftrightarrow> ae' = Some None"
  using assms create_some create_none by (cases res) fastforce+

lemma serialize_determines: "serialize r = serialize r' \<Longrightarrow> view r = view r'"
  using serialize_view writes_unique by metis

end

end
