(* ===== verification/Kpm_Metrics.thy ===== *)
theory Kpm_Metrics
  imports Prelude "HOL-Library.While_Combinator"
begin

text \<open>
  \<open>lib/e2sm/include/e2sm_kpm.h\<close> and \<open>lib/e2sm/src/e2sm_kpm.cc\<close>: the metrics of one entity, the
  sliding window \<open>MetricsIndex\<close>, KPM reports and reporting periods. The window's contract is that its
  totals are the sums over the entries younger than the period.
\<close>

section \<open>Entity metrics\<close>

text \<open>
  64-bit counters are words; the signed ones are their two's-complement words, so that sums agree
  with \<open>int64_t\<close> wherever those are defined. A double is only ever copied: its bit pattern.
\<close>

type_synonym u64 = "64 word"
type_synonym double_bits = "64 word"

record entity_metrics =
  m_time :: int
  dl_bytes :: u64
  ul_bytes :: u64
  dl_prbs :: u64
  ul_prbs :: u64
  tx_pkts :: u64
  tx_errors :: u64
  tx_brate :: u64
  rx_pkts :: u64
  rx_errors :: u64
  rx_brate :: u64
  dl_cqi :: double_bits
  dl_ri :: double_bits
  dl_pmi :: double_bits
  ul_phr :: double_bits
  ul_sinr :: double_bits
  ul_mcs :: double_bits
  ul_samples :: u64

text \<open>The aggregate initialisation \<open>{ time, dl_bytes, ul_bytes, dl_prbs, ul_prbs }\<close>: the rest is zero.\<close>

definition metrics_init :: "int \<Rightarrow> u64 \<Rightarrow> u64 \<Rightarrow> u64 \<Rightarrow> u64 \<Rightarrow> entity_metrics" where
  "metrics_init t db ub dp up =
     \<lparr>m_time = t, dl_bytes = db, ul_bytes = ub, dl_prbs = dp, ul_prbs = up,
      tx_pkts = 0, tx_errors = 0, tx_brate = 0, rx_pkts = 0, rx_errors = 0, rx_brate = 0,
      dl_cqi = 0, dl_ri = 0, dl_pmi = 0, ul_phr = 0, ul_sinr = 0, ul_mcs = 0, ul_samples = 0\<rparr>"

section \<open>\<open>MetricsIndex\<close>\<close>

record metrics_index =
  mi_period :: int
  mi_queue :: "entity_metrics list"   \<comment> \<open>\<open>std::queue\<close>: front first\<close>
  mi_totals :: entity_metrics

definition MetricsIndex :: "int \<Rightarrow> metrics_index" where
  "MetricsIndex period = \<lparr>mi_period = period, mi_queue = [], mi_totals = metrics_init 0 0 0 0 0\<rparr>"

definition totals_plus :: "entity_metrics \<Rightarrow> entity_metrics \<Rightarrow> entity_metrics" where
  "totals_plus t m =
     t\<lparr>dl_bytes := dl_bytes t + dl_bytes m, ul_bytes := ul_bytes t + ul_bytes m,
       dl_prbs := dl_prbs t + dl_prbs m, ul_prbs := ul_prbs t + ul_prbs m,
       tx_pkts := tx_pkts t + tx_pkts m, tx_errors := tx_errors t + tx_errors m,
       rx_pkts := rx_pkts t + rx_pkts m, rx_errors := rx_errors t + rx_errors m\<rparr>"

definition totals_minus :: "entity_metrics \<Rightarrow> entity_metrics \<Rightarrow> entity_metrics" where
  "totals_minus t m =
     t\<lparr>dl_bytes := dl_bytes t - dl_bytes m, ul_bytes := ul_bytes t - ul_bytes m,
       dl_prbs := dl_prbs t - dl_prbs m, ul_prbs := ul_prbs t - ul_prbs m,
       tx_pkts := tx_pkts t - tx_pkts m, tx_errors := tx_errors t - tx_errors m,
       rx_pkts := rx_pkts t - rx_pkts m, rx_errors := rx_errors t - rx_errors m\<rparr>"

text \<open>The loop of \<open>flush\<close>; the bound is \<open>now - period\<close>.\<close>

fun flush_loop ::
    "int \<Rightarrow> entity_metrics list \<Rightarrow> entity_metrics \<Rightarrow> entity_metrics list \<times> entity_metrics" where
  "flush_loop bound [] totals = ([], totals)"
| "flush_loop bound (m # q) totals =
     (if m_time m < bound then flush_loop bound q (totals_minus totals m) else (m # q, totals))"

definition mi_flush :: "int \<Rightarrow> metrics_index \<Rightarrow> metrics_index" where
  "mi_flush now mi =
     (let (q, t) = flush_loop (now - mi_period mi) (mi_queue mi) (mi_totals mi)
      in mi\<lparr>mi_queue := q, mi_totals := t\<rparr>)"

text \<open>
  The same loop as the code has it: the queue, the totals and whether \<open>break\<close> has not been reached;
  \<open>None\<close> would be a loop that never ends.
\<close>

definition flush_body ::
    "int \<Rightarrow> entity_metrics list \<times> entity_metrics \<times> bool \<Rightarrow> entity_metrics list \<times> entity_metrics \<times> bool" where
  "flush_body bound = (\<lambda>(queue, totals, go).
     let m = hd queue in
     if m_time m < bound then (tl queue, totals_minus totals m, True) else (queue, totals, False))"

definition flush_while :: "int \<Rightarrow> metrics_index \<Rightarrow> metrics_index option" where
  "flush_while now mi =
     map_option (\<lambda>(queue, totals, go). mi\<lparr>mi_queue := queue, mi_totals := totals\<rparr>)
       (while_option (\<lambda>(queue, totals, go). go \<and> length queue > 0) (flush_body (now - mi_period mi))
          (mi_queue mi, mi_totals mi, True))"

definition mi_add :: "int \<Rightarrow> entity_metrics \<Rightarrow> metrics_index \<Rightarrow> metrics_index" where
  "mi_add now m mi =
     mi_flush now (mi\<lparr>mi_queue := mi_queue mi @ [m], mi_totals := totals_plus (mi_totals mi) m\<rparr>)"

definition mi_reset :: "int \<Rightarrow> int \<Rightarrow> metrics_index \<Rightarrow> metrics_index" where
  "mi_reset now period mi = mi_flush now (mi\<lparr>mi_period := period\<rparr>)"

definition get_total_bytes :: "metrics_index \<Rightarrow> u64" where
  "get_total_bytes mi = dl_bytes (mi_totals mi) + ul_bytes (mi_totals mi)"

definition mi_size :: "metrics_index \<Rightarrow> nat" where
  "mi_size mi = length (mi_queue mi)"

section \<open>The window contract\<close>

text \<open>The eight counters that are summed.\<close>

definition summed :: "(entity_metrics \<Rightarrow> u64) set" where
  "summed = {dl_bytes, ul_bytes, dl_prbs, ul_prbs, tx_pkts, tx_errors, rx_pkts, rx_errors}"

definition mi_inv :: "metrics_index \<Rightarrow> bool" where
  "mi_inv mi \<longleftrightarrow> (\<forall>f \<in> summed. f (mi_totals mi) = sum_list (map f (mi_queue mi)))"

definition chronological :: "entity_metrics list \<Rightarrow> bool" where
  "chronological q \<longleftrightarrow> sorted (map m_time q)"

lemma totals_plus_summed [simp]: "f \<in> summed \<Longrightarrow> f (totals_plus t m) = f t + f m"
  by (auto simp: summed_def totals_plus_def)

lemma totals_minus_summed [simp]: "f \<in> summed \<Longrightarrow> f (totals_minus t m) = f t - f m"
  by (auto simp: summed_def totals_minus_def)

lemma summed_bytes [simp]: "dl_bytes \<in> summed" "ul_bytes \<in> summed"
  by (simp_all add: summed_def)

lemma flush_while_loop:
  "while_option (\<lambda>(queue, totals, go). go \<and> length queue > 0) (flush_body bound) (q, t, True) =
     Some (fst (flush_loop bound q t), snd (flush_loop bound q t), fst (flush_loop bound q t) = [])"
proof (induction q arbitrary: t)
  case (Cons m q)
  then show ?case by (cases "m_time m < bound") (simp_all add: while_option_unfold flush_body_def)
qed (simp add: while_option_unfold)

lemma flush_loop_queue: "fst (flush_loop b q t) = dropWhile (\<lambda>m. m_time m < b) q"
  by (induction b q t rule: flush_loop.induct) auto

lemma flush_loop_totals:
  "f \<in> summed \<Longrightarrow> f t = sum_list (map f q) + c \<Longrightarrow>
     f (snd (flush_loop b q t)) = sum_list (map f (fst (flush_loop b q t))) + c"
  by (induction b q t rule: flush_loop.induct) (auto simp: algebra_simps)

lemma mi_flush_queue: "mi_queue (mi_flush now mi) = dropWhile (\<lambda>m. m_time m < now - mi_period mi) (mi_queue mi)"
  by (simp add: mi_flush_def flush_loop_queue split_beta Let_def)

lemma mi_flush_period [simp]: "mi_period (mi_flush now mi) = mi_period mi"
  by (simp add: mi_flush_def split_beta Let_def)

lemma mi_inv_new [simp]: "mi_inv (MetricsIndex p)"
  by (auto simp: mi_inv_def MetricsIndex_def summed_def metrics_init_def)

lemma mi_inv_flush [simp]: "mi_inv mi \<Longrightarrow> mi_inv (mi_flush now mi)"
  using flush_loop_totals [where c = 0]
  by (auto simp: mi_inv_def mi_flush_def split_beta Let_def)

lemma mi_inv_add [simp]: "mi_inv mi \<Longrightarrow> mi_inv (mi_add now m mi)"
  unfolding mi_add_def by (rule mi_inv_flush) (simp add: mi_inv_def)

lemma mi_inv_reset [simp]: "mi_inv mi \<Longrightarrow> mi_inv (mi_reset now p mi)"
  unfolding mi_reset_def by (rule mi_inv_flush) (simp add: mi_inv_def)

lemma dropWhile_sorted_filter:
  "sorted (map g xs) \<Longrightarrow> dropWhile (\<lambda>x. g x < b) xs = filter (\<lambda>x. b \<le> g x) xs"
  by (induction xs) (auto simp: not_less intro!: filter_True [symmetric] dest: order_trans)

lemma mi_flush_window:
  "chronological (mi_queue mi) \<Longrightarrow>
     mi_queue (mi_flush now mi) = filter (\<lambda>m. now - mi_period mi \<le> m_time m) (mi_queue mi)"
  by (simp add: mi_flush_queue chronological_def dropWhile_sorted_filter)

lemma mi_add_window:
  assumes "chronological (mi_queue mi)" "\<forall>x \<in> set (mi_queue mi). m_time x \<le> m_time m"
  shows "mi_queue (mi_add now m mi) = filter (\<lambda>x. now - mi_period mi \<le> m_time x) (mi_queue mi @ [m])"
    and "chronological (mi_queue (mi_add now m mi))"
proof -
  have "chronological (mi_queue mi @ [m])"
    using assms by (auto simp: chronological_def sorted_append)
  then show "mi_queue (mi_add now m mi) = filter (\<lambda>x. now - mi_period mi \<le> m_time x) (mi_queue mi @ [m])"
    and "chronological (mi_queue (mi_add now m mi))"
    by (simp_all add: mi_add_def mi_flush_window)
       (simp add: chronological_def sorted_filter sorted_append)
qed

lemma total_bytes_window:
  "mi_inv mi \<Longrightarrow> get_total_bytes mi = (\<Sum>m \<leftarrow> mi_queue mi. dl_bytes m + ul_bytes m)"
  by (simp add: get_total_bytes_def mi_inv_def sum_list_addf)

section \<open>Reports and periods\<close>

record kpm_report =
  period_ms :: int
  available_dl_prbs :: int
  available_ul_prbs :: int
  active_ues :: int
  r_ues :: "(int, entity_metrics) smap"
  r_slices :: "(string, entity_metrics) smap"

definition KpmReport :: kpm_report where
  "KpmReport = \<lparr>period_ms = 0, available_dl_prbs = 0, available_ul_prbs = 0, active_ues = 0,
                r_ues = [], r_slices = []\<rparr>"

text \<open>
  \<open>KpmReport::to_string\<close>, which the application logs; how a stream prints a \<open>double\<close> is an argument.
\<close>

definition u64_text :: "u64 \<Rightarrow> string" where
  "u64_text w = to_string (uint w)"

definition i64_text :: "u64 \<Rightarrow> string" where
  "i64_text w = to_string (sint w)"

definition entity_text :: "(double_bits \<Rightarrow> string) \<Rightarrow> char \<Rightarrow> entity_metrics \<Rightarrow> string" where
  "entity_text show_double item_delim m =
     ''={'' @ concat (map (\<lambda>(label, v). label @ ''='' @ v @ [item_delim])
       [(''dl_bytes'', u64_text (dl_bytes m)), (''ul_bytes'', u64_text (ul_bytes m)),
        (''dl_prbs'', u64_text (dl_prbs m)), (''ul_prbs'', u64_text (ul_prbs m)),
        (''tx_pkts'', i64_text (tx_pkts m)), (''tx_errors'', i64_text (tx_errors m)),
        (''tx_brate'', i64_text (tx_brate m)), (''rx_pkts'', i64_text (rx_pkts m)),
        (''rx_errors'', i64_text (rx_errors m)), (''rx_brate'', i64_text (rx_brate m)),
        (''dl_cqi'', show_double (dl_cqi m)), (''dl_ri'', show_double (dl_ri m)),
        (''dl_pmi'', show_double (dl_pmi m)), (''ul_phr'', show_double (ul_phr m)),
        (''ul_sinr'', show_double (ul_sinr m)), (''ul_mcs'', show_double (ul_mcs m)),
        (''ul_samples'', i64_text (ul_samples m))]) @ ''}''"

definition KpmReport_to_string :: "(double_bits \<Rightarrow> string) \<Rightarrow> char \<Rightarrow> char \<Rightarrow> kpm_report \<Rightarrow> string" where
  "KpmReport_to_string show_double group_delim item_delim r =
     ''KpmReport(period='' @ to_string (period_ms r) @ '' ms)'' @ [group_delim] @
     ''available_dl_prbs='' @ to_string (available_dl_prbs r) @ [group_delim] @
     ''available_ul_prbs='' @ to_string (available_ul_prbs r) @ [group_delim] @
     concat (map (\<lambda>(k, m). ''ue['' @ to_string k @ '']'' @ entity_text show_double item_delim m @ [group_delim]) (r_ues r)) @
     concat (map (\<lambda>(k, m). ''slice['' @ k @ '']'' @ entity_text show_double item_delim m @ [group_delim]) (r_slices r))"

datatype kpm_period =
    MS10 | MS20 | MS32 | MS40 | MS60 | MS64 | MS70 | MS80 | MS128 | MS160 | MS256 | MS320
  | MS512 | MS640 | MS1024 | MS1280 | MS2048 | MS2560 | MS5120 | MS10240

fun kpm_period_to_ms :: "kpm_period \<Rightarrow> int" where
  "kpm_period_to_ms MS10 = 10" | "kpm_period_to_ms MS20 = 20" | "kpm_period_to_ms MS32 = 32"
| "kpm_period_to_ms MS40 = 40" | "kpm_period_to_ms MS60 = 60" | "kpm_period_to_ms MS64 = 64"
| "kpm_period_to_ms MS70 = 70" | "kpm_period_to_ms MS80 = 80" | "kpm_period_to_ms MS128 = 128"
| "kpm_period_to_ms MS160 = 160" | "kpm_period_to_ms MS256 = 256" | "kpm_period_to_ms MS320 = 320"
| "kpm_period_to_ms MS512 = 512" | "kpm_period_to_ms MS640 = 640" | "kpm_period_to_ms MS1024 = 1024"
| "kpm_period_to_ms MS1280 = 1280" | "kpm_period_to_ms MS2048 = 2048" | "kpm_period_to_ms MS2560 = 2560"
| "kpm_period_to_ms MS5120 = 5120" | "kpm_period_to_ms MS10240 = 10240"

lemma kpm_period_bounds: "10 \<le> kpm_period_to_ms p \<and> kpm_period_to_ms p \<le> 10240"
  by (cases p) auto

end
