(* ===== verification/Policy_Resource.thy ===== *)
theory Policy_Resource
  imports Resource_Schema Kpm_Metrics
begin

text \<open>
  \<open>class ProportionalAllocationPolicy\<close> (\<open>include/nexran.h\<close>, \<open>src/policy.cc\<close>): a slice's share and
  its throttling state machine. \<open>int\<close> members are mathematical integers in the 32-bit range; the
  comparison of the unsigned byte total with the signed threshold is done on 64-bit words, as the
  usual arithmetic conversions make it.
\<close>

record policy =
  share :: int
  auto_equalize :: bool
  throttle :: bool
  throttle_threshold :: int
  throttle_period :: int
  throttle_share :: int
  is_throttling :: bool
  throttle_end :: int
  throttle_saved_share :: int
  metrics :: metrics_index

definition ProportionalAllocationPolicy :: "int \<Rightarrow> bool \<Rightarrow> bool \<Rightarrow> int \<Rightarrow> int \<Rightarrow> int \<Rightarrow> policy" where
  "ProportionalAllocationPolicy sh eq th threshold period tshare =
     \<lparr>share = sh, auto_equalize = eq, throttle = th, throttle_threshold = threshold,
      throttle_period = period, throttle_share = tshare,
      is_throttling = False, throttle_end = 0, throttle_saved_share = -1,
      metrics = MetricsIndex period\<rparr>"

text \<open>The constructor's default arguments.\<close>

definition default_policy :: "int \<Rightarrow> policy" where
  "default_policy sh = ProportionalAllocationPolicy sh False False (-1) 1800 128"

definition setShare :: "int \<Rightarrow> policy \<Rightarrow> bool \<times> policy" where
  "setShare s p = (if s < 0 \<or> s > 1024 then (False, p) else (True, p\<lparr>share := s\<rparr>))"

definition maybeEndThrottling :: "int \<Rightarrow> policy \<Rightarrow> int \<times> policy" where
  "maybeEndThrottling now p =
     (if \<not> is_throttling p then (-1, p)
      else if throttle p \<and> now < throttle_end p then (-1, p)
      else (throttle_saved_share p,
            p\<lparr>is_throttling := False, throttle_end := 0, throttle_saved_share := -1\<rparr>))"

definition maybeStartThrottling :: "int \<Rightarrow> policy \<Rightarrow> int \<times> policy" where
  "maybeStartThrottling now p =
     (if \<not> throttle p then (-1, p)
      else if is_throttling p then (-1, p)
      else if get_total_bytes (metrics p) < word_of_int (throttle_threshold p) then (-1, p)
      else (throttle_share p,
            p\<lparr>throttle_saved_share := share p, is_throttling := True,
              throttle_end := now + throttle_period p\<rparr>))"

definition policy_serialize :: "policy \<Rightarrow> wcall list" where
  "policy_serialize p =
     [StartObject,
      WString ''type'', WString ''proportional'',
      WString ''share'', WInt (share p),
      WString ''auto_equalize'', WBool (auto_equalize p),
      WString ''throttle'', WBool (throttle p),
      WString ''throttle_threshold'', WInt (throttle_threshold p),
      WString ''throttle_period'', WInt (throttle_period p),
      WString ''throttle_share'', WInt (throttle_share p),
      EndObject]"

definition policy_view :: "policy \<Rightarrow> json" where
  "policy_view p =
     JObject [(''type'', JString ''proportional''), (''share'', JInt (share p)),
              (''auto_equalize'', JBool (auto_equalize p)), (''throttle'', JBool (throttle p)),
              (''throttle_threshold'', JInt (throttle_threshold p)),
              (''throttle_period'', JInt (throttle_period p)),
              (''throttle_share'', JInt (throttle_share p))]"

text \<open>
  The guarded tests of the JSON code: \<open>!HasMember || !IsString || strcmp\<close> and
  \<open>!HasMember || !IsInt || < lo || > hi\<close>, and a member that is present but no boolean.
\<close>

definition member_is_text :: "json \<Rightarrow> string \<Rightarrow> string \<Rightarrow> bool" where
  "member_is_text obj k s =
     (case json_member obj k of Some (JString t) \<Rightarrow> cstr t = s | _ \<Rightarrow> False)"

definition member_in_range :: "json \<Rightarrow> string \<Rightarrow> int \<Rightarrow> int \<Rightarrow> bool" where
  "member_in_range obj k lo hi =
     (case json_member obj k of Some (JInt n) \<Rightarrow> int32_range n \<and> lo \<le> n \<and> n \<le> hi | _ \<Rightarrow> False)"

definition member_not_bool :: "json \<Rightarrow> string \<Rightarrow> bool" where
  "member_not_bool obj k = (case json_member obj k of None \<Rightarrow> False | Some v \<Rightarrow> \<not> is_bool v)"

text \<open>\<open>if (obj.HasMember(k)) x = obj[k].Get...();\<close> with the value \<open>x\<close> has before.\<close>

definition member_or :: "(json \<Rightarrow> 'a outcome) \<Rightarrow> json \<Rightarrow> string \<Rightarrow> 'a \<Rightarrow> 'a outcome" where
  "member_or getter obj k x = (case json_member obj k of None \<Rightarrow> Inr x | Some v \<Rightarrow> getter v)"

definition policy_update :: "json \<Rightarrow> ae \<Rightarrow> policy \<Rightarrow> (bool \<times> ae \<times> policy) outcome" where
  "policy_update obj ae p =
     (if \<not> is_object obj then Inr (False, ae_add 400 ''request is not an object'' ae, p)
      else if \<not> member_is_text obj ''type'' ''proportional'' \<or> \<not> member_in_range obj ''share'' 0 1024
      then Inr (False, ae_add 400 ''malformed allocation_policy property'' ae, p)
      else if member_not_bool obj ''auto_equalize'' \<or> member_not_bool obj ''throttle''
      then Inr (False, ae_add 400 ''malformed allocation_policy property'' ae, p)
      else
        bind_outcome (at_member obj ''share'' get_int) (\<lambda>s.
        bind_outcome (member_or get_bool obj ''auto_equalize'' (auto_equalize p)) (\<lambda>eq.
        bind_outcome (member_or get_bool obj ''throttle'' (throttle p)) (\<lambda>th.
        Inr (True, ae, p\<lparr>share := s, auto_equalize := eq, throttle := th\<rparr>)))))"

section \<open>Properties\<close>

definition share_ok :: "int \<Rightarrow> bool" where
  "share_ok s \<longleftrightarrow> 0 \<le> s \<and> s \<le> 1024"

lemma setShare_share: "share_ok (share p) \<Longrightarrow> share_ok (share (snd (setShare s p)))"
  by (auto simp: setShare_def share_ok_def)

lemma setShare_in_range: "share_ok s \<Longrightarrow> setShare s p = (True, p\<lparr>share := s\<rparr>)"
  by (auto simp: setShare_def share_ok_def)

lemma member_in_range_get:
  "member_in_range obj k lo hi \<Longrightarrow> \<exists>n. at_member obj k get_int = Inr n \<and> lo \<le> n \<and> n \<le> hi"
  by (auto simp: member_in_range_def at_member_def get_int_def split: option.splits json.splits)

lemma member_or_bool:
  "\<not> member_not_bool obj k \<Longrightarrow> \<exists>b. member_or get_bool obj k x = Inr b"
  by (auto simp: member_not_bool_def member_or_def split: option.splits elim: is_bool.elims)

lemma policy_update_cases:
  obtains (refused) msg where "policy_update obj ae p = Inr (False, ae_add 400 msg ae, p)"
    | (updated) s eq th where "policy_update obj ae p =
          Inr (True, ae, p\<lparr>share := s, auto_equalize := eq, throttle := th\<rparr>)" "share_ok s"
        "member_is_text obj ''type'' ''proportional''"
proof (cases "is_object obj \<and> member_is_text obj ''type'' ''proportional'' \<and> member_in_range obj ''share'' 0 1024
    \<and> \<not> member_not_bool obj ''auto_equalize'' \<and> \<not> member_not_bool obj ''throttle''")
  case True
  then obtain s eq th where "at_member obj ''share'' get_int = Inr s" "0 \<le> s" "s \<le> 1024"
    "member_or get_bool obj ''auto_equalize'' (auto_equalize p) = Inr eq"
    "member_or get_bool obj ''throttle'' (throttle p) = Inr th"
    using member_in_range_get member_or_bool by metis
  with True show thesis by (intro updated [where s = s and eq = eq and th = th]) (auto simp: policy_update_def share_ok_def)
next
  case False
  then have "\<exists>msg. policy_update obj ae p = Inr (False, ae_add 400 msg ae, p)"
    by (auto simp: policy_update_def)
  then show thesis using refused by blast
qed

lemma policy_serialize_view: "writes (policy_serialize p) (policy_view p)"
  by (simp add: writes_def policy_serialize_def policy_view_def)

text \<open>The throttling state machine: idle and throttling policies.\<close>

definition throttling_inv :: "policy \<Rightarrow> bool" where
  "throttling_inv p \<longleftrightarrow>
     share_ok (share p) \<and> mi_inv (metrics p) \<and>
     (if is_throttling p then share_ok (throttle_saved_share p)
      else throttle_end p = 0 \<and> throttle_saved_share p = -1)"

lemma throttling_inv_new:
  "share_ok sh \<Longrightarrow> throttling_inv (ProportionalAllocationPolicy sh eq th thr per tsh)"
  by (simp add: throttling_inv_def ProportionalAllocationPolicy_def)

lemma throttling_inv_start:
  "throttling_inv p \<Longrightarrow> throttling_inv (snd (maybeStartThrottling now p))"
  by (auto simp: throttling_inv_def maybeStartThrottling_def)

lemma throttling_inv_end:
  "throttling_inv p \<Longrightarrow> throttling_inv (snd (maybeEndThrottling now p))"
  by (auto simp: throttling_inv_def maybeEndThrottling_def)

lemma throttling_inv_update:
  "throttling_inv p \<Longrightarrow> policy_update obj ae p = Inr (b, ae', p') \<Longrightarrow> throttling_inv p'"
  by (cases rule: policy_update_cases [of obj ae p]) (auto simp: throttling_inv_def)

lemma throttling_inv_metrics:
  "throttling_inv p \<Longrightarrow> throttling_inv (p\<lparr>metrics := mi_add now m (metrics p)\<rparr>)"
  "throttling_inv p \<Longrightarrow> throttling_inv (p\<lparr>metrics := mi_flush now (metrics p)\<rparr>)"
  by (simp_all add: throttling_inv_def)

lemma throttling_inv_setShare: "throttling_inv p \<Longrightarrow> throttling_inv (snd (setShare s p))"
  by (auto simp: throttling_inv_def setShare_def share_ok_def)

lemma maybeStartThrottling_frame [simp]:
  "share (snd (maybeStartThrottling now p)) = share p"
  "metrics (snd (maybeStartThrottling now p)) = metrics p"
  "throttle (snd (maybeStartThrottling now p)) = throttle p"
  "auto_equalize (snd (maybeStartThrottling now p)) = auto_equalize p"
  by (simp_all add: maybeStartThrottling_def)

lemma maybeEndThrottling_frame [simp]:
  "share (snd (maybeEndThrottling now p)) = share p"
  "metrics (snd (maybeEndThrottling now p)) = metrics p"
  "throttle (snd (maybeEndThrottling now p)) = throttle p"
  "auto_equalize (snd (maybeEndThrottling now p)) = auto_equalize p"
  by (simp_all add: maybeEndThrottling_def)

end
