(* ===== verification/Ue_Resource.thy ===== *)
theory Ue_Resource
  imports Resource_Schema
begin

text \<open>
  \<open>class Ue\<close> (\<open>include/nexran.h\<close>, \<open>src/ue.cc\<close>): a subscriber, the slice it is bound to, and its
  northbound representation.
\<close>

record ue =
  imsi :: string
  tmsi :: string
  crnti :: string
  ue_connected :: bool       \<comment> \<open>no constructor sets it\<close>
  bound_slice :: string

definition Ue_schema :: schema where
  "Ue_schema =
     \<lparr>propertyTypes = [(''imsi'', J_STRING), (''tmsi'', J_STRING), (''crnti'', J_STRING),
                       (''status'', J_OBJECT)],
      propertyEnums = [],
      required = [(POST, [''imsi''])],
      optional = [(POST, [''tmsi''])],
      disallowed = [(POST, [''crnti'', ''status'']), (PUT, [''crnti'', ''status''])],
      propertyErrorImmediateAbort = False\<rparr>"

definition Ue1 :: "string \<Rightarrow> bool \<Rightarrow> ue" where
  "Ue1 i mem = \<lparr>imsi = i, tmsi = [], crnti = [], ue_connected = mem, bound_slice = []\<rparr>"

definition Ue3 :: "string \<Rightarrow> string \<Rightarrow> string \<Rightarrow> bool \<Rightarrow> ue" where
  "Ue3 i t c mem =
     \<lparr>imsi = i, tmsi = t, crnti = c, ue_connected = mem, bound_slice = []\<rparr>"

definition is_bound :: "ue \<Rightarrow> bool" where
  "is_bound u \<longleftrightarrow> bound_slice u \<noteq> []"

text \<open>
  \<open>bind_slice\<close> and \<open>unbind_slice\<close> return \<open>false\<close> when they refuse and run off their end without a
  return value otherwise (\<open>None\<close>); no caller looks at the result.
\<close>

definition ue_bind_slice :: "ue \<Rightarrow> string \<Rightarrow> bool option \<times> ue" where
  "ue_bind_slice u slice_name =
     (if is_bound u then (Some False, u) else (None, u\<lparr>bound_slice := slice_name\<rparr>))"

definition ue_unbind_slice :: "ue \<Rightarrow> bool option \<times> ue" where
  "ue_unbind_slice u = (if \<not> is_bound u then (Some False, u) else (None, u\<lparr>bound_slice := []\<rparr>))"

definition ue_serialize :: "ue \<Rightarrow> wcall list" where
  "ue_serialize u =
     [StartObject,
      WString ''imsi'', WString (cstr (imsi u)),
      WString ''tmsi'', WString (cstr (tmsi u)),
      WString ''crnti'', WString (cstr (crnti u)),
      WString ''status'', StartObject, WString ''connected'', WBool (ue_connected u), EndObject,
      EndObject]"

definition ue_view :: "ue \<Rightarrow> json" where
  "ue_view u =
     JObject [(''imsi'', JString (cstr (imsi u))), (''tmsi'', JString (cstr (tmsi u))),
              (''crnti'', JString (cstr (crnti u))),
              (''status'', JObject [(''connected'', JBool (ue_connected u))])]"

definition ue_create :: "json \<Rightarrow> ae \<Rightarrow> bool \<Rightarrow> (ue option \<times> ae) outcome" where
  "ue_create d ae mem =
     (if \<not> is_object d then Inr (None, ae_add 400 ''request is not an object'' ae)
      else case validate_json Ue_schema POST d ae of
        (False, ae1) \<Rightarrow> Inr (None, ae1)
      | (True, ae1) \<Rightarrow>
          (case json_member d ''tmsi'' of
             Some t \<Rightarrow>
               bind_outcome (at_member d ''imsi'' get_cstring) (\<lambda>i.
               bind_outcome (get_cstring t) (\<lambda>t'.
               Inr (Some (Ue3 i t' [] mem), ae1)))
           | None \<Rightarrow>
               bind_outcome (at_member d ''imsi'' get_cstring) (\<lambda>i.
               Inr (Some (Ue1 i mem), ae1))))"

text \<open>
  \<open>update\<close>: the refusal of a changed \<open>imsi\<close> returns only when an error slot was passed in; with a
  null slot the code goes on.
\<close>

definition ue_update_tmsi :: "json \<Rightarrow> ae \<Rightarrow> ue \<Rightarrow> (bool \<times> ae \<times> ue) outcome" where
  "ue_update_tmsi d ae u =
     (case json_member d ''tmsi'' of
        Some t \<Rightarrow> bind_outcome (get_cstring t) (\<lambda>t'. Inr (True, ae, u\<lparr>tmsi := t'\<rparr>))
      | None \<Rightarrow> Inr (True, ae, u))"

definition ue_update :: "json \<Rightarrow> ae \<Rightarrow> ue \<Rightarrow> (bool \<times> ae \<times> ue) outcome" where
  "ue_update d ae u =
     (if \<not> is_object d then Inr (False, ae_add 400 ''request is not an object'' ae, u)
      else case validate_json Ue_schema PUT d ae of
        (False, ae1) \<Rightarrow> Inr (False, ae1, u)
      | (True, ae1) \<Rightarrow>
          (case json_member d ''imsi'' of
             None \<Rightarrow> ue_update_tmsi d ae1 u
           | Some v \<Rightarrow>
               bind_outcome (get_cstring v) (\<lambda>i.
               if cstr (imsi u) \<noteq> i \<and> ae1 \<noteq> None
               then Inr (False, ae_add 403 ''cannot modify immutable property: imsi'' ae1, u)
               else ue_update_tmsi d ae1 u)))"

section \<open>Properties\<close>

lemma ue_bind_slice_bound [simp]: "bound_slice (snd (ue_bind_slice u s)) = (if is_bound u then bound_slice u else s)"
  by (simp add: ue_bind_slice_def)

lemma ue_bind_slice_frame [simp]:
  "imsi (snd (ue_bind_slice u s)) = imsi u" "tmsi (snd (ue_bind_slice u s)) = tmsi u"
  by (simp_all add: ue_bind_slice_def)

lemma ue_unbind_slice_bound [simp]: "bound_slice (snd (ue_unbind_slice u)) = []"
  by (simp add: ue_unbind_slice_def is_bound_def)

lemma ue_unbind_slice_frame [simp]:
  "imsi (snd (ue_unbind_slice u)) = imsi u" "tmsi (snd (ue_unbind_slice u)) = tmsi u"
  by (simp_all add: ue_unbind_slice_def)

lemma Ue_schema_abort [simp]: "propertyErrorImmediateAbort Ue_schema = False"
  by (simp add: Ue_schema_def)

lemma ue_post_conforms:
  "conforms Ue_schema POST d \<longleftrightarrow>
     (\<exists>s. json_member d ''imsi'' = Some (JString s)) \<and>
     (\<forall>v. json_member d ''tmsi'' = Some v \<longrightarrow> is_string v) \<and>
     \<not> has_member d ''crnti'' \<and> \<not> has_member d ''status''"
  by (auto simp: conforms_def Ue_schema_def method_list_def validate_value_def elim: is_string.elims)

lemma ue_put_conforms:
  "conforms Ue_schema PUT d \<longleftrightarrow> \<not> has_member d ''crnti'' \<and> \<not> has_member d ''status''"
  by (auto simp: conforms_def Ue_schema_def method_list_def)

lemma ue_create_total: "faultless (ue_create d ae mem)"
proof (cases "is_object d")
  case True
  obtain b ae1 where v: "validate_json Ue_schema POST d ae = (b, ae1)" by fastforce
  show ?thesis
  proof (cases b)
    case True
    with v have "conforms Ue_schema POST d" by (simp add: validate_json_True)
    then obtain s where "json_member d ''imsi'' = Some (JString s)"
      "\<forall>v. json_member d ''tmsi'' = Some v \<longrightarrow> is_string v"
      by (auto simp: ue_post_conforms)
    with v True \<open>is_object d\<close> show ?thesis
      by (auto simp: ue_create_def split: option.split dest!: get_cstring_ok)
  qed (use v in \<open>simp add: ue_create_def\<close>)
qed (simp add: ue_create_def)

lemma ue_update_tmsi_cases:
  "ue_update_tmsi d ae u = Inr (b, ae', u') \<Longrightarrow> b \<and> ae' = ae \<and> imsi u' = imsi u \<and> bound_slice u' = bound_slice u"
  by (auto simp: ue_update_tmsi_def split: option.splits)

lemma ue_update_cases:
  assumes "ue_update d ae u = Inr (b, ae', u')"
  obtains (not_object) "\<not> is_object d" "\<not> b" "u' = u" "ae' = ae_add 400 ''request is not an object'' ae"
    | (invalid) "is_object d" "\<not> b" "u' = u" "validate_json Ue_schema PUT d ae = (False, ae')"
    | (immutable) "is_object d" "\<not> b" "u' = u" "ae \<noteq> None"
        "ae' = ae_add 403 ''cannot modify immutable property: imsi'' ae"
    | (updated) "is_object d" "b" "ae' = ae" "imsi u' = imsi u" "bound_slice u' = bound_slice u"
        "ue_update_tmsi d ae u = Inr (True, ae, u')"
proof (cases "is_object d")
  case True
  obtain c ae1 where v: "validate_json Ue_schema PUT d ae = (c, ae1)" by fastforce
  show thesis
  proof (cases c)
    case False
    with assms v True show thesis by (intro invalid) (auto simp: ue_update_def)
  next
    case c: True
    with v have [simp]: "ae1 = ae" by (auto simp: validate_json_True)
    have "(\<not> b \<and> u' = u \<and> ae \<noteq> None \<and> ae' = ae_add 403 ''cannot modify immutable property: imsi'' ae)
        \<or> ue_update_tmsi d ae u = Inr (b, ae', u')"
      using assms v c True by (auto simp: ue_update_def split: option.splits if_splits)
    then show thesis
      using immutable updated ue_update_tmsi_cases True by (metis (full_types))
  qed
qed (use assms in \<open>auto simp: ue_update_def intro: not_object\<close>)

lemma ue_serialize_view: "writes (ue_serialize u) (ue_view u)"
  by (simp add: writes_def ue_serialize_def ue_view_def)

interpretation ue_class: resource_class imsi ue_create ue_update ue_serialize ue_view
proof unfold_locales
  fix d ae mem r ae'
  assume a: "ue_create d ae mem = Inr (Some r, ae')"
  show "ae' = ae"
    using a by (auto simp: ue_create_def validate_json_True split: if_splits prod.splits bool.splits option.splits)
  show "is_object d"
    using a by (auto simp: ue_create_def split: if_splits)
next
  fix d mem ae'
  assume a: "ue_create d (Some None) mem = Inr (None, ae')"
  show "\<exists>e. ae' = Some (Some e) \<and> http_status e = 400 \<and> messages e \<noteq> []"
    using a by (auto simp: ue_create_def dest: validate_json_False
        split: if_splits prod.splits bool.splits option.splits)
next
  fix d ae r b ae' r'
  assume a: "ue_update d ae r = Inr (b, ae', r')"
  then show "imsi r' = imsi r" by (cases rule: ue_update_cases) auto
next
  fix d ae r ae' r'
  assume "ue_update d ae r = Inr (True, ae', r')"
  then show "ae' = ae" by (cases rule: ue_update_cases) auto
next
  fix d ae r ae' r'
  assume "ue_update d ae r = Inr (False, ae', r')"
  then show "r' = r" by (cases rule: ue_update_cases) auto
next
  fix d r ae' r'
  assume "ue_update d (Some None) r = Inr (False, ae', r')"
  then show "\<exists>e. ae' = Some (Some e) \<and> http_status e \<in> {400, 403} \<and> messages e \<noteq> []"
    by (cases rule: ue_update_cases) (auto dest: validate_json_False)
qed (rule ue_serialize_view)

end
