(* ===== verification/Slice_Resource.thy ===== *)
theory Slice_Resource
  imports Policy_Resource Ue_Resource
begin

text \<open>
  \<open>class Slice\<close> (\<open>include/nexran.h\<close>, \<open>src/slice.cc\<close>): a network slice with its allocation policy and
  the subscribers bound to it. Subscribers are held by pointer: the model keeps the address.
\<close>

record slice =
  s_name :: string
  allocation_policy :: policy
  s_ues :: "(string, addr) smap"

definition Slice_schema :: schema where
  "Slice_schema =
     \<lparr>propertyTypes = [(''name'', J_STRING), (''allocation_policy'', J_OBJECT)],
      propertyEnums = [],
      required = [(POST, [''name''])],
      optional = [],
      disallowed = [(PUT, [''name''])],
      propertyErrorImmediateAbort = False\<rparr>"

definition Slice2 :: "string \<Rightarrow> policy \<Rightarrow> slice" where
  "Slice2 n p = \<lparr>s_name = n, allocation_policy = p, s_ues = []\<rparr>"

definition Slice1 :: "string \<Rightarrow> slice" where
  "Slice1 n = Slice2 n (default_policy 512)"

definition slice_bind_ue :: "slice \<Rightarrow> string \<Rightarrow> addr \<Rightarrow> bool \<times> slice" where
  "slice_bind_ue s ue_name p =
     (if sm_has (s_ues s) ue_name then (False, s)
      else (True, s\<lparr>s_ues := sm_put (s_ues s) ue_name p\<rparr>))"

definition slice_unbind_ue :: "slice \<Rightarrow> string \<Rightarrow> bool \<times> slice" where
  "slice_unbind_ue s i =
     (if \<not> sm_has (s_ues s) i then (False, s)
      else (True, s\<lparr>s_ues := sm_erase (s_ues s) i\<rparr>))"

definition slice_serialize :: "slice \<Rightarrow> wcall list" where
  "slice_serialize s =
     [StartObject, WString ''name'', WString (cstr (s_name s)), WString ''allocation_policy'']
     @ policy_serialize (allocation_policy s)
     @ [WString ''ues'', StartArray]
     @ map (\<lambda>u. WString (cstr (fst u))) (s_ues s)
     @ [EndArray, EndObject]"

definition slice_view :: "slice \<Rightarrow> json" where
  "slice_view s =
     JObject [(''name'', JString (cstr (s_name s))),
              (''allocation_policy'', policy_view (allocation_policy s)),
              (''ues'', JArray (map (\<lambda>u. JString (cstr (fst u))) (s_ues s)))]"

definition slice_create :: "json \<Rightarrow> ae \<Rightarrow> bool \<Rightarrow> (slice option \<times> ae) outcome" where
  "slice_create d ae mem =
     (if \<not> is_object d then Inr (None, ae_add 400 ''request is not an object'' ae)
      else case validate_json Slice_schema POST d ae of
        (False, ae1) \<Rightarrow> Inr (None, ae1)
      | (True, ae1) \<Rightarrow>
          (case json_member d ''allocation_policy'' of
             None \<Rightarrow>
               bind_outcome (at_member d ''name'' get_cstring) (\<lambda>n. Inr (Some (Slice1 n), ae1))
           | Some ap \<Rightarrow>
               if \<not> is_object ap
                  \<or> \<not> member_is_text ap ''type'' ''proportional''
                  \<or> \<not> member_in_range ap ''share'' 0 1024
                  \<or> member_not_bool ap ''auto_equalize''
               then Inr (None, ae_add 400 ''malformed allocation_policy property'' ae1)
               else
                 bind_outcome (member_or get_bool ap ''auto_equalize'' False) (\<lambda>eq.
                 bind_outcome (member_or get_bool ap ''throttle'' False) (\<lambda>th.
                 bind_outcome (member_or get_int ap ''throttle_threshold'' (-1)) (\<lambda>thr.
                 bind_outcome (member_or get_int ap ''throttle_period'' 1800) (\<lambda>per.
                 bind_outcome (member_or get_int ap ''throttle_share'' 128) (\<lambda>tsh.
                 bind_outcome (at_member ap ''share'' get_int) (\<lambda>sh.
                 bind_outcome (at_member d ''name'' get_cstring) (\<lambda>n.
                 Inr (Some (Slice2 n (ProportionalAllocationPolicy sh eq th thr per tsh)), ae1))))))))))"

definition slice_update :: "json \<Rightarrow> ae \<Rightarrow> slice \<Rightarrow> (bool \<times> ae \<times> slice) outcome" where
  "slice_update d ae s =
     (if \<not> is_object d then Inr (False, ae_add 400 ''request is not an object'' ae, s)
      else case validate_json Slice_schema PUT d ae of
        (False, ae1) \<Rightarrow> Inr (False, ae1, s)
      | (True, ae1) \<Rightarrow>
          (case json_member d ''allocation_policy'' of
             None \<Rightarrow> Inr (True, ae1, s)
           | Some ap \<Rightarrow>
               if \<not> is_object ap
               then Inr (False, ae_add 400 ''malformed allocation_policy property'' ae1, s)
               else
                 bind_outcome (policy_update ap ae1 (allocation_policy s)) (\<lambda>(b, ae2, p).
                 Inr (b, ae2, s\<lparr>allocation_policy := p\<rparr>))))"

section \<open>Properties\<close>

lemma slice_bind_ue_frame [simp]:
  "s_name (snd (slice_bind_ue s n p)) = s_name s"
  "allocation_policy (snd (slice_bind_ue s n p)) = allocation_policy s"
  by (simp_all add: slice_bind_ue_def)

lemma slice_unbind_ue_frame [simp]:
  "s_name (snd (slice_unbind_ue s i)) = s_name s"
  "allocation_policy (snd (slice_unbind_ue s i)) = allocation_policy s"
  by (simp_all add: slice_unbind_ue_def)

lemma slice_bind_unbind:
  assumes "sm_wf (s_ues s)" "fst (slice_bind_ue s i p)"
  shows "slice_unbind_ue (snd (slice_bind_ue s i p)) i = (True, s)"
proof -
  have "sm_get (s_ues s) i = None"
    using assms(2) by (auto simp: slice_bind_ue_def sm_has_iff split: if_splits)
  then show ?thesis
    using assms smap.erase_put_fresh [of "s_ues s" i p]
    by (auto simp: slice_bind_ue_def slice_unbind_ue_def split: if_splits)
qed

lemma slice_post_conforms:
  "conforms Slice_schema POST d \<longleftrightarrow> (\<exists>s. json_member d ''name'' = Some (JString s))"
  by (auto simp: conforms_def Slice_schema_def method_list_def validate_value_def elim: is_string.elims)

lemma slice_put_conforms: "conforms Slice_schema PUT d \<longleftrightarrow> \<not> has_member d ''name''"
  by (auto simp: conforms_def Slice_schema_def method_list_def)

lemma slice_update_conform:
  assumes "is_object d" "conforms Slice_schema PUT d"
  shows "slice_update d ae s =
     (case json_member d ''allocation_policy'' of
        None \<Rightarrow> Inr (True, ae, s)
      | Some ap \<Rightarrow>
          if \<not> is_object ap then Inr (False, ae_add 400 ''malformed allocation_policy property'' ae, s)
          else bind_outcome (policy_update ap ae (allocation_policy s)) (\<lambda>(b, ae2, p).
                 Inr (b, ae2, s\<lparr>allocation_policy := p\<rparr>)))"
proof -
  have "validate_json Slice_schema PUT d ae = (True, ae)"
    using assms by (simp add: validate_json_True)
  with assms show ?thesis by (simp add: slice_update_def)
qed

lemma slice_update_nonconform:
  assumes "is_object d" "\<not> conforms Slice_schema PUT d"
  shows "slice_update d ae s = Inr (False, snd (validate_json Slice_schema PUT d ae), s)"
  using assms validate_json_result [of Slice_schema PUT d ae]
  by (cases "validate_json Slice_schema PUT d ae") (simp add: slice_update_def)

lemma slice_update_cases:
  assumes "slice_update d ae s = Inr (b, ae', s')"
  obtains (invalid) "is_object d" "\<not> b" "s' = s" "validate_json Slice_schema PUT d ae = (False, ae')"
    | (refused) msg where "\<not> b" "s' = s" "ae' = ae_add 400 msg ae"
    | (unchanged) "b" "s' = s" "ae' = ae" "\<not> has_member d ''allocation_policy''"
    | (updated) ap p' where "b" "ae' = ae" "json_member d ''allocation_policy'' = Some ap"
        "policy_update ap ae (allocation_policy s) = Inr (True, ae, p')"
        "s' = s\<lparr>allocation_policy := p'\<rparr>"
proof (cases "is_object d \<and> conforms Slice_schema PUT d")
  case True
  note eq = assms [unfolded slice_update_conform [OF True [THEN conjunct1] True [THEN conjunct2]]]
  show thesis
  proof (cases "json_member d ''allocation_policy''")
    case None
    with eq show thesis by (intro unchanged) (auto simp: has_member_def)
  next
    case (Some ap)
    show thesis
    proof (cases "is_object ap")
      case False
      with eq Some show thesis by (intro refused) auto
    next
      case ap: True
      show thesis
        by (rule policy_update_cases [of ap ae "allocation_policy s"])
           (use eq Some ap in \<open>auto intro: refused updated\<close>)
    qed
  qed
next
  case False
  show thesis
  proof (cases "is_object d")
    case True
    with False assms validate_json_result [of Slice_schema PUT d ae] show thesis
      by (intro invalid) (auto simp: slice_update_nonconform prod_eq_iff)
  next
    case False
    with assms show thesis by (intro refused) (auto simp: slice_update_def)
  qed
qed

lemma slice_update_inv:
  assumes "throttling_inv (allocation_policy s)" "slice_update d ae s = Inr (b, ae', s')"
  shows "throttling_inv (allocation_policy s') \<and> s_name s' = s_name s \<and> s_ues s' = s_ues s"
  using assms(2) by (cases rule: slice_update_cases) (use assms(1) throttling_inv_update in auto)

lemma slice_create_Some:
  assumes "slice_create d ae mem = Inr (Some s, ae')"
  shows "ae' = ae \<and> is_object d \<and> s_ues s = [] \<and> throttling_inv (allocation_policy s)
    \<and> (\<exists>n. json_member d ''name'' = Some (JString n) \<and> s_name s = cstr n)"
proof -
  obtain c ae1 where v: "validate_json Slice_schema POST d ae = (c, ae1)" by fastforce
  have d: "is_object d" and c: "c" using assms v by (auto simp: slice_create_def split: if_splits bool.splits)
  with v have [simp]: "ae1 = ae" and "conforms Slice_schema POST d" by (auto simp: validate_json_True)
  then obtain n where n: "json_member d ''name'' = Some (JString n)" by (auto simp: slice_post_conforms)
  show ?thesis
  proof (cases "json_member d ''allocation_policy''")
    case None
    with assms v c d n show ?thesis
      by (auto simp: slice_create_def Slice1_def Slice2_def default_policy_def
          throttling_inv_new share_ok_def)
  next
    case (Some ap)
    with assms v c d n show ?thesis
      by (auto simp: slice_create_def Slice2_def split: if_splits
          dest!: member_in_range_get intro!: throttling_inv_new simp: share_ok_def)
  qed
qed

lemma slice_create_None:
  assumes "slice_create d (Some None) mem = Inr (None, ae')"
  shows "\<exists>e. ae' = Some (Some e) \<and> http_status e = 400 \<and> messages e \<noteq> []"
proof -
  obtain c ae1 where v: "validate_json Slice_schema POST d (Some None) = (c, ae1)" by fastforce
  show ?thesis
  proof (cases "is_object d \<and> c")
    case True
    with v have [simp]: "ae1 = Some None" by (auto simp: validate_json_True)
    from assms v True show ?thesis
      by (auto simp: slice_create_def split: option.splits if_splits)
  next
    case False
    with assms v show ?thesis
      by (auto simp: slice_create_def split: if_splits bool.splits dest: validate_json_False)
  qed
qed

lemma slice_serialize_view: "writes (slice_serialize s) (slice_view s)"
  by (simp add: writes_def slice_serialize_def slice_view_def policy_serialize_def policy_view_def
      calls_of_elems_map plain_elems_map comp_def)

interpretation slice_class: resource_class s_name slice_create slice_update slice_serialize slice_view
proof unfold_locales
  fix d ae mem r ae'
  assume "slice_create d ae mem = Inr (Some r, ae')"
  then show "ae' = ae" and "is_object d" using slice_create_Some by blast+
next
  fix d mem ae'
  assume "slice_create d (Some None) mem = Inr (None, ae')"
  then show "\<exists>e. ae' = Some (Some e) \<and> http_status e = 400 \<and> messages e \<noteq> []"
    by (rule slice_create_None)
next
  fix d ae r b ae' r'
  assume "slice_update d ae r = Inr (b, ae', r')"
  then show "s_name r' = s_name r" by (cases rule: slice_update_cases) auto
next
  fix d ae r ae' r'
  assume "slice_update d ae r = Inr (True, ae', r')"
  then show "ae' = ae" by (cases rule: slice_update_cases) auto
next
  fix d ae r ae' r'
  assume "slice_update d ae r = Inr (False, ae', r')"
  then show "r' = r" by (cases rule: slice_update_cases) auto
next
  fix d r ae' r'
  assume "slice_update d (Some None) r = Inr (False, ae', r')"
  then show "\<exists>e. ae' = Some (Some e) \<and> http_status e \<in> {400, 403} \<and> messages e \<noteq> []"
    by (cases rule: slice_update_cases) (auto dest: validate_json_False)
qed (rule slice_serialize_view)

end
