(* ===== verification/NodeB_Resource.thy ===== *)
theory NodeB_Resource
  imports Resource_Schema
begin

text \<open>
  \<open>class NodeB\<close> (\<open>include/nexran.h\<close>, \<open>src/nodeb.cc\<close>): a RAN node, the name it is given, and the
  slices bound to it. Slices are held by pointer: the model keeps the address.
\<close>

section \<open>Node types\<close>

datatype nb_type = UNKNOWN | GNB | GNB_CU_UP | GNB_DU | EN_GNB | ENB | NG_ENB | NB_END

text \<open>The enumeration's values, which give the order the code compares types by.\<close>

fun nb_code :: "nb_type \<Rightarrow> nat" where
  "nb_code UNKNOWN = 0" | "nb_code GNB = 1" | "nb_code GNB_CU_UP = 2" | "nb_code GNB_DU = 3"
| "nb_code EN_GNB = 4" | "nb_code ENB = 5" | "nb_code NG_ENB = 6" | "nb_code NB_END = 7"

lemma nb_code_inject [simp]: "nb_code t = nb_code t' \<longleftrightarrow> t = t'"
  by (cases t; cases t') simp_all

instantiation nb_type :: linorder
begin

definition less_eq_nb_type :: "nb_type \<Rightarrow> nb_type \<Rightarrow> bool" where
  "less_eq_nb_type t t' \<longleftrightarrow> nb_code t \<le> nb_code t'"

definition less_nb_type :: "nb_type \<Rightarrow> nb_type \<Rightarrow> bool" where
  "less_nb_type t t' \<longleftrightarrow> nb_code t < nb_code t'"

instance
  by intro_classes (auto simp: less_eq_nb_type_def less_nb_type_def)

end

text \<open>The cast \<open>(Type)i\<close> for the indices the search can end with.\<close>

definition nb_type_of :: "nat \<Rightarrow> nb_type" where
  "nb_type_of i = ([UNKNOWN, GNB, GNB_CU_UP, GNB_DU, EN_GNB, ENB, NG_ENB, NB_END] ! i)"

definition type_string_map :: "string list" where
  "type_string_map =
     [''unknown'', ''gNB'', ''gNB-CU-UP'', ''gNB-DU'', ''en-gNB'', ''eNB'', ''ng-eNB'']"

definition type_to_type_string :: "nb_type \<Rightarrow> string" where
  "type_to_type_string t =
     (if t \<ge> UNKNOWN \<and> t < NB_END then type_string_map ! nb_code t else ''invalid'')"

fun type_search :: "string \<Rightarrow> string list \<Rightarrow> nat \<Rightarrow> nat" where
  "type_search ts [] i = i"
| "type_search ts (s # ss) i = (if ts = s then i else type_search ts ss (Suc i))"

definition type_string_to_type :: "string \<Rightarrow> nb_type" where
  "type_string_to_type ts = nb_type_of (type_search ts type_string_map 0)"

definition get_name_prefix :: "nb_type \<Rightarrow> 8 word \<Rightarrow> string" where
  "get_name_prefix type id_len =
     (if type = UNKNOWN then ''unknown''
      else if type \<ge> GNB \<and> type \<le> GNB_DU then ''gnB''
      else if type = EN_GNB then ''en_gnB''
      else if type = ENB then
        (if id_len = 0 \<or> id_len = 20 then ''enB_macro''
         else if id_len = 18 then ''enB_shortmacro''
         else if id_len = 21 then ''enB_longmacro''
         else ''invalid'')
      else if type = NG_ENB then
        (if id_len = 0 \<or> id_len = 20 then ''ng_enB_macro''
         else if id_len = 18 then ''ng_enB_shortmacro''
         else if id_len = 21 then ''ng_enB_longmacro''
         else ''invalid'')
      else ''invalid'')"

section \<open>Names\<close>

text \<open>\<open>%06x\<close> of an \<open>int32_t\<close>: the value as an unsigned 32-bit number in hexadecimal.\<close>

definition hex06 :: "int \<Rightarrow> string" where
  "hex06 n = (let s = nat_base 16 (nat (n mod 2 ^ 32)) in replicate (6 - length s) (CHR ''0'') @ s)"

definition mnc_padded :: "string \<Rightarrow> string" where
  "mnc_padded mnc =
     (if length mnc = 1 then ''00'' else if length mnc = 2 then ''0'' else []) @ mnc"

definition name_text :: "nb_type \<Rightarrow> string \<Rightarrow> string \<Rightarrow> int \<Rightarrow> 8 word \<Rightarrow> string" where
  "name_text type mcc mnc n id_len =
     get_name_prefix type id_len @ ''_'' @ mcc @ ''_'' @ mnc_padded mnc @ ''_'' @ hex06 n"

text \<open>
  \<open>snprintf\<close> into a buffer of 128 bytes returns the full length; the terminator is then written at
  that index again, beyond the buffer when the text did not fit. \<open>mcc\<close> and \<open>mnc\<close> are C strings.
\<close>

definition build_name :: "nb_type \<Rightarrow> string \<Rightarrow> string \<Rightarrow> int \<Rightarrow> 8 word \<Rightarrow> string outcome" where
  "build_name type mcc mnc n id_len =
     (let text = name_text type mcc mnc n id_len
      in if length text < 128 then Inr text else Inl BufferOverflow)"

section \<open>The class\<close>

record nodeb =
  nb_name :: string
  nb_type :: nb_type
  nb_mcc :: string
  nb_mnc :: string
  nb_id :: int
  nb_id_len :: "8 word"
  nb_connected :: bool
  total_prbs :: int
  nb_slices :: "(string, addr) smap"

definition NodeB_schema :: schema where
  "NodeB_schema =
     \<lparr>propertyTypes = [(''name'', J_STRING), (''type'', J_STRING), (''mcc'', J_STRING),
                       (''mnc'', J_STRING), (''id'', J_INT), (''id_len'', J_UINT),
                       (''status'', J_OBJECT), (''config'', J_OBJECT)],
      propertyEnums = [(''type'', [''gNB'', ''gNB-CU-UP'', ''gNB-DU'', ''en-gNB'', ''eNB'', ''ng-eNB''])],
      required = [(POST, [''type'', ''id'', ''mcc'', ''mnc''])],
      optional = [(POST, [''id_len''])],
      disallowed = [(POST, [''name'', ''status'', ''config'']),
                    (PUT, [''type'', ''id'', ''id_len'', ''mcc'', ''mnc'', ''name'', ''status'', ''config''])],
      propertyErrorImmediateAbort = False\<rparr>"

definition NodeB_new :: "nb_type \<Rightarrow> string \<Rightarrow> string \<Rightarrow> int \<Rightarrow> 8 word \<Rightarrow> nodeb outcome" where
  "NodeB_new type mcc mnc n id_len =
     bind_outcome (build_name type mcc mnc n id_len) (\<lambda>name.
     Inr \<lparr>nb_name = name, nb_type = type, nb_mcc = mcc, nb_mnc = mnc, nb_id = n, nb_id_len = id_len,
          nb_connected = False, total_prbs = -1, nb_slices = []\<rparr>)"

definition nodeb_bind_slice :: "nodeb \<Rightarrow> string \<Rightarrow> addr \<Rightarrow> bool \<times> nodeb" where
  "nodeb_bind_slice nb slice_name p =
     (if sm_has (nb_slices nb) slice_name then (False, nb)
      else (True, nb\<lparr>nb_slices := sm_put (nb_slices nb) slice_name p\<rparr>))"

definition nodeb_unbind_slice :: "nodeb \<Rightarrow> string \<Rightarrow> bool \<times> nodeb" where
  "nodeb_unbind_slice nb slice_name =
     (if \<not> sm_has (nb_slices nb) slice_name then (False, nb)
      else (True, nb\<lparr>nb_slices := sm_erase (nb_slices nb) slice_name\<rparr>))"

definition is_slice_bound :: "nodeb \<Rightarrow> string \<Rightarrow> bool" where
  "is_slice_bound nb slice_name \<longleftrightarrow> sm_has (nb_slices nb) slice_name"

definition nodeb_serialize :: "nodeb \<Rightarrow> wcall list" where
  "nodeb_serialize nb =
     [StartObject,
      WString ''name'', WString (cstr (nb_name nb)),
      WString ''type'', WString (type_to_type_string (nb_type nb)),
      WString ''id'', WInt (nb_id nb),
      WString ''id_len'', WUint (uint (nb_id_len nb)),
      WString ''status'', StartObject, WString ''connected'', WBool (nb_connected nb), EndObject,
      WString ''config'', StartObject, WString ''total_prbs'', WInt (total_prbs nb), EndObject,
      WString ''slices'', StartArray]
     @ map (\<lambda>s. WString (cstr (fst s))) (nb_slices nb)
     @ [EndArray, EndObject]"

definition nodeb_view :: "nodeb \<Rightarrow> json" where
  "nodeb_view nb =
     JObject [(''name'', JString (cstr (nb_name nb))),
              (''type'', JString (type_to_type_string (nb_type nb))),
              (''id'', JInt (nb_id nb)), (''id_len'', JInt (uint (nb_id_len nb))),
              (''status'', JObject [(''connected'', JBool (nb_connected nb))]),
              (''config'', JObject [(''total_prbs'', JInt (total_prbs nb))]),
              (''slices'', JArray (map (\<lambda>s. JString (cstr (fst s))) (nb_slices nb)))]"

definition nodeb_create :: "json \<Rightarrow> ae \<Rightarrow> bool \<Rightarrow> (nodeb option \<times> ae) outcome" where
  "nodeb_create d ae mem =
     (if \<not> is_object d then Inr (None, ae_add 400 ''request is not an object'' ae)
      else case validate_json NodeB_schema POST d ae of
        (False, ae1) \<Rightarrow> Inr (None, ae1)
      | (True, ae1) \<Rightarrow>
          bind_outcome
            (case json_member d ''id_len'' of
               None \<Rightarrow> Inr 20
             | Some v \<Rightarrow> bind_outcome (get_uint v) (\<lambda>n. Inr (word_of_int n))) (\<lambda>id_len.
          bind_outcome (at_member d ''type'' get_cstring) (\<lambda>ts.
          bind_outcome (at_member d ''mcc'' get_cstring) (\<lambda>mcc.
          bind_outcome (at_member d ''mnc'' get_cstring) (\<lambda>mnc.
          bind_outcome (at_member d ''id'' get_int) (\<lambda>n.
          bind_outcome (NodeB_new (type_string_to_type ts) mcc mnc n id_len) (\<lambda>nb.
          Inr (Some nb, ae1))))))))"

definition nodeb_update :: "json \<Rightarrow> ae \<Rightarrow> nodeb \<Rightarrow> (bool \<times> ae \<times> nodeb) outcome" where
  "nodeb_update d ae nb =
     (if \<not> is_object d then Inr (False, ae_add 400 ''request is not an object'' ae, nb)
      else case validate_json NodeB_schema PUT d ae of
        (False, ae1) \<Rightarrow> Inr (False, ae1, nb)
      | (True, ae1) \<Rightarrow> Inr (True, ae1, nb))"

section \<open>Properties\<close>

lemma type_string_roundtrip: "t < NB_END \<Longrightarrow> type_string_to_type (type_to_type_string t) = t"
  by (cases t) (simp_all add: less_nb_type_def less_eq_nb_type_def type_to_type_string_def
      type_string_to_type_def type_string_map_def nb_type_of_def)

lemma type_string_to_type_unknown:
  "s \<notin> set type_string_map \<Longrightarrow> type_string_to_type s = NB_END"
  by (simp add: type_string_to_type_def type_string_map_def nb_type_of_def)

lemma hex06_val: "base_val 16 (hex06 n) = nat (n mod 2 ^ 32)"
  by (simp add: hex06_def Let_def base_val_nat_base)

lemma hex06_inject: "hex06 m = hex06 n \<longleftrightarrow> m mod 2 ^ 32 = n mod 2 ^ 32"
proof
  assume "hex06 m = hex06 n"
  then have "nat (m mod 2 ^ 32) = nat (n mod 2 ^ 32)" by (metis hex06_val)
  then show "m mod 2 ^ 32 = n mod 2 ^ 32" by (simp add: nat_eq_iff)
qed (simp add: hex06_def)

lemma int32_mod_inject: "int32_range m \<Longrightarrow> int32_range n \<Longrightarrow> m mod 2 ^ 32 = n mod 2 ^ 32 \<Longrightarrow> m = n"
  using dvd_imp_le_int [of "m - n" "2 ^ 32"] by (cases "m = n") (auto simp: int32_range_def mod_eq_dvd_iff)

lemma nat_base_length:
  "2 \<le> b \<Longrightarrow> n < b ^ Suc k \<Longrightarrow> length (nat_base b n) \<le> Suc k"
proof (induction k arbitrary: n)
  case 0
  then show ?case by (simp add: nat_base.simps [of b n])
next
  case (Suc k)
  show ?case
  proof (cases "n < b")
    case True
    then show ?thesis by (simp add: nat_base.simps [of b n])
  next
    case False
    have "n div b < b ^ Suc k"
      using Suc.prems by (simp add: less_mult_imp_div_less mult.commute)
    then have "length (nat_base b (n div b)) \<le> Suc k" using Suc by simp
    then show ?thesis using False Suc.prems by (simp add: nat_base.simps [of b n])
  qed
qed

lemma hex06_length: "length (hex06 n) \<le> 8"
proof -
  have "nat (n mod 2 ^ 32) < 16 ^ Suc 7" by (simp add: nat_less_iff)
  then have "length (nat_base 16 (nat (n mod 2 ^ 32))) \<le> Suc 7"
    by (intro nat_base_length) simp_all
  then show ?thesis by (simp add: hex06_def Let_def)
qed

lemma hex06_no_underscore: "CHR ''_'' \<notin> set (hex06 n)"
proof -
  have "list_all lowhex (nat_base 16 (nat (n mod 2 ^ 32)))" by (rule nat_base_chars) simp_all
  then show ?thesis by (auto simp: hex06_def Let_def list_all_iff)
qed

lemma get_name_prefix_length: "length (get_name_prefix t l) \<le> 17"
  by (simp add: get_name_prefix_def)

lemma build_name_fits:
  assumes "length mcc + length mnc \<le> 96"
  shows "build_name t mcc mnc n l = Inr (name_text t mcc mnc n l)"
proof -
  have "length (mnc_padded mnc) \<le> length mnc + 2" by (simp add: mnc_padded_def)
  then have "length (name_text t mcc mnc n l) < 128"
    using assms hex06_length [of n] get_name_prefix_length [of t l] by (simp add: name_text_def)
  then show ?thesis by (simp add: build_name_def)
qed

lemma build_name_overflow:
  assumes "128 \<le> length mcc + length mnc"
  shows "build_name t mcc mnc n l = Inl BufferOverflow"
  using assms by (simp add: build_name_def name_text_def mnc_padded_def)

text \<open>Without underscores in them, the country code, padded network code and id can be read back.\<close>

lemma mnc_padded_clean: "CHR ''_'' \<notin> set mnc \<Longrightarrow> CHR ''_'' \<notin> set (mnc_padded mnc)"
  by (auto simp: mnc_padded_def)

lemma name_text_inject:
  assumes "CHR ''_'' \<notin> set mcc" "CHR ''_'' \<notin> set mcc'"
    and "CHR ''_'' \<notin> set mnc" "CHR ''_'' \<notin> set mnc'"
    and p: "get_name_prefix t l = get_name_prefix t' l'"
    and n: "int32_range n" "int32_range n'"
  shows "name_text t mcc mnc n l = name_text t' mcc' mnc' n' l' \<longleftrightarrow>
    mcc = mcc' \<and> mnc_padded mnc = mnc_padded mnc' \<and> n = n'"
proof
  assume "name_text t mcc mnc n l = name_text t' mcc' mnc' n' l'"
  with p have "mcc @ CHR ''_'' # (mnc_padded mnc @ CHR ''_'' # hex06 n) =
      mcc' @ CHR ''_'' # (mnc_padded mnc' @ CHR ''_'' # hex06 n')"
    by (simp add: name_text_def)
  then have a: "mcc = mcc'" "mnc_padded mnc @ CHR ''_'' # hex06 n = mnc_padded mnc' @ CHR ''_'' # hex06 n'"
    using split_at_char [OF assms(1,2)] by simp_all
  then have "mnc_padded mnc = mnc_padded mnc' \<and> hex06 n = hex06 n'"
    using split_at_char [OF assms(3,4) [THEN mnc_padded_clean]] by simp
  with a n show "mcc = mcc' \<and> mnc_padded mnc = mnc_padded mnc' \<and> n = n'"
    by (auto simp: hex06_inject dest: int32_mod_inject)
qed (use p in \<open>simp add: name_text_def\<close>)

lemma NodeB_lists:
  "method_list (required NodeB_schema) POST = [''type'', ''id'', ''mcc'', ''mnc'']"
  "method_list (optional NodeB_schema) POST = [''id_len'']"
  "method_list (disallowed NodeB_schema) POST = [''name'', ''status'', ''config'']"
  "propertyEnums NodeB_schema =
     [(''type'', [''gNB'', ''gNB-CU-UP'', ''gNB-DU'', ''en-gNB'', ''eNB'', ''ng-eNB''])]"
  by (simp_all add: NodeB_schema_def method_list_def)

lemma nodeb_post_conforms:
  "conforms NodeB_schema POST d \<longleftrightarrow>
     (\<exists>t. json_member d ''type'' = Some (JString t) \<and>
          cstr t \<in> {''gNB'', ''gNB-CU-UP'', ''gNB-DU'', ''en-gNB'', ''eNB'', ''ng-eNB''}) \<and>
     (\<exists>n. json_member d ''id'' = Some (JInt n) \<and> int32_range n) \<and>
     (\<exists>s. json_member d ''mcc'' = Some (JString s)) \<and>
     (\<exists>s. json_member d ''mnc'' = Some (JString s)) \<and>
     (\<forall>v. json_member d ''id_len'' = Some v \<longrightarrow> is_uint v) \<and>
     \<not> has_member d ''name'' \<and> \<not> has_member d ''status'' \<and> \<not> has_member d ''config''"
proof -
  have "validate_value NodeB_schema ''type'' v \<longleftrightarrow> is_string v"
    "validate_value NodeB_schema ''mcc'' v \<longleftrightarrow> is_string v"
    "validate_value NodeB_schema ''mnc'' v \<longleftrightarrow> is_string v"
    "validate_value NodeB_schema ''id'' v \<longleftrightarrow> is_int v"
    "validate_value NodeB_schema ''id_len'' v \<longleftrightarrow> is_uint v" for v
    by (simp_all add: validate_value_def NodeB_schema_def)
  then show ?thesis
    by (auto simp: conforms_def NodeB_lists is_string_iff is_int_iff)
qed

lemma nodeb_bind_slice_frame [simp]: "nb_name (snd (nodeb_bind_slice nb s p)) = nb_name nb"
  by (simp add: nodeb_bind_slice_def)

lemma nodeb_unbind_slice_frame [simp]: "nb_name (snd (nodeb_unbind_slice nb s)) = nb_name nb"
  by (simp add: nodeb_unbind_slice_def)

lemma nodeb_bind_unbind:
  assumes "sm_wf (nb_slices nb)" "fst (nodeb_bind_slice nb s p)"
  shows "nodeb_unbind_slice (snd (nodeb_bind_slice nb s p)) s = (True, nb)"
proof -
  have "sm_get (nb_slices nb) s = None"
    using assms(2) by (auto simp: nodeb_bind_slice_def sm_has_iff split: if_splits)
  then show ?thesis
    using assms smap.erase_put_fresh [of "nb_slices nb" s p]
    by (auto simp: nodeb_bind_slice_def nodeb_unbind_slice_def split: if_splits)
qed

lemma nodeb_create_cases:
  assumes "nodeb_create d ae mem = Inr (res, ae')"
  obtains (refused) "res = None" "\<not> is_object d" "ae' = ae_add 400 ''request is not an object'' ae"
    | (invalid) "res = None" "validate_json NodeB_schema POST d ae = (False, ae')"
    | (created) t mcc mnc n l nb where "res = Some nb" "ae' = ae" "is_object d"
        "NodeB_new t mcc mnc n l = Inr nb" "t \<noteq> NB_END" "int32_range n"
proof (cases "is_object d")
  case True
  obtain c ae1 where v: "validate_json NodeB_schema POST d ae = (c, ae1)" by fastforce
  show thesis
  proof (cases c)
    case False
    with assms v True show thesis by (intro invalid) (auto simp: nodeb_create_def)
  next
    case c: True
    with v have [simp]: "ae1 = ae" and cf: "conforms NodeB_schema POST d" by (auto simp: validate_json_True)
    from cf obtain t n s1 s2 where m: "json_member d ''type'' = Some (JString t)"
      "cstr t \<in> {''gNB'', ''gNB-CU-UP'', ''gNB-DU'', ''en-gNB'', ''eNB'', ''ng-eNB''}"
      "json_member d ''id'' = Some (JInt n)" "int32_range n"
      "json_member d ''mcc'' = Some (JString s1)" "json_member d ''mnc'' = Some (JString s2)"
      unfolding nodeb_post_conforms by blast
    have "type_string_to_type (cstr t) \<noteq> NB_END"
      using m(2) by (auto simp: type_string_to_type_def type_string_map_def nb_type_of_def)
    moreover have "\<exists>l nb. NodeB_new (type_string_to_type (cstr t)) (cstr s1) (cstr s2) n l = Inr nb
        \<and> res = Some nb \<and> ae' = ae"
      using assms v c True m by (auto simp: nodeb_create_def get_int_def split: if_splits)
    ultimately show thesis using created True m(4) by blast
  qed
qed (use assms in \<open>auto simp: nodeb_create_def intro: refused\<close>)

lemma nodeb_update_id: "nodeb_update d ae nb = Inr (b, ae', nb') \<Longrightarrow> nb' = nb"
  by (auto simp: nodeb_update_def split: if_splits prod.splits bool.splits)

lemma nodeb_update_total: "faultless (nodeb_update d ae nb)"
  by (auto simp: nodeb_update_def split: prod.splits bool.splits)

lemma nodeb_serialize_view: "writes (nodeb_serialize nb) (nodeb_view nb)"
  by (simp add: writes_def nodeb_serialize_def nodeb_view_def calls_of_elems_map plain_elems_map comp_def)

interpretation nodeb_class: resource_class nb_name nodeb_create nodeb_update nodeb_serialize nodeb_view
proof unfold_locales
  fix d ae mem r ae'
  assume a: "nodeb_create d ae mem = Inr (Some r, ae')"
  show "ae' = ae" using a by (cases rule: nodeb_create_cases) auto
  show "is_object d" using a by (cases rule: nodeb_create_cases) auto
next
  fix d mem ae'
  assume "nodeb_create d (Some None) mem = Inr (None, ae')"
  then show "\<exists>e. ae' = Some (Some e) \<and> http_status e = 400 \<and> messages e \<noteq> []"
    by (cases rule: nodeb_create_cases) (auto dest: validate_json_False)
next
  fix d ae r b ae' r'
  assume "nodeb_update d ae r = Inr (b, ae', r')"
  then show "nb_name r' = nb_name r" by (auto dest: nodeb_update_id)
next
  fix d ae r ae' r'
  assume "nodeb_update d ae r = Inr (True, ae', r')"
  then show "ae' = ae"
    by (auto simp: nodeb_update_def validate_json_True split: if_splits prod.splits bool.splits)
next
  fix d ae r ae' r'
  assume "nodeb_update d ae r = Inr (False, ae', r')"
  then show "r' = r" by (rule nodeb_update_id)
next
  fix d r ae' r'
  assume "nodeb_update d (Some None) r = Inr (False, ae', r')"
  then show "\<exists>e. ae' = Some (Some e) \<and> http_status e \<in> {400, 403} \<and> messages e \<noteq> []"
    by (auto simp: nodeb_update_def dest: validate_json_False split: if_splits prod.splits bool.splits)
qed (rule nodeb_serialize_view)

end
