(* ===== verification/E2_Types.thy ===== *)
theory E2_Types
  imports Kpm_Metrics Json_Value
begin

text \<open>
  The messages of the E2 application protocol and of the two service models as the code builds and
  reads them (\<open>lib/e2ap/messages\<close>, \<open>lib/e2sm/messages\<close>), and the environment: what the build
  generates from the ASN.1 modules and what third-party libraries do is a parameter.
\<close>

type_synonym bytes = "8 word list"

section \<open>The NexRAN service model's messages\<close>

datatype control_message_id =
    Id_sliceConfigRequest | Id_sliceDeleteRequest | Id_sliceStatusRequest
  | Id_sliceUeBindRequest | Id_sliceUeUnbindRequest

datatype nx_control_message =
    Msg_sliceConfigRequest "(string \<times> int) list"
  | Msg_sliceDeleteRequest "string list"
  | Msg_sliceStatusRequest "string list"
  | Msg_sliceUeBindRequest string "string list"
  | Msg_sliceUeUnbindRequest string "string list"

datatype nx_event_trigger = PeriodDefinition int | RanEventDefinition

text \<open>A decoded slice status: octet strings with their text, the C-RNTI optional.\<close>

record asn_ue_status =
  au_imsi :: string
  au_connected :: bool
  au_crnti :: "string option"

record asn_slice_status =
  as_sliceName :: string
  as_share :: int
  as_ueList :: "asn_ue_status list"

datatype nx_indication_message = Ind_sliceStatusReport "asn_slice_status list" | Ind_other

datatype nx_control_outcome =
    Outcome1_sliceStatusReport "asn_slice_status list" | Outcome1_other | Outcome_other

section \<open>The KPM service model's indication\<close>

text \<open>
  An ASN.1 \<open>INTEGER\<close> read through \<open>asn_INTEGER2ulong\<close> is \<open>Some\<close> value, or \<open>None\<close> where the
  conversion fails and leaves the variable as it was.
\<close>

record radio_item =
  ri_dl_PRBUsage :: "u64 option"
  ri_ul_PRBUsage :: "u64 option"
  ri_tx_pkts :: u64
  ri_tx_errors :: u64
  ri_tx_brate :: u64
  ri_rx_pkts :: u64
  ri_rx_errors :: u64
  ri_rx_brate :: u64
  ri_dl_cqi :: double_bits
  ri_dl_ri :: double_bits
  ri_dl_pmi :: double_bits
  ri_ul_phr :: double_bits
  ri_ul_sinr :: double_bits
  ri_ul_mcs :: double_bits
  ri_ul_samples :: u64

record bytes_item =
  bi_bytesDL :: "u64 option"
  bi_bytesUL :: "u64 option"

text \<open>The per-UE lists are keyed by RNTI, the per-slice lists by slice name; either may be absent.\<close>

record 'i pm_reports =
  perUEReportList :: "(int \<times> 'i) list option"
  perSliceReportList :: "(string \<times> 'i) list option"

record cell_item =
  dl_TotalofAvailablePRBs :: "int option"
  ul_TotalofAvailablePRBs :: "int option"
  servedPlmnPerCellList :: "radio_item pm_reports option list"   \<comment> \<open>\<open>du_PM_EPC\<close> of each entry\<close>

datatype pf_container =
    ODU "cell_item list"
  | OCU_CP "int option"
  | OCU_UP "bytes_item pm_reports option list list"   \<comment> \<open>per container item, its PLMN list\<close>
  | PF_other

datatype kpm_message =
    KpmFormat1 "pf_container option list"             \<comment> \<open>\<open>performanceContainer\<close> of each entry\<close>
  | KpmFormat_other

section \<open>E2AP\<close>

datatype criticality = Reject | Ignore | Notify

text \<open>\<open>Cause\<close>: which alternative is present and its value, which all alternatives store alike.\<close>

type_synonym cause = "int \<times> int"

record action_item =
  ai_ricActionID :: int
  ai_ricActionType :: int
  ai_ricActionDefinition :: "bytes option"

datatype ie =
    RICrequestID int int
  | RANfunctionID int
  | RICcallProcessID bytes
  | RICcontrolHeader bytes
  | RICcontrolMessage bytes
  | RICcontrolAckRequest int
  | RICcontrolOutcome bytes
  | RICsubscriptionDetails bytes "action_item list"
  | RICactions_Admitted "int list"
  | RICactions_NotAdmitted "(int \<times> cause) list"
  | RICactionID int
  | RICindicationSN int
  | RICindicationType int
  | RICindicationHeader bytes
  | RICindicationMessage bytes
  | Cause cause
  | CriticalityDiagnostics
  | OtherIE int

datatype procedure =
    E2setup | ErrorIndicationProc | Reset | RICcontrol | RICindication | RICserviceQuery
  | RICserviceUpdate | RICsubscription | RICsubscriptionDelete | OtherProcedure int

datatype pdu =
    InitiatingMessage procedure criticality "(criticality \<times> ie) list"
  | SuccessfulOutcome procedure criticality "(criticality \<times> ie) list"
  | UnsuccessfulOutcome procedure criticality "(criticality \<times> ie) list"
  | OtherPdu

text \<open>Every value the code hands to the APER encoder.\<close>

datatype asn =
    NxControlHeader control_message_id
  | NxControlMessage nx_control_message
  | NxEventTrigger nx_event_trigger
  | KpmEventTrigger "kpm_period list"
  | E2apPdu pdu

section \<open>RMR\<close>

datatype mtype =
    RIC_SUB_REQ | RIC_SUB_RESP | RIC_SUB_FAILURE | RIC_SUB_DEL_REQ | RIC_SUB_DEL_RESP
  | RIC_SUB_DEL_FAILURE | RIC_SERVICE_UPDATE | RIC_SERVICE_UPDATE_ACK | RIC_SERVICE_UPDATE_FAILURE
  | RIC_CONTROL_REQ | RIC_CONTROL_ACK | RIC_CONTROL_FAILURE | RIC_INDICATION | RIC_SERVICE_QUERY
  | OtherMtype int

record rmr_msg =
  rm_mtype :: mtype
  rm_subid :: int
  rm_len :: nat
  rm_payload :: bytes
  rm_meid :: string
  rm_xact :: "string option"

section \<open>The environment\<close>

text \<open>
  Generated codec (\<open>None\<close> for an encoding or decoding failure), the standard library's string hash,
  the RMR library's buffer size and send result (which may depend on the messages handed to it before),
  and the JSON parser.
\<close>

record env =
  aper_encode :: "asn \<Rightarrow> bytes option"
  aper_decode_pdu :: "bytes \<Rightarrow> pdu option"
  aper_decode_nx_ind_header :: "bytes \<Rightarrow> bool"
  aper_decode_nx_ind_message :: "bytes \<Rightarrow> nx_indication_message option"
  aper_decode_nx_outcome :: "bytes \<Rightarrow> nx_control_outcome option"
  aper_decode_kpm_header :: "bytes \<Rightarrow> bool"
  aper_decode_kpm_message :: "bytes \<Rightarrow> kpm_message option"
  string_hash :: "string \<Rightarrow> u64"
  rmr_available :: "nat \<Rightarrow> nat"
  rmr_send :: "rmr_msg list \<Rightarrow> rmr_msg \<Rightarrow> bool"
  json_parse :: "string \<Rightarrow> json"

end
