(* ===== verification/Nexran_Model.thy ===== *)
theory Nexran_Model
  imports E2_Types
begin

text \<open>
  \<open>lib/e2sm/include/e2sm_nexran.h\<close>, \<open>lib/e2sm/src/e2sm_nexran.cc\<close>: the control requests of the NexRAN
  service model, their encoding, and the decoding of slice status reports. The \<open>encoded\<close> flag and
  the buffers of the C++ objects only cache the result of the encoder, which is a function here, so
  the model encodes afresh.
\<close>

section \<open>Control requests\<close>

datatype control =
    SliceConfigRequest "(string \<times> int) list"       \<comment> \<open>name and share of each \<open>SliceConfig\<close>\<close>
  | SliceDeleteRequest "string list"
  | SliceStatusRequest "string list"
  | SliceUeBindRequest string "string list"
  | SliceUeUnbindRequest string "string list"

text \<open>
  The five \<open>encode\<close> methods fill in a header that names the kind of message and a message with the
  texts as C strings, and end with the same lines: the result, the header buffer and the message
  buffer. A failure of the encoder clears the header and leaves the message empty, but the method
  still returns \<open>1\<close>.
\<close>

definition encode_parts :: "env \<Rightarrow> control_message_id \<Rightarrow> nx_control_message \<Rightarrow> bool \<times> bytes \<times> bytes" where
  "encode_parts E h m =
     (case aper_encode E (NxControlHeader h) of
        None \<Rightarrow> (True, [], [])
      | Some hb \<Rightarrow>
          (case aper_encode E (NxControlMessage m) of
             None \<Rightarrow> (True, [], [])
           | Some mb \<Rightarrow> (True, hb, mb)))"

definition SliceConfigRequest_encode :: "env \<Rightarrow> (string \<times> int) list \<Rightarrow> bool \<times> bytes \<times> bytes" where
  "SliceConfigRequest_encode E configs =
     encode_parts E Id_sliceConfigRequest (Msg_sliceConfigRequest (map (\<lambda>(n, s). (cstr n, s)) configs))"

definition SliceDeleteRequest_encode :: "env \<Rightarrow> string list \<Rightarrow> bool \<times> bytes \<times> bytes" where
  "SliceDeleteRequest_encode E names =
     encode_parts E Id_sliceDeleteRequest (Msg_sliceDeleteRequest (map cstr names))"

definition SliceStatusRequest_encode :: "env \<Rightarrow> string list \<Rightarrow> bool \<times> bytes \<times> bytes" where
  "SliceStatusRequest_encode E names =
     encode_parts E Id_sliceStatusRequest (Msg_sliceStatusRequest (map cstr names))"

definition SliceUeBindRequest_encode :: "env \<Rightarrow> string \<Rightarrow> string list \<Rightarrow> bool \<times> bytes \<times> bytes" where
  "SliceUeBindRequest_encode E sname imsis =
     encode_parts E Id_sliceUeBindRequest (Msg_sliceUeBindRequest (cstr sname) (map cstr imsis))"

definition SliceUeUnbindRequest_encode :: "env \<Rightarrow> string \<Rightarrow> string list \<Rightarrow> bool \<times> bytes \<times> bytes" where
  "SliceUeUnbindRequest_encode E sname imsis =
     encode_parts E Id_sliceUeUnbindRequest (Msg_sliceUeUnbindRequest (cstr sname) (map cstr imsis))"

fun control_encode :: "env \<Rightarrow> control \<Rightarrow> bool \<times> bytes \<times> bytes" where
  "control_encode E (SliceConfigRequest cs) = SliceConfigRequest_encode E cs"
| "control_encode E (SliceDeleteRequest ns) = SliceDeleteRequest_encode E ns"
| "control_encode E (SliceStatusRequest ns) = SliceStatusRequest_encode E ns"
| "control_encode E (SliceUeBindRequest s is) = SliceUeBindRequest_encode E s is"
| "control_encode E (SliceUeUnbindRequest s is) = SliceUeUnbindRequest_encode E s is"

definition get_header :: "env \<Rightarrow> control \<Rightarrow> bytes" where
  "get_header E c = fst (snd (control_encode E c))"

definition get_message :: "env \<Rightarrow> control \<Rightarrow> bytes" where
  "get_message E c = snd (snd (control_encode E c))"

text \<open>No control request ever sets a call process id.\<close>

definition get_call_process_id :: "env \<Rightarrow> control \<Rightarrow> bytes" where
  "get_call_process_id E c = []"

section \<open>Event trigger\<close>

datatype nx_trigger = NxTrigger int bool     \<comment> \<open>\<open>period\<close>, \<open>on_events\<close>\<close>

fun nx_trigger_encode :: "env \<Rightarrow> nx_trigger \<Rightarrow> bool \<times> bytes" where
  "nx_trigger_encode E (NxTrigger period on_events) =
     (case aper_encode E (NxEventTrigger (if on_events then RanEventDefinition else PeriodDefinition period)) of
        None \<Rightarrow> (False, [])
      | Some b \<Rightarrow> (True, b))"

section \<open>Slice status reports\<close>

record ue_status =
  us_imsi :: string
  us_connected :: bool
  us_crnti :: string

record slice_status =
  ss_name :: string
  ss_share :: int
  ss_ue_list :: "ue_status list"

text \<open>
  \<open>std::string((char *)buf,0,size)\<close> builds a string from the C string and takes its first \<open>size\<close>
  characters.
\<close>

definition octets_text :: "string \<Rightarrow> string" where
  "octets_text b = (if b \<noteq> [] then take (length b) (cstr b) else [])"

definition decode_slice_status_report :: "asn_slice_status list \<Rightarrow> slice_status list" where
  "decode_slice_status_report sts =
     map (\<lambda>st. \<lparr>ss_name = octets_text (as_sliceName st), ss_share = as_share st,
                ss_ue_list =
                  map (\<lambda>u. \<lparr>us_imsi = octets_text (au_imsi u), us_connected = au_connected u,
                            us_crnti = (case au_crnti u of None \<Rightarrow> [] | Some c \<Rightarrow> octets_text c)\<rparr>)
                    (as_ueList st)\<rparr>) sts"

definition nexran_decode_indication :: "env \<Rightarrow> bytes \<Rightarrow> bytes \<Rightarrow> slice_status list option" where
  "nexran_decode_indication E header message =
     (if header \<noteq> [] \<and> \<not> aper_decode_nx_ind_header E header then None
      else if message \<noteq> [] \<and> aper_decode_nx_ind_message E message = None then None
      else if header = [] then None
      else if message = [] then None
      else case aper_decode_nx_ind_message E message of
        Some (Ind_sliceStatusReport sts) \<Rightarrow> Some (decode_slice_status_report sts)
      | _ \<Rightarrow> None)"

text \<open>The outcome decoders for an acknowledgement and for a failure have the same text.\<close>

definition nexran_decode_outcome :: "env \<Rightarrow> bytes \<Rightarrow> slice_status list option" where
  "nexran_decode_outcome E outcome =
     (if outcome = [] then None
      else case aper_decode_nx_outcome E outcome of
        None \<Rightarrow> None
      | Some Outcome_other \<Rightarrow> None
      | Some Outcome1_other \<Rightarrow> None
      | Some (Outcome1_sliceStatusReport sts) \<Rightarrow> Some (decode_slice_status_report sts))"

definition nexran_decode_failure_outcome :: "env \<Rightarrow> bytes \<Rightarrow> slice_status list option" where
  "nexran_decode_failure_outcome E outcome =
     (if outcome = [] then None
      else case aper_decode_nx_outcome E outcome of
        None \<Rightarrow> None
      | Some Outcome_other \<Rightarrow> None
      | Some Outcome1_other \<Rightarrow> None
      | Some (Outcome1_sliceStatusReport sts) \<Rightarrow> Some (decode_slice_status_report sts))"

section \<open>Properties\<close>

text \<open>The header and the message of a request, which \<open>encode\<close> hands to the encoder.\<close>

fun control_header :: "control \<Rightarrow> control_message_id" where
  "control_header (SliceConfigRequest _) = Id_sliceConfigRequest"
| "control_header (SliceDeleteRequest _) = Id_sliceDeleteRequest"
| "control_header (SliceStatusRequest _) = Id_sliceStatusRequest"
| "control_header (SliceUeBindRequest _ _) = Id_sliceUeBindRequest"
| "control_header (SliceUeUnbindRequest _ _) = Id_sliceUeUnbindRequest"

fun control_message :: "control \<Rightarrow> nx_control_message" where
  "control_message (SliceConfigRequest cs) =
     Msg_sliceConfigRequest (map (\<lambda>(n, s). (cstr n, s)) cs)"
| "control_message (SliceDeleteRequest ns) = Msg_sliceDeleteRequest (map cstr ns)"
| "control_message (SliceStatusRequest ns) = Msg_sliceStatusRequest (map cstr ns)"
| "control_message (SliceUeBindRequest s is) = Msg_sliceUeBindRequest (cstr s) (map cstr is)"
| "control_message (SliceUeUnbindRequest s is) = Msg_sliceUeUnbindRequest (cstr s) (map cstr is)"

lemmas control_encode_defs = SliceConfigRequest_encode_def SliceDeleteRequest_encode_def
  SliceStatusRequest_encode_def SliceUeBindRequest_encode_def SliceUeUnbindRequest_encode_def

lemma control_encode_parts: "control_encode E c = encode_parts E (control_header c) (control_message c)"
  by (cases c) (simp_all add: control_encode_defs)

text \<open>The header announces the message that follows it.\<close>

fun announces :: "control_message_id \<Rightarrow> nx_control_message \<Rightarrow> bool" where
  "announces Id_sliceConfigRequest (Msg_sliceConfigRequest _) = True"
| "announces Id_sliceDeleteRequest (Msg_sliceDeleteRequest _) = True"
| "announces Id_sliceStatusRequest (Msg_sliceStatusRequest _) = True"
| "announces Id_sliceUeBindRequest (Msg_sliceUeBindRequest _ _) = True"
| "announces Id_sliceUeUnbindRequest (Msg_sliceUeUnbindRequest _ _) = True"
| "announces _ _ = False"

lemma control_announced: "announces (control_header c) (control_message c)"
  by (cases c) simp_all

fun control_texts :: "control \<Rightarrow> string list" where
  "control_texts (SliceConfigRequest cs) = map fst cs"
| "control_texts (SliceDeleteRequest ns) = ns"
| "control_texts (SliceStatusRequest ns) = ns"
| "control_texts (SliceUeBindRequest s is) = s # is"
| "control_texts (SliceUeUnbindRequest s is) = s # is"

lemma map_cstr_inject:
  "list_all no_nul xs \<Longrightarrow> list_all no_nul ys \<Longrightarrow> map cstr xs = map cstr ys \<Longrightarrow> xs = ys"
proof (induction xs arbitrary: ys)
  case (Cons x xs)
  show ?case
  proof (cases ys)
    case (Cons y zs)
    have "xs = zs" by (rule Cons.IH) (use Cons.prems \<open>ys = y # zs\<close> in simp_all)
    then show ?thesis using Cons.prems \<open>ys = y # zs\<close> by simp
  qed (use Cons.prems in simp)
qed simp

lemma map_cstr_config_inject:
  "list_all no_nul (map fst cs) \<Longrightarrow> list_all no_nul (map fst ds) \<Longrightarrow>
     map (\<lambda>(n, s). (cstr n, s)) cs = map (\<lambda>(n, s). (cstr n, s)) ds \<Longrightarrow> cs = ds"
proof (induction cs arbitrary: ds)
  case (Cons x cs)
  show ?case
  proof (cases ds)
    case (Cons y es)
    have "cs = es" by (rule Cons.IH) (use Cons.prems \<open>ds = y # es\<close> in simp_all)
    then show ?thesis using Cons.prems \<open>ds = y # es\<close> by (cases x; cases y) simp
  qed (use Cons.prems in simp)
qed simp

lemma control_message_inject:
  assumes "list_all no_nul (control_texts c)" "list_all no_nul (control_texts d)"
    and "control_message c = control_message d"
  shows "c = d"
  using assms by (cases c; cases d) (simp_all add: map_cstr_inject map_cstr_config_inject)

lemma control_encode_returns_true: "fst (control_encode E c)"
  by (auto simp: control_encode_parts encode_parts_def split: option.splits)

lemma control_encode_failed:
  "aper_encode E (NxControlHeader (control_header c)) = None \<or>
   aper_encode E (NxControlMessage (control_message c)) = None \<Longrightarrow>
     get_header E c = [] \<and> get_message E c = []"
  by (auto simp: control_encode_parts encode_parts_def get_header_def get_message_def split: option.splits)

lemma control_encode_ok:
  "aper_encode E (NxControlHeader (control_header c)) = Some h \<Longrightarrow>
   aper_encode E (NxControlMessage (control_message c)) = Some m \<Longrightarrow>
     get_header E c = h \<and> get_message E c = m"
  by (simp add: control_encode_parts encode_parts_def get_header_def get_message_def)

lemma octets_text_cstr: "octets_text b = cstr b"
proof -
  have "length (cstr b) \<le> length b" by (simp add: cstr_def length_takeWhile_le)
  then show ?thesis by (auto simp: octets_text_def cstr_def)
qed

lemma nexran_decode_indication_Some:
  "nexran_decode_indication E h m = Some sts \<Longrightarrow> h \<noteq> [] \<and> m \<noteq> []"
  by (auto simp: nexran_decode_indication_def split: if_splits)

end
