(* ===== verification/Kpm_Model.thy ===== *)
theory Kpm_Model
  imports Nexran_Model
begin

text \<open>
  \<open>lib/e2sm/include/e2sm_kpm.h\<close>, \<open>lib/e2sm/src/e2sm_kpm.cc\<close>: the decoding of KPM indications into
  reports, the KPM event trigger, and the interface every service model offers to the E2AP library.
\<close>

section \<open>Event triggers\<close>

text \<open>The subclasses of \<open>e2sm::EventTrigger\<close>; \<open>get_buf\<close> encodes on first use.\<close>

datatype event_trigger = Trigger_kpm kpm_period | Trigger_nexran nx_trigger

definition kpm_trigger_default :: event_trigger where
  "kpm_trigger_default = Trigger_kpm MS5120"

definition kpm_trigger_encode :: "env \<Rightarrow> kpm_period \<Rightarrow> bool \<times> bytes" where
  "kpm_trigger_encode E period =
     (case aper_encode E (KpmEventTrigger [period]) of None \<Rightarrow> (False, []) | Some b \<Rightarrow> (True, b))"

fun trigger_buf :: "env \<Rightarrow> event_trigger \<Rightarrow> bytes" where
  "trigger_buf E (Trigger_kpm period) = snd (kpm_trigger_encode E period)"
| "trigger_buf E (Trigger_nexran t) = snd (nx_trigger_encode E t)"

section \<open>Decoding a report\<close>

text \<open>The conversion of a \<open>long\<close> to \<open>int\<close>.\<close>

definition cast_int :: "int \<Rightarrow> int" where
  "cast_int n = sint (word_of_int n :: 32 word)"

definition asn_ulong :: "u64 option \<Rightarrow> u64" where
  "asn_ulong v = (case v of None \<Rightarrow> 0 | Some n \<Rightarrow> n)"

text \<open>A radio report of a DU: a new entry has no bytes, an existing one keeps its bytes.\<close>

definition radio_entry :: "int \<Rightarrow> radio_item \<Rightarrow> entity_metrics option \<Rightarrow> entity_metrics" where
  "radio_entry now i old =
     (let e = (case old of
                 None \<Rightarrow> metrics_init now 0 0 (asn_ulong (ri_dl_PRBUsage i)) (asn_ulong (ri_ul_PRBUsage i))
               | Some m \<Rightarrow> m\<lparr>dl_prbs := asn_ulong (ri_dl_PRBUsage i),
                              ul_prbs := asn_ulong (ri_ul_PRBUsage i)\<rparr>)
      in e\<lparr>tx_pkts := ri_tx_pkts i, tx_errors := ri_tx_errors i, tx_brate := ri_tx_brate i,
           rx_pkts := ri_rx_pkts i, rx_errors := ri_rx_errors i, rx_brate := ri_rx_brate i,
           dl_cqi := ri_dl_cqi i, dl_ri := ri_dl_ri i, dl_pmi := ri_dl_pmi i,
           ul_phr := ri_ul_phr i, ul_sinr := ri_ul_sinr i, ul_mcs := ri_ul_mcs i,
           ul_samples := ri_ul_samples i\<rparr>)"

text \<open>A byte report of a CU-UP: the same with the roles of bytes and PRBs exchanged.\<close>

definition bytes_entry :: "int \<Rightarrow> bytes_item \<Rightarrow> entity_metrics option \<Rightarrow> entity_metrics" where
  "bytes_entry now i old =
     (case old of
        None \<Rightarrow> metrics_init now (asn_ulong (bi_bytesDL i)) (asn_ulong (bi_bytesUL i)) 0 0
      | Some m \<Rightarrow> m\<lparr>dl_bytes := asn_ulong (bi_bytesDL i), ul_bytes := asn_ulong (bi_bytesUL i)\<rparr>)"

text \<open>The two inner loops: entries with \<open>rnti < 1\<close> or an empty slice name are skipped.\<close>

definition note_ues ::
    "('i \<Rightarrow> entity_metrics option \<Rightarrow> entity_metrics) \<Rightarrow> (int \<times> 'i) list option \<Rightarrow> kpm_report \<Rightarrow> kpm_report" where
  "note_ues entry l r =
     (case l of None \<Rightarrow> r
      | Some items \<Rightarrow>
          foldl (\<lambda>r (rnti, i). if rnti < 1 then r
                   else r\<lparr>r_ues := sm_put (r_ues r) rnti (entry i (sm_get (r_ues r) rnti))\<rparr>) r items)"

definition note_slices ::
    "('i \<Rightarrow> entity_metrics option \<Rightarrow> entity_metrics) \<Rightarrow> (string \<times> 'i) list option \<Rightarrow> kpm_report \<Rightarrow> kpm_report" where
  "note_slices entry l r =
     (case l of None \<Rightarrow> r
      | Some items \<Rightarrow>
          foldl (\<lambda>r (name, i). if name = [] then r
                   else r\<lparr>r_slices := sm_put (r_slices r) name (entry i (sm_get (r_slices r) name))\<rparr>) r items)"

definition note_plmn ::
    "('i \<Rightarrow> entity_metrics option \<Rightarrow> entity_metrics) \<Rightarrow> kpm_report \<Rightarrow> 'i pm_reports option \<Rightarrow> kpm_report" where
  "note_plmn entry r plmn =
     (case plmn of None \<Rightarrow> r
      | Some p \<Rightarrow> note_slices entry (perSliceReportList p) (note_ues entry (perUEReportList p) r))"

definition note_cell :: "int \<Rightarrow> kpm_report \<Rightarrow> cell_item \<Rightarrow> kpm_report" where
  "note_cell now r c =
     (let r1 = (case dl_TotalofAvailablePRBs c of None \<Rightarrow> r | Some n \<Rightarrow> r\<lparr>available_dl_prbs := cast_int n\<rparr>);
          r2 = (case ul_TotalofAvailablePRBs c of None \<Rightarrow> r1 | Some n \<Rightarrow> r1\<lparr>available_ul_prbs := cast_int n\<rparr>)
      in foldl (note_plmn (radio_entry now)) r2 (servedPlmnPerCellList c))"

text \<open>A DU container with any number of cells but one is ignored.\<close>

fun note_container :: "int \<Rightarrow> kpm_report \<Rightarrow> pf_container option \<Rightarrow> kpm_report" where
  "note_container now r None = r"
| "note_container now r (Some (ODU cells)) = (case cells of [c] \<Rightarrow> note_cell now r c | _ \<Rightarrow> r)"
| "note_container now r (Some (OCU_CP n)) = (case n of None \<Rightarrow> r | Some k \<Rightarrow> r\<lparr>active_ues := k\<rparr>)"
| "note_container now r (Some (OCU_UP items)) =
     foldl (\<lambda>r plmns. foldl (note_plmn (bytes_entry now)) r plmns) r items"
| "note_container now r (Some PF_other) = r"

fun decode_kpm_indication :: "int \<Rightarrow> kpm_message \<Rightarrow> kpm_report option" where
  "decode_kpm_indication now KpmFormat_other = None"
| "decode_kpm_indication now (KpmFormat1 containers) = Some (foldl (note_container now) KpmReport containers)"

text \<open>
  \<open>KpmModel::decode\<close>. \<open>None\<close> is the null pointer; otherwise the report of the \<open>KpmIndication\<close>, which
  may itself be null. Under a subscription with a KPM trigger the period is stored into the report
  without a test.
\<close>

definition kpm_decode_indication ::
    "env \<Rightarrow> int \<Rightarrow> event_trigger option \<Rightarrow> bytes \<Rightarrow> bytes \<Rightarrow> kpm_report option option outcome" where
  "kpm_decode_indication E now trigger header message =
     (if header \<noteq> [] \<and> \<not> aper_decode_kpm_header E header then Inr None
      else if message \<noteq> [] \<and> aper_decode_kpm_message E message = None then Inr None
      else if header = [] then Inr None
      else if message = [] then Inr None
      else
        let report = (case aper_decode_kpm_message E message of None \<Rightarrow> None
                      | Some m \<Rightarrow> decode_kpm_indication now m)
        in (case trigger of
              Some (Trigger_kpm period) \<Rightarrow>
                (case report of None \<Rightarrow> Inl NullDeref
                 | Some r \<Rightarrow> Inr (Some (Some (r\<lparr>period_ms := kpm_period_to_ms period\<rparr>))))
            | _ \<Rightarrow> Inr (Some report)))"

text \<open>Neither control outcome decoder of the KPM model produces anything.\<close>

definition kpm_decode_outcome :: "bytes \<Rightarrow> unit option" where
  "kpm_decode_outcome outcome = None"

section \<open>What a report contains\<close>

text \<open>
  The abstract view of the loops: the sequence of per-slice notes a message carries, in order. A
  report is the fold of those notes, whatever their nesting.
\<close>

datatype slice_note = Radio string radio_item | Bytes string bytes_item

fun note_name :: "slice_note \<Rightarrow> string" where
  "note_name (Radio s _) = s" | "note_name (Bytes s _) = s"

fun note_entry :: "int \<Rightarrow> slice_note \<Rightarrow> entity_metrics option \<Rightarrow> entity_metrics" where
  "note_entry now (Radio _ i) = radio_entry now i" | "note_entry now (Bytes _ i) = bytes_entry now i"

definition plmn_notes :: "(string \<times> 'i \<Rightarrow> slice_note) \<Rightarrow> 'i pm_reports option \<Rightarrow> slice_note list" where
  "plmn_notes mk plmn =
     (case plmn of None \<Rightarrow> []
      | Some p \<Rightarrow> (case perSliceReportList p of None \<Rightarrow> [] | Some l \<Rightarrow> map mk (filter (\<lambda>(n, _). n \<noteq> []) l)))"

fun container_notes :: "pf_container option \<Rightarrow> slice_note list" where
  "container_notes (Some (ODU [c])) =
     concat (map (plmn_notes (\<lambda>(n, i). Radio n i)) (servedPlmnPerCellList c))"
| "container_notes (Some (OCU_UP items)) = concat (map (plmn_notes (\<lambda>(n, i). Bytes n i)) (concat items))"
| "container_notes _ = []"

definition apply_note :: "int \<Rightarrow> (string, entity_metrics) smap \<Rightarrow> slice_note \<Rightarrow> (string, entity_metrics) smap" where
  "apply_note now m n = sm_put m (note_name n) (note_entry now n (sm_get m (note_name n)))"

lemma note_ues_slices [simp]: "r_slices (note_ues entry l r) = r_slices r"
proof (cases l)
  case (Some items)
  have "r_slices (foldl (\<lambda>r (rnti, i). if rnti < 1 then r
          else r\<lparr>r_ues := sm_put (r_ues r) rnti (entry i (sm_get (r_ues r) rnti))\<rparr>) r items) = r_slices r"
    by (induction items arbitrary: r) (auto split: prod.splits)
  then show ?thesis using Some by (simp add: note_ues_def)
qed (simp add: note_ues_def)

lemma note_plmn_notes:
  assumes "\<And>n i. note_name (mk (n, i)) = n" "\<And>n i. note_entry now (mk (n, i)) = entry i"
  shows "r_slices (note_plmn entry r plmn) = foldl (apply_note now) (r_slices r) (plmn_notes mk plmn)"
proof -
  have fold: "r_slices (foldl (\<lambda>r (name, i). if name = [] then r
           else r\<lparr>r_slices := sm_put (r_slices r) name (entry i (sm_get (r_slices r) name))\<rparr>) r items)
         = foldl (apply_note now) (r_slices r) (map mk (filter (\<lambda>(n, _). n \<noteq> []) items))" for items r
    by (induction items arbitrary: r) (auto simp: apply_note_def assms split: prod.splits)
  show ?thesis
    by (cases plmn) (auto simp: note_plmn_def plmn_notes_def note_slices_def fold split: option.splits)
qed

lemma note_plmns_notes:
  assumes "\<And>n i. note_name (mk (n, i)) = n" "\<And>n i. note_entry now (mk (n, i)) = entry i"
  shows "r_slices (foldl (note_plmn entry) r plmns) =
    foldl (apply_note now) (r_slices r) (concat (map (plmn_notes mk) plmns))"
  by (induction plmns arbitrary: r) (simp_all add: note_plmn_notes [of mk, OF assms])

lemma foldl_foldl_concat: "foldl (\<lambda>a xs. foldl f a xs) a xss = foldl f a (concat xss)"
  by (induction xss arbitrary: a) simp_all

lemma note_container_notes:
  "r_slices (note_container now r c) = foldl (apply_note now) (r_slices r) (container_notes c)"
proof (cases c rule: container_notes.cases)
  case (1 c')
  have "r_slices (note_cell now r c') =
      foldl (apply_note now) (r_slices r) (concat (map (plmn_notes (\<lambda>(n, i). Radio n i)) (servedPlmnPerCellList c')))"
    by (simp add: note_cell_def Let_def note_plmns_notes [of "\<lambda>(n, i). Radio n i"] split: option.splits)
  then show ?thesis using 1 by simp
next
  case (2 items)
  then show ?thesis
    by (simp add: foldl_foldl_concat note_plmns_notes [of "\<lambda>(n, i). Bytes n i"])
qed (auto split: option.splits)

lemma decode_notes:
  "decode_kpm_indication now (KpmFormat1 cs) = Some r \<Longrightarrow>
     r_slices r = foldl (apply_note now) [] (concat (map container_notes cs))"
proof -
  have "r_slices (foldl (note_container now) r cs) =
      foldl (apply_note now) (r_slices r) (concat (map container_notes cs))" for r
    by (induction cs arbitrary: r) (simp_all add: note_container_notes)
  then show "decode_kpm_indication now (KpmFormat1 cs) = Some r \<Longrightarrow> ?thesis"
    by (auto simp: KpmReport_def)
qed

text \<open>What the notes of one slice amount to: the last radio note and the last byte note.\<close>

fun radio_of :: "string \<Rightarrow> slice_note \<Rightarrow> radio_item option" where
  "radio_of s (Radio n i) = (if n = s then Some i else None)" | "radio_of s (Bytes _ _) = None"

fun bytes_of :: "string \<Rightarrow> slice_note \<Rightarrow> bytes_item option" where
  "bytes_of s (Bytes n i) = (if n = s then Some i else None)" | "bytes_of s (Radio _ _) = None"

definition merged_entry :: "int \<Rightarrow> radio_item option \<Rightarrow> bytes_item option \<Rightarrow> entity_metrics" where
  "merged_entry now ri bi =
     (let e = (case bi of None \<Rightarrow> metrics_init now 0 0 0 0
               | Some b \<Rightarrow> metrics_init now (asn_ulong (bi_bytesDL b)) (asn_ulong (bi_bytesUL b)) 0 0)
      in case ri of None \<Rightarrow> e | Some i \<Rightarrow> radio_entry now i (Some e))"

lemma radio_entry_merged:
  "radio_entry now i (Some (merged_entry now r b)) = merged_entry now (Some i) b"
  "radio_entry now i None = merged_entry now (Some i) None"
  by (auto simp: Let_def radio_entry_def merged_entry_def metrics_init_def split: option.splits)

lemma bytes_entry_merged:
  "bytes_entry now i (Some (merged_entry now r b)) = merged_entry now r (Some i)"
  "bytes_entry now i None = merged_entry now None (Some i)"
  by (auto simp: Let_def radio_entry_def bytes_entry_def merged_entry_def metrics_init_def split: option.splits)

lemma map_filter_snoc:
  "List.map_filter f (xs @ [x]) = List.map_filter f xs @ (case f x of None \<Rightarrow> [] | Some y \<Rightarrow> [y])"
  by (simp add: List.map_filter_def split: option.splits)

lemma notes_merged:
  "sm_get (foldl (apply_note now) [] ns) s =
     (if \<exists>n \<in> set ns. note_name n = s
      then Some (merged_entry now (last_opt (List.map_filter (radio_of s) ns))
                                  (last_opt (List.map_filter (bytes_of s) ns)))
      else None)"
proof (induction ns rule: rev_induct)
  case (snoc n ns)
  have none: "List.map_filter (radio_of s) ns = [] \<and> List.map_filter (bytes_of s) ns = []"
    if "\<not> (\<exists>n \<in> set ns. note_name n = s)"
    using that
  proof (induction ns)
    case (Cons m ms) then show ?case by (cases m) (auto simp: List.map_filter_def)
  qed (simp add: List.map_filter_def)
  show ?case
    using snoc none
    by (cases n) (auto simp: apply_note_def map_filter_snoc radio_entry_merged bytes_entry_merged)
qed simp

text \<open>The keys of a report: connected UEs only and named slices only, each entry stamped \<open>now\<close>.\<close>

definition report_ok :: "int \<Rightarrow> kpm_report \<Rightarrow> bool" where
  "report_ok now r \<longleftrightarrow> sm_wf (r_ues r) \<and> sm_wf (r_slices r) \<and>
     (\<forall>k m. sm_get (r_ues r) k = Some m \<longrightarrow> 1 \<le> k \<and> m_time m = now) \<and>
     (\<forall>k m. sm_get (r_slices r) k = Some m \<longrightarrow> k \<noteq> [] \<and> m_time m = now)"

definition entry_ok :: "int \<Rightarrow> ('i \<Rightarrow> entity_metrics option \<Rightarrow> entity_metrics) \<Rightarrow> bool" where
  "entry_ok now entry \<longleftrightarrow> (\<forall>i. m_time (entry i None) = now \<and> (\<forall>m. m_time (entry i (Some m)) = m_time m))"

lemma entry_ok_simps [simp]: "entry_ok now (radio_entry now)" "entry_ok now (bytes_entry now)"
  by (simp_all add: entry_ok_def radio_entry_def bytes_entry_def metrics_init_def Let_def)

lemma entry_ok_time:
  "entry_ok now entry \<Longrightarrow> (\<And>m. old = Some m \<Longrightarrow> m_time m = now) \<Longrightarrow> m_time (entry i old) = now"
  by (cases old) (auto simp: entry_ok_def)

lemma report_ok_frame [simp]:
  "report_ok now (r\<lparr>available_dl_prbs := n\<rparr>) = report_ok now r"
  "report_ok now (r\<lparr>available_ul_prbs := n\<rparr>) = report_ok now r"
  "report_ok now (r\<lparr>active_ues := n\<rparr>) = report_ok now r"
  "report_ok now (r\<lparr>period_ms := n\<rparr>) = report_ok now r"
  by (simp_all add: report_ok_def)

lemma report_ok_ue:
  "report_ok now r \<Longrightarrow> entry_ok now entry \<Longrightarrow> 1 \<le> k \<Longrightarrow>
     report_ok now (r\<lparr>r_ues := sm_put (r_ues r) k (entry i (sm_get (r_ues r) k))\<rparr>)"
  by (auto simp: report_ok_def intro: entry_ok_time)

lemma report_ok_slice:
  "report_ok now r \<Longrightarrow> entry_ok now entry \<Longrightarrow> k \<noteq> [] \<Longrightarrow>
     report_ok now (r\<lparr>r_slices := sm_put (r_slices r) k (entry i (sm_get (r_slices r) k))\<rparr>)"
  by (auto simp: report_ok_def intro: entry_ok_time)

lemma report_ok_plmn: "report_ok now r \<Longrightarrow> entry_ok now entry \<Longrightarrow> report_ok now (note_plmn entry r plmn)"
proof -
  assume *: "report_ok now r" "entry_ok now entry"
  have u: "report_ok now (note_ues entry l r)" for l
  proof (cases l)
    case (Some items)
    have "report_ok now r \<Longrightarrow> report_ok now (foldl (\<lambda>r (rnti, i). if rnti < 1 then r
          else r\<lparr>r_ues := sm_put (r_ues r) rnti (entry i (sm_get (r_ues r) rnti))\<rparr>) r items)" for r
      by (induction items arbitrary: r) (auto simp: report_ok_ue [OF _ *(2)] split: prod.splits)
    then show ?thesis using Some * by (simp add: note_ues_def)
  qed (use * in \<open>simp add: note_ues_def\<close>)
  have s: "report_ok now r \<Longrightarrow> report_ok now (note_slices entry l r)" for l r
  proof (cases l)
    case (Some items)
    have "report_ok now r \<Longrightarrow> report_ok now (foldl (\<lambda>r (name, i). if name = [] then r
          else r\<lparr>r_slices := sm_put (r_slices r) name (entry i (sm_get (r_slices r) name))\<rparr>) r items)" for r
      by (induction items arbitrary: r) (auto simp: report_ok_slice [OF _ *(2)] split: prod.splits)
    then show "report_ok now r \<Longrightarrow> ?thesis" using Some by (simp add: note_slices_def)
  qed (simp add: note_slices_def)
  show ?thesis using * u s by (simp add: note_plmn_def split: option.splits)
qed

lemma report_ok_plmns:
  "report_ok now r \<Longrightarrow> entry_ok now entry \<Longrightarrow> report_ok now (foldl (note_plmn entry) r plmns)"
  by (induction plmns arbitrary: r) (simp_all add: report_ok_plmn)

lemma report_ok_container: "report_ok now r \<Longrightarrow> report_ok now (note_container now r c)"
  by (cases "(now, r, c)" rule: note_container.cases)
     (auto simp: note_cell_def Let_def report_ok_plmns foldl_foldl_concat split: option.splits list.splits)

lemma decode_report_ok: "decode_kpm_indication now m = Some r \<Longrightarrow> report_ok now r"
proof (cases m)
  case (KpmFormat1 cs)
  have "report_ok now r \<Longrightarrow> report_ok now (foldl (note_container now) r cs)" for r
    by (induction cs arbitrary: r) (simp_all add: report_ok_container)
  moreover have "report_ok now KpmReport" by (simp add: report_ok_def KpmReport_def)
  ultimately show "decode_kpm_indication now m = Some r \<Longrightarrow> ?thesis" using KpmFormat1 by auto
qed simp

section \<open>The interface of a service model\<close>

text \<open>
  What the E2AP library relies on when it hands the header and message of an indication to the model
  of the subscription: a model that lacks either part produces no indication.
\<close>

locale service_model =
  fixes decode :: "bytes \<Rightarrow> bytes \<Rightarrow> 'i option outcome"
  assumes no_header: "decode [] m = Inr None"
    and no_message: "decode h [] = Inr None"
begin

lemma both_parts: "decode h m = Inr (Some i) \<Longrightarrow> h \<noteq> [] \<and> m \<noteq> []"
  using no_header no_message by (metis Inr_inject option.distinct(1))

lemma fault_needs_both: "decode h m = Inl f \<Longrightarrow> h \<noteq> [] \<and> m \<noteq> []"
  using no_header no_message by (metis Inl_Inr_False)

end

interpretation kpm: service_model "kpm_decode_indication E now trigger" for E now trigger
  by unfold_locales (simp_all add: kpm_decode_indication_def)

interpretation nexran: service_model "\<lambda>h m. Inr (nexran_decode_indication E h m)" for E
  by unfold_locales (simp_all add: nexran_decode_indication_def)

lemma kpm_decode_fault_iff:
  "kpm_decode_indication E now trigger h m = Inl f \<longleftrightarrow>
     f = NullDeref \<and> (\<exists>p. trigger = Some (Trigger_kpm p)) \<and> h \<noteq> [] \<and> m \<noteq> [] \<and>
     aper_decode_kpm_header E h \<and> aper_decode_kpm_message E m = Some KpmFormat_other"
proof -
  have d: "decode_kpm_indication now k = None \<longleftrightarrow> k = KpmFormat_other" for k
    by (cases k) simp_all
  show ?thesis
    by (auto simp: kpm_decode_indication_def d Let_def split: if_splits option.splits event_trigger.splits)
qed

end
