(* ===== verification/E2ap_Core.thy ===== *)
theory E2ap_Core
  imports Kpm_Model
begin

text \<open>
  \<open>lib/e2ap/include/e2ap.h\<close>, \<open>lib/e2ap/src/e2ap.cc\<close>, sending side: the request objects, the PDUs their
  \<open>encode\<close> methods build, the request tables of \<open>class E2AP\<close> and the operations that send requests and
  remember them. The agent that transmits a message is a parameter, as in the code (\<open>AgentInterface\<close>).
\<close>

section \<open>Requests\<close>

datatype control_request_ack = CONTROL_REQUEST_NONE | CONTROL_REQUEST_ACK | CONTROL_REQUEST_NACK

fun ack_code :: "control_request_ack \<Rightarrow> int" where
  "ack_code CONTROL_REQUEST_NONE = 0" | "ack_code CONTROL_REQUEST_ACK = 1"
| "ack_code CONTROL_REQUEST_NACK = 2"

datatype action_type = ACTION_REPORT | ACTION_INSERT | ACTION_POLICY

fun action_code :: "action_type \<Rightarrow> int" where
  "action_code ACTION_REPORT = 0" | "action_code ACTION_INSERT = 1" | "action_code ACTION_POLICY = 2"

text \<open>An action's definition is represented by the buffer its encoder produced.\<close>

record action =
  ac_id :: int
  ac_type :: action_type
  ac_definition :: "bytes option"
  ac_subsequent_action :: int

text \<open>
  A request is shared between the tables and the caller, but nothing changes it after it has been
  sent, so it is a value here; a control request without a control object cannot be encoded, so
  that pointer is never null.
\<close>

record control_request =
  cr_requestor_id :: int
  cr_instance_id :: int
  cr_meid :: string
  cr_function_id :: int
  cr_control :: control
  cr_ack_request :: control_request_ack

record subscription_request =
  sr_requestor_id :: int
  sr_instance_id :: int
  sr_meid :: string
  sr_function_id :: int
  sr_trigger :: "event_trigger option"
  sr_actions :: "action list"

record delete_request =
  dr_requestor_id :: int
  dr_instance_id :: int
  dr_meid :: string
  dr_function_id :: int

definition ControlRequest :: "int \<Rightarrow> int \<Rightarrow> int \<Rightarrow> control \<Rightarrow> control_request_ack \<Rightarrow> control_request" where
  "ControlRequest rid iid fid c ack =
     \<lparr>cr_requestor_id = rid, cr_instance_id = iid, cr_meid = [], cr_function_id = fid,
      cr_control = c, cr_ack_request = ack\<rparr>"

definition SubscriptionRequest ::
    "int \<Rightarrow> int \<Rightarrow> int \<Rightarrow> event_trigger option \<Rightarrow> action list \<Rightarrow> subscription_request" where
  "SubscriptionRequest rid iid fid t as =
     \<lparr>sr_requestor_id = rid, sr_instance_id = iid, sr_meid = [], sr_function_id = fid,
      sr_trigger = t, sr_actions = as\<rparr>"

definition SubscriptionDeleteRequest :: "int \<Rightarrow> int \<Rightarrow> int \<Rightarrow> delete_request" where
  "SubscriptionDeleteRequest rid iid fid =
     \<lparr>dr_requestor_id = rid, dr_instance_id = iid, dr_meid = [], dr_function_id = fid\<rparr>"

section \<open>Encoding\<close>

definition control_request_pdu :: "env \<Rightarrow> control_request \<Rightarrow> pdu" where
  "control_request_pdu E r =
     (let cpid = get_call_process_id E (cr_control r) in
      InitiatingMessage RICcontrol Reject
        ([(Reject, RICrequestID (cr_requestor_id r) (cr_instance_id r)),
          (Reject, RANfunctionID (cr_function_id r))]
         @ (if cpid \<noteq> [] then [(Reject, RICcallProcessID cpid)] else [])
         @ [(Reject, RICcontrolHeader (get_header E (cr_control r))),
            (Reject, RICcontrolMessage (get_message E (cr_control r))),
            (Reject, RICcontrolAckRequest (ack_code (cr_ack_request r)))]))"

definition action_to_be_setup :: "action \<Rightarrow> action_item" where
  "action_to_be_setup a =
     \<lparr>ai_ricActionID = ac_id a, ai_ricActionType = action_code (ac_type a),
      ai_ricActionDefinition =
        (case ac_definition a of Some b \<Rightarrow> if b \<noteq> [] then Some b else None | None \<Rightarrow> None)\<rparr>"

definition subscription_request_pdu :: "env \<Rightarrow> subscription_request \<Rightarrow> pdu" where
  "subscription_request_pdu E r =
     InitiatingMessage RICsubscription Reject
       [(Reject, RICrequestID (sr_requestor_id r) (sr_instance_id r)),
        (Reject, RANfunctionID (sr_function_id r)),
        (Reject, RICsubscriptionDetails
                   (case sr_trigger r of None \<Rightarrow> [] | Some t \<Rightarrow> trigger_buf E t)
                   (map action_to_be_setup (sr_actions r)))]"

definition delete_request_pdu :: "delete_request \<Rightarrow> pdu" where
  "delete_request_pdu r =
     InitiatingMessage RICsubscriptionDelete Reject
       [(Reject, RICrequestID (dr_requestor_id r) (dr_instance_id r)),
        (Reject, RANfunctionID (dr_function_id r))]"

text \<open>\<open>encode_pdu\<close>: \<open>None\<close> is a negative result.\<close>

definition encode_pdu :: "env \<Rightarrow> pdu \<Rightarrow> bytes option" where
  "encode_pdu E p = aper_encode E (E2apPdu p)"

section \<open>Correlation identifiers\<close>

definition req_to_subid :: "env \<Rightarrow> int \<Rightarrow> int \<Rightarrow> int" where
  "req_to_subid E req_id inst_id =
     sint (ucast (xor (string_hash E (to_string req_id)) (string_hash E (to_string inst_id))) :: 32 word)"

definition req_to_xid :: "int \<Rightarrow> int \<Rightarrow> string" where
  "req_to_xid req_id inst_id = to_string req_id @ ''.'' @ to_string inst_id"

lemma req_to_xid_inject: "req_to_xid r i = req_to_xid r' i' \<longleftrightarrow> r = r' \<and> i = i'"
proof
  assume "req_to_xid r i = req_to_xid r' i'"
  then have "to_string r @ CHR ''.'' # to_string i = to_string r' @ CHR ''.'' # to_string i'"
    by (simp add: req_to_xid_def)
  from split_at_char [OF to_string_no_dot to_string_no_dot this] show "r = r' \<and> i = i'"
    by simp
qed simp

section \<open>The request tables\<close>

record subscription_response =
  sp_requestor_id :: int
  sp_instance_id :: int
  sp_function_id :: int
  sp_actions_admitted :: "int list"
  sp_actions_not_admitted :: "(int \<times> int \<times> int) list"
  sp_req :: subscription_request

record e2ap =
  requestor_id :: int
  next_instance_id :: int
  controls :: "(int, control_request) smap"
  pending_subscriptions :: "(string, subscription_request) smap"
  subscriptions :: "(int, subscription_response) smap"
  pending_deletes :: "(string, delete_request) smap"

text \<open>
  The application inherits the tables by extending this record; the operations work on any extension.
  Each is one critical section here: the mutex of the code protects single table accesses, and the
  messages they go with are handled by one thread at a time.
\<close>

definition E2AP :: e2ap where
  "E2AP = \<lparr>requestor_id = 123, next_instance_id = 1, controls = [], pending_subscriptions = [],
           subscriptions = [], pending_deletes = []\<rparr>"

definition get_next_instance_id :: "'a e2ap_scheme \<Rightarrow> int \<times> 'a e2ap_scheme" where
  "get_next_instance_id s = (next_instance_id s, s\<lparr>next_instance_id := next_instance_id s + 1\<rparr>)"

definition lookup_pending_subscription :: "'a e2ap_scheme \<Rightarrow> string \<Rightarrow> subscription_request option" where
  "lookup_pending_subscription s xid = sm_get (pending_subscriptions s) xid"

definition lookup_subscription :: "'a e2ap_scheme \<Rightarrow> int \<Rightarrow> subscription_response option" where
  "lookup_subscription s subid = sm_get (subscriptions s) subid"

definition lookup_pending_subscription_delete :: "'a e2ap_scheme \<Rightarrow> string \<Rightarrow> delete_request option" where
  "lookup_pending_subscription_delete s xid = sm_get (pending_deletes s) xid"

text \<open>The requestor id passed to \<open>lookup_control\<close> is not looked at.\<close>

definition lookup_control :: "'a e2ap_scheme \<Rightarrow> int \<Rightarrow> int \<Rightarrow> control_request option" where
  "lookup_control s rid iid = sm_get (controls s) iid"

section \<open>Sending\<close>

text \<open>\<open>AgentInterface::send_message\<close>: buffer, message type, subscription id, meid and transaction id.\<close>

type_synonym 's agent_send = "'s \<Rightarrow> bytes \<Rightarrow> mtype \<Rightarrow> int \<Rightarrow> string \<Rightarrow> string \<Rightarrow> bool \<times> 's"

definition send_control_request ::
    "env \<Rightarrow> 'a e2ap_scheme agent_send \<Rightarrow> 'a e2ap_scheme \<Rightarrow> control_request \<Rightarrow> string \<Rightarrow> bool \<times> 'a e2ap_scheme" where
  "send_control_request E send s req meid =
     (case encode_pdu E (control_request_pdu E req) of
        None \<Rightarrow> (False, s)
      | Some buf \<Rightarrow>
          if cr_ack_request req = CONTROL_REQUEST_ACK \<and> sm_has (controls s) (cr_instance_id req)
          then (False, s)
          else
            let s1 = (if cr_ack_request req = CONTROL_REQUEST_ACK
                      then s\<lparr>controls := sm_put (controls s) (cr_instance_id req) req\<rparr> else s);
                subid = req_to_subid E (cr_requestor_id req) (cr_instance_id req);
                (ret, s2) = send s1 buf RIC_CONTROL_REQ subid meid []
            in if \<not> ret \<and> cr_ack_request req = CONTROL_REQUEST_ACK
               then (ret, s2\<lparr>controls := sm_erase (controls s2) (cr_instance_id req)\<rparr>)
               else (ret, s2))"

definition send_subscription_request ::
    "env \<Rightarrow> 'a e2ap_scheme agent_send \<Rightarrow> 'a e2ap_scheme \<Rightarrow> subscription_request \<Rightarrow> string \<Rightarrow> bool \<times> 'a e2ap_scheme" where
  "send_subscription_request E send s req meid =
     (case encode_pdu E (subscription_request_pdu E req) of
        None \<Rightarrow> (False, s)
      | Some buf \<Rightarrow>
          let xid = req_to_xid (sr_requestor_id req) (sr_instance_id req) in
          if sm_has (pending_subscriptions s) xid then (False, s)
          else
            let s1 = s\<lparr>pending_subscriptions := sm_put (pending_subscriptions s) xid req\<rparr>;
                (ret, s2) = send s1 buf RIC_SUB_REQ (-1) meid xid
            in if \<not> ret
               then (ret, s2\<lparr>pending_subscriptions := sm_erase (pending_subscriptions s2) xid\<rparr>)
               else (ret, s2))"

definition send_subscription_delete_request ::
    "env \<Rightarrow> 'a e2ap_scheme agent_send \<Rightarrow> 'a e2ap_scheme \<Rightarrow> delete_request \<Rightarrow> string \<Rightarrow> bool \<times> 'a e2ap_scheme" where
  "send_subscription_delete_request E send s req meid =
     (case encode_pdu E (delete_request_pdu req) of
        None \<Rightarrow> (False, s)
      | Some buf \<Rightarrow>
          let xid = req_to_xid (dr_requestor_id req) (dr_instance_id req);
              subid = req_to_subid E (dr_requestor_id req) (dr_instance_id req) in
          if sm_has (pending_deletes s) xid then (False, s)
          else
            let s1 = s\<lparr>pending_deletes := sm_put (pending_deletes s) xid req\<rparr>;
                (ret, s2) = send s1 buf RIC_SUB_DEL_REQ subid meid xid
            in if \<not> ret
               then (ret, s2\<lparr>pending_deletes := sm_erase (pending_deletes s2) xid\<rparr>)
               else (ret, s2))"

definition delete_all_subscriptions ::
    "env \<Rightarrow> 'a e2ap_scheme agent_send \<Rightarrow> 'a e2ap_scheme \<Rightarrow> string \<Rightarrow> bool \<times> 'a e2ap_scheme" where
  "delete_all_subscriptions E send s meid =
     (True,
      foldl (\<lambda>s (subid, sub).
               if sr_meid (sp_req sub) \<noteq> meid then s
               else snd (send_subscription_delete_request E send s
                           ((SubscriptionDeleteRequest (sp_requestor_id sub) (sp_instance_id sub)
                               (sp_function_id sub))\<lparr>dr_meid := meid\<rparr>) meid))
            s (subscriptions s))"

section \<open>The agent contract\<close>

text \<open>All four tables are well-formed maps, and ids are handed out above the ones in use.\<close>

definition tables_wf :: "'a e2ap_scheme \<Rightarrow> bool" where
  "tables_wf s \<longleftrightarrow> sm_wf (controls s) \<and> sm_wf (pending_subscriptions s) \<and>
     sm_wf (subscriptions s) \<and> sm_wf (pending_deletes s) \<and>
     (\<forall>i. sm_has (controls s) i \<longrightarrow> i < next_instance_id s) \<and>
     (\<forall>x. sm_has (pending_subscriptions s) x \<longrightarrow>
        (\<exists>i < next_instance_id s. x = req_to_xid (requestor_id s) i))"

lemma tables_wf_E2AP: "tables_wf E2AP"
  by (simp add: tables_wf_def E2AP_def)

lemma tables_wf_truncate: "tables_wf (e2ap.truncate s) = tables_wf s"
  by (simp add: tables_wf_def e2ap.defs)

text \<open>
  What the E2AP library relies on of the agent that sends its messages: sending leaves the request
  tables and the id counter alone. The agent is called while the tables are being updated.
\<close>

lemma truncate_tables:
  "e2ap.truncate s = e2ap.truncate s' \<longleftrightarrow>
     requestor_id s = requestor_id s' \<and> next_instance_id s = next_instance_id s' \<and>
     controls s = controls s' \<and> pending_subscriptions s = pending_subscriptions s' \<and>
     subscriptions s = subscriptions s' \<and> pending_deletes s = pending_deletes s'"
  by (auto simp: e2ap.defs)

locale agent =
  fixes send :: "'a e2ap_scheme agent_send"
  assumes tables_kept: "e2ap.truncate (snd (send s buf mt subid meid xid)) = e2ap.truncate s"
begin

lemma kept:
  "send s buf mt subid meid xid = (b, s') \<Longrightarrow>
     requestor_id s' = requestor_id s \<and> next_instance_id s' = next_instance_id s \<and>
     controls s' = controls s \<and> pending_subscriptions s' = pending_subscriptions s \<and>
     subscriptions s' = subscriptions s \<and> pending_deletes s' = pending_deletes s"
  using tables_kept [of s buf mt subid meid xid] by (simp add: truncate_tables)

text \<open>A control request is remembered exactly when it was handed over; otherwise nothing changes.\<close>

lemma control_effect:
  assumes wf: "tables_wf s" and c: "send_control_request E send s req meid = (b, s')"
    and ack: "cr_ack_request req = CONTROL_REQUEST_ACK"
  shows "controls s' = (if b then sm_put (controls s) (cr_instance_id req) req else controls s) \<and>
    requestor_id s' = requestor_id s \<and> next_instance_id s' = next_instance_id s \<and>
    pending_subscriptions s' = pending_subscriptions s \<and>
    subscriptions s' = subscriptions s \<and> pending_deletes s' = pending_deletes s"
proof (cases "encode_pdu E (control_request_pdu E req)")
  case None
  with c show ?thesis by (auto simp: send_control_request_def)
next
  case (Some buf)
  show ?thesis
  proof (cases "sm_has (controls s) (cr_instance_id req)")
    case True
    with c Some ack show ?thesis by (auto simp: send_control_request_def)
  next
    case False
    obtain ret s2 where s2: "send (s\<lparr>controls := sm_put (controls s) (cr_instance_id req) req\<rparr>) buf
        RIC_CONTROL_REQ (req_to_subid E (cr_requestor_id req) (cr_instance_id req)) meid [] = (ret, s2)"
      by fastforce
    have "sm_get (controls s) (cr_instance_id req) = None" "sm_wf (controls s)"
      using False wf by (auto simp: sm_has_iff tables_wf_def)
    note fresh = smap.erase_put_fresh [OF this(2,1), of req]
    from c Some ack False s2 have "b = ret" and
      "s' = (if ret then s2 else s2\<lparr>controls := sm_erase (controls s2) (cr_instance_id req)\<rparr>)"
      by (auto simp: send_control_request_def Let_def split: if_splits)
    then show ?thesis using kept [OF s2] fresh by auto
  qed
qed

lemma control_tables_wf:
  assumes "tables_wf s" "cr_ack_request req = CONTROL_REQUEST_ACK"
    and "cr_instance_id req < next_instance_id s"
  shows "tables_wf (snd (send_control_request E send s req meid))"
proof -
  obtain b s' where c: "send_control_request E send s req meid = (b, s')" by fastforce
  show ?thesis
    using control_effect [OF assms(1) c assms(2)] assms c by (auto simp: tables_wf_def)
qed

lemma subscription_effect:
  assumes wf: "tables_wf s" and c: "send_subscription_request E send s req meid = (b, s')"
  shows "pending_subscriptions s' =
      (if b then sm_put (pending_subscriptions s) (req_to_xid (sr_requestor_id req) (sr_instance_id req)) req
       else pending_subscriptions s) \<and>
    requestor_id s' = requestor_id s \<and> next_instance_id s' = next_instance_id s \<and>
    controls s' = controls s \<and> subscriptions s' = subscriptions s \<and> pending_deletes s' = pending_deletes s"
proof (cases "encode_pdu E (subscription_request_pdu E req)")
  case None
  with c show ?thesis by (auto simp: send_subscription_request_def)
next
  case (Some buf)
  define xid where "xid = req_to_xid (sr_requestor_id req) (sr_instance_id req)"
  show ?thesis
  proof (cases "sm_has (pending_subscriptions s) xid")
    case True
    with c Some show ?thesis by (auto simp: send_subscription_request_def xid_def)
  next
    case False
    obtain ret s2 where s2: "send (s\<lparr>pending_subscriptions := sm_put (pending_subscriptions s) xid req\<rparr>)
        buf RIC_SUB_REQ (-1) meid xid = (ret, s2)"
      by fastforce
    have "sm_get (pending_subscriptions s) xid = None" "sm_wf (pending_subscriptions s)"
      using False wf by (auto simp: sm_has_iff tables_wf_def)
    note fresh = smap.erase_put_fresh [OF this(2,1), of req]
    from c Some False s2 have "b = ret" and
      "s' = (if ret then s2 else s2\<lparr>pending_subscriptions := sm_erase (pending_subscriptions s2) xid\<rparr>)"
      by (auto simp: send_subscription_request_def Let_def xid_def split: if_splits)
    then show ?thesis using kept [OF s2] fresh by (auto simp: xid_def)
  qed
qed

lemma subscription_tables_wf:
  assumes "tables_wf s" "sr_requestor_id req = requestor_id s" "sr_instance_id req < next_instance_id s"
  shows "tables_wf (snd (send_subscription_request E send s req meid))"
proof -
  obtain b s' where c: "send_subscription_request E send s req meid = (b, s')" by fastforce
  show ?thesis
    using subscription_effect [OF assms(1) c] assms c by (auto simp: tables_wf_def)
qed

lemma delete_effect:
  assumes wf: "sm_wf (pending_deletes s)" and c: "send_subscription_delete_request E send s req meid = (b, s')"
  shows "pending_deletes s' =
      (if b then sm_put (pending_deletes s) (req_to_xid (dr_requestor_id req) (dr_instance_id req)) req
       else pending_deletes s) \<and>
    requestor_id s' = requestor_id s \<and> next_instance_id s' = next_instance_id s \<and>
    controls s' = controls s \<and> subscriptions s' = subscriptions s \<and>
    pending_subscriptions s' = pending_subscriptions s"
proof (cases "encode_pdu E (delete_request_pdu req)")
  case None
  with c show ?thesis by (auto simp: send_subscription_delete_request_def)
next
  case (Some buf)
  define xid where "xid = req_to_xid (dr_requestor_id req) (dr_instance_id req)"
  show ?thesis
  proof (cases "sm_has (pending_deletes s) xid")
    case True
    with c Some show ?thesis by (auto simp: send_subscription_delete_request_def xid_def)
  next
    case False
    obtain ret s2 where s2: "send (s\<lparr>pending_deletes := sm_put (pending_deletes s) xid req\<rparr>)
        buf RIC_SUB_DEL_REQ (req_to_subid E (dr_requestor_id req) (dr_instance_id req)) meid xid = (ret, s2)"
      by fastforce
    have "sm_get (pending_deletes s) xid = None"
      using False by (auto simp: sm_has_iff)
    note fresh = smap.erase_put_fresh [OF wf this, of req]
    from c Some False s2 have "b = ret" and
      "s' = (if ret then s2 else s2\<lparr>pending_deletes := sm_erase (pending_deletes s2) xid\<rparr>)"
      by (auto simp: send_subscription_delete_request_def Let_def xid_def split: if_splits)
    then show ?thesis using kept [OF s2] fresh by (auto simp: xid_def)
  qed
qed

lemma delete_all_kept:
  assumes "sm_wf (pending_deletes s)"
  shows "let s' = snd (delete_all_subscriptions E send s meid) in
    sm_wf (pending_deletes s') \<and> requestor_id s' = requestor_id s \<and> next_instance_id s' = next_instance_id s \<and>
    controls s' = controls s \<and> subscriptions s' = subscriptions s \<and>
    pending_subscriptions s' = pending_subscriptions s"
proof -
  define step :: "'a e2ap_scheme \<Rightarrow> int \<times> subscription_response \<Rightarrow> 'a e2ap_scheme"
    where "step = (\<lambda>s (subid, sub). if sr_meid (sp_req sub) \<noteq> meid then s
      else snd (send_subscription_delete_request E send s
         ((SubscriptionDeleteRequest (sp_requestor_id sub) (sp_instance_id sub)
             (sp_function_id sub))\<lparr>dr_meid := meid\<rparr>) meid))"
  define ok :: "'a e2ap_scheme \<Rightarrow> bool" where "ok = (\<lambda>s'. sm_wf (pending_deletes s') \<and> requestor_id s' = requestor_id s \<and>
      next_instance_id s' = next_instance_id s \<and> controls s' = controls s \<and>
      subscriptions s' = subscriptions s \<and> pending_subscriptions s' = pending_subscriptions s)"
  have one: "ok t \<Longrightarrow> ok (step t p)" for t p
  proof -
    assume t: "ok t"
    obtain k sub where p: "p = (k, sub)" by fastforce
    define req where "req = (SubscriptionDeleteRequest (sp_requestor_id sub) (sp_instance_id sub)
             (sp_function_id sub))\<lparr>dr_meid := meid\<rparr>"
    obtain b t' where c: "send_subscription_delete_request E send t req meid = (b, t')" by fastforce
    have "sm_wf (pending_deletes t)" using t by (simp add: ok_def)
    from delete_effect [OF this c] t have "ok t'" by (auto simp: ok_def)
    then show "ok (step t p)" using c t by (auto simp: p step_def req_def)
  qed
  have "ok (foldl step t subs)" if "ok t" for t subs
    using that by (induction subs arbitrary: t) (simp_all add: one)
  then have "ok (foldl step s (subscriptions s))" using assms by (simp add: ok_def)
  then show ?thesis by (simp add: delete_all_subscriptions_def step_def ok_def Let_def)
qed

lemma delete_all_tables_wf:
  "tables_wf s \<Longrightarrow> tables_wf (snd (delete_all_subscriptions E send s meid))"
  using delete_all_kept [of s E meid] by (auto simp: tables_wf_def Let_def)

end

text \<open>
  A request with an id fresh from the counter is never taken for a duplicate, so whether it is
  remembered depends on the encoder and the transport alone.
\<close>

lemma fresh_id:
  "tables_wf s \<Longrightarrow> get_next_instance_id s = (i, s') \<Longrightarrow>
     tables_wf s' \<and> i < next_instance_id s' \<and> \<not> sm_has (controls s') i \<and>
     \<not> sm_has (pending_subscriptions s') (req_to_xid (requestor_id s') i)"
  by (fastforce simp: tables_wf_def get_next_instance_id_def req_to_xid_inject)

end
