(* ===== verification/E2ap_Handler.thy ===== *)
theory E2ap_Handler
  imports E2ap_Core
begin

text \<open>
  \<open>lib/e2ap/src/e2ap.cc\<close>, receiving side: the decoding of each E2AP response and indication, its
  correlation with the request tables, and the dispatch in \<open>E2AP::handle_message\<close>. The handlers of the
  application are a parameter, as in the code (\<open>AgentInterface::handle\<close>).
\<close>

section \<open>Decoded messages\<close>

record control_ack =
  ca_requestor_id :: int
  ca_instance_id :: int
  ca_function_id :: int
  ca_status :: int
  ca_outcome :: "slice_status list option"
  ca_req :: "control_request option"

record control_failure =
  cf_requestor_id :: int
  cf_instance_id :: int
  cf_function_id :: int
  cf_cause :: int
  cf_cause_detail :: int
  cf_outcome :: "slice_status list option"
  cf_req :: "control_request option"

datatype sm_indication = KpmIndication "kpm_report option" | SliceStatusIndication "slice_status list"

text \<open>\<open>in_model\<close> is \<open>None\<close> while the pointer is uninitialised: the constructor does not set it.\<close>

record indication =
  in_requestor_id :: int
  in_instance_id :: int
  in_function_id :: int
  in_action_id :: int
  in_serial_number :: int
  in_type :: int
  in_model :: "sm_indication option"
  in_subscription_request :: "subscription_request option"

record error_indication =
  ei_requestor_id :: int
  ei_instance_id :: int
  ei_function_id :: int
  ei_cause :: int
  ei_cause_detail :: int

record subscription_failure =
  sf_requestor_id :: int
  sf_instance_id :: int
  sf_function_id :: int
  sf_cause :: "int option"             \<comment> \<open>uninitialised until a cause is decoded\<close>
  sf_cause_detail :: "int option"
  sf_req :: "subscription_request option"

record delete_response =
  dp_requestor_id :: int
  dp_instance_id :: int
  dp_function_id :: int
  dp_req :: "delete_request option"

record delete_failure =
  df_requestor_id :: int
  df_instance_id :: int
  df_function_id :: int
  df_cause :: int
  df_cause_detail :: int
  df_req :: "delete_request option"

definition ControlAck :: control_ack where
  "ControlAck = \<lparr>ca_requestor_id = -1, ca_instance_id = -1, ca_function_id = -1, ca_status = -1,
                 ca_outcome = None, ca_req = None\<rparr>"

definition ControlFailure :: control_failure where
  "ControlFailure = \<lparr>cf_requestor_id = -1, cf_instance_id = -1, cf_function_id = -1, cf_cause = -1,
                     cf_cause_detail = -1, cf_outcome = None, cf_req = None\<rparr>"

definition Indication :: indication where
  "Indication = \<lparr>in_requestor_id = -1, in_instance_id = -1, in_function_id = -1, in_action_id = -1,
                 in_serial_number = -1, in_type = -1, in_model = None, in_subscription_request = None\<rparr>"

definition ErrorIndication :: error_indication where
  "ErrorIndication = \<lparr>ei_requestor_id = -1, ei_instance_id = -1, ei_function_id = -1,
                      ei_cause = -1, ei_cause_detail = -1\<rparr>"

definition SubscriptionFailure :: subscription_failure where
  "SubscriptionFailure = \<lparr>sf_requestor_id = -1, sf_instance_id = -1, sf_function_id = -1,
                          sf_cause = None, sf_cause_detail = None, sf_req = None\<rparr>"

definition SubscriptionDeleteResponse :: delete_response where
  "SubscriptionDeleteResponse = \<lparr>dp_requestor_id = -1, dp_instance_id = -1, dp_function_id = -1,
                                 dp_req = None\<rparr>"

definition SubscriptionDeleteFailure :: delete_failure where
  "SubscriptionDeleteFailure = \<lparr>df_requestor_id = -1, df_instance_id = -1, df_function_id = -1,
                                df_cause = -1, df_cause_detail = -1, df_req = None\<rparr>"

section \<open>The loops over information elements\<close>

fun control_ack_ie :: "control_ack \<times> bytes \<Rightarrow> criticality \<times> ie \<Rightarrow> control_ack \<times> bytes" where
  "control_ack_ie (a, out) (_, RICrequestID r i) = (a\<lparr>ca_requestor_id := r, ca_instance_id := i\<rparr>, out)"
| "control_ack_ie (a, out) (_, RANfunctionID f) = (a\<lparr>ca_function_id := f\<rparr>, out)"
| "control_ack_ie (a, out) (_, RICcontrolOutcome b) = (a, if b \<noteq> [] then b else out)"
| "control_ack_ie (a, out) _ = (a, out)"

fun control_failure_ie :: "control_failure \<times> bytes \<Rightarrow> criticality \<times> ie \<Rightarrow> control_failure \<times> bytes" where
  "control_failure_ie (a, out) (_, RICrequestID r i) = (a\<lparr>cf_requestor_id := r, cf_instance_id := i\<rparr>, out)"
| "control_failure_ie (a, out) (_, RANfunctionID f) = (a\<lparr>cf_function_id := f\<rparr>, out)"
| "control_failure_ie (a, out) (_, Cause (p, d)) = (a\<lparr>cf_cause := p, cf_cause_detail := d\<rparr>, out)"
| "control_failure_ie (a, out) (_, RICcontrolOutcome b) = (a, if b \<noteq> [] then b else out)"
| "control_failure_ie (a, out) _ = (a, out)"

fun indication_ie :: "indication \<times> bytes \<times> bytes \<Rightarrow> criticality \<times> ie \<Rightarrow> indication \<times> bytes \<times> bytes" where
  "indication_ie (a, h, m) (_, RICrequestID r i) = (a\<lparr>in_requestor_id := r, in_instance_id := i\<rparr>, h, m)"
| "indication_ie (a, h, m) (_, RANfunctionID f) = (a\<lparr>in_function_id := f\<rparr>, h, m)"
| "indication_ie (a, h, m) (_, RICactionID n) = (a\<lparr>in_action_id := n\<rparr>, h, m)"
| "indication_ie (a, h, m) (_, RICindicationSN n) = (a\<lparr>in_serial_number := n\<rparr>, h, m)"
| "indication_ie (a, h, m) (_, RICindicationType n) = (a\<lparr>in_type := n\<rparr>, h, m)"
| "indication_ie (a, h, m) (_, RICindicationHeader b) = (a, if b \<noteq> [] then b else h, m)"
| "indication_ie (a, h, m) (_, RICindicationMessage b) = (a, h, if b \<noteq> [] then b else m)"
| "indication_ie (a, h, m) _ = (a, h, m)"

fun error_indication_ie :: "error_indication \<Rightarrow> criticality \<times> ie \<Rightarrow> error_indication" where
  "error_indication_ie a (_, RICrequestID r i) = a\<lparr>ei_requestor_id := r, ei_instance_id := i\<rparr>"
| "error_indication_ie a (_, RANfunctionID f) = a\<lparr>ei_function_id := f\<rparr>"
| "error_indication_ie a (_, Cause (p, d)) = a\<lparr>ei_cause := p, ei_cause_detail := d\<rparr>"
| "error_indication_ie a _ = a"

text \<open>The response record takes its request afterwards; the loop only fills the ids and lists.\<close>

fun subscription_response_ie ::
    "subscription_response \<Rightarrow> criticality \<times> ie \<Rightarrow> subscription_response" where
  "subscription_response_ie a (_, RICrequestID r i) = a\<lparr>sp_requestor_id := r, sp_instance_id := i\<rparr>"
| "subscription_response_ie a (_, RANfunctionID f) = a\<lparr>sp_function_id := f\<rparr>"
| "subscription_response_ie a (_, RICactions_Admitted l) =
     a\<lparr>sp_actions_admitted := sp_actions_admitted a @ l\<rparr>"
| "subscription_response_ie a (_, RICactions_NotAdmitted l) =
     a\<lparr>sp_actions_not_admitted := sp_actions_not_admitted a @ map (\<lambda>(n, p, d). (n, p, d)) l\<rparr>"
| "subscription_response_ie a _ = a"

fun subscription_failure_ie :: "subscription_failure \<Rightarrow> criticality \<times> ie \<Rightarrow> subscription_failure" where
  "subscription_failure_ie a (_, RICrequestID r i) = a\<lparr>sf_requestor_id := r, sf_instance_id := i\<rparr>"
| "subscription_failure_ie a (_, RANfunctionID f) = a\<lparr>sf_function_id := f\<rparr>"
| "subscription_failure_ie a (_, Cause (p, d)) =
     (let a1 = a\<lparr>sf_cause := Some p\<rparr> in
      if p = 0 then a1\<lparr>sf_cause_detail := Some 0\<rparr>
      else if 1 \<le> p \<and> p \<le> 6 then a1\<lparr>sf_cause_detail := Some d\<rparr>
      else a1)"
| "subscription_failure_ie a _ = a"

fun delete_response_ie :: "delete_response \<Rightarrow> criticality \<times> ie \<Rightarrow> delete_response" where
  "delete_response_ie a (_, RICrequestID r i) = a\<lparr>dp_requestor_id := r, dp_instance_id := i\<rparr>"
| "delete_response_ie a (_, RANfunctionID f) = a\<lparr>dp_function_id := f\<rparr>"
| "delete_response_ie a _ = a"

fun delete_failure_ie :: "delete_failure \<Rightarrow> criticality \<times> ie \<Rightarrow> delete_failure" where
  "delete_failure_ie a (_, RICrequestID r i) = a\<lparr>df_requestor_id := r, df_instance_id := i\<rparr>"
| "delete_failure_ie a (_, RANfunctionID f) = a\<lparr>df_function_id := f\<rparr>"
| "delete_failure_ie a (_, Cause (p, d)) = a\<lparr>df_cause := p, df_cause_detail := d\<rparr>"
| "delete_failure_ie a _ = a"

section \<open>Decoding\<close>

text \<open>
  The model of a control request is the NexRAN model: it alone has control messages. \<open>None\<close> is the
  null pointer, the message is then dropped.
\<close>

definition decode_control_ack ::
    "env \<Rightarrow> 'a e2ap_scheme \<Rightarrow> (criticality \<times> ie) list \<Rightarrow> control_ack option" where
  "decode_control_ack E s ies =
     (let (ret, outcome) = foldl control_ack_ie (ControlAck, []) ies in
      case lookup_control s (ca_requestor_id ret) (ca_instance_id ret) of
        None \<Rightarrow> None
      | Some req \<Rightarrow>
          if outcome \<noteq> []
          then (case nexran_decode_outcome E outcome of
                  None \<Rightarrow> None
                | Some o' \<Rightarrow> Some (ret\<lparr>ca_outcome := Some o'\<rparr>))
          else Some ret)"

definition decode_control_failure ::
    "env \<Rightarrow> 'a e2ap_scheme \<Rightarrow> (criticality \<times> ie) list \<Rightarrow> control_failure option" where
  "decode_control_failure E s ies =
     (let (ret, outcome) = foldl control_failure_ie (ControlFailure, []) ies in
      case lookup_control s (cf_requestor_id ret) (cf_instance_id ret) of
        None \<Rightarrow> None
      | Some req \<Rightarrow>
          if outcome \<noteq> []
          then (case nexran_decode_failure_outcome E outcome of
                  None \<Rightarrow> None
                | Some o' \<Rightarrow> Some (ret\<lparr>cf_outcome := Some o'\<rparr>))
          else Some ret)"

text \<open>\<open>trigger->get_model()->decode(...)\<close>.\<close>

definition model_decode_indication ::
    "env \<Rightarrow> int \<Rightarrow> event_trigger \<Rightarrow> bytes \<Rightarrow> bytes \<Rightarrow> sm_indication option outcome" where
  "model_decode_indication E now t header message =
     (case t of
        Trigger_kpm p \<Rightarrow>
          bind_outcome (kpm_decode_indication E now (Some t) header message)
            (\<lambda>r. Inr (map_option KpmIndication r))
      | Trigger_nexran _ \<Rightarrow>
          Inr (map_option SliceStatusIndication (nexran_decode_indication E header message)))"

text \<open>
  \<open>delete ret\<close> on the failing paths runs the destructor of \<open>Indication\<close>, which tests and deletes the
  member \<open>model\<close> that nothing has initialised.
\<close>

definition decode_indication ::
    "env \<Rightarrow> int \<Rightarrow> 'a e2ap_scheme \<Rightarrow> (criticality \<times> ie) list \<Rightarrow> int \<Rightarrow> indication option outcome" where
  "decode_indication E now s ies subid =
     (let (ret, header, message) = foldl indication_ie (Indication, [], []) ies in
      if subid < 0 then Inl IndeterminateRead
      else case lookup_subscription s subid of
        None \<Rightarrow> Inl IndeterminateRead
      | Some resp \<Rightarrow>
          let ret1 = ret\<lparr>in_subscription_request := Some (sp_req resp)\<rparr> in
          (case sr_trigger (sp_req resp) of
             None \<Rightarrow> Inr (Some ret1)
           | Some t \<Rightarrow>
               bind_outcome (model_decode_indication E now t header message) (\<lambda>m.
                 case m of
                   None \<Rightarrow> Inl IndeterminateRead
                 | Some i \<Rightarrow> Inr (Some (ret1\<lparr>in_model := Some i\<rparr>)))))"

definition decode_error_indication :: "(criticality \<times> ie) list \<Rightarrow> error_indication" where
  "decode_error_indication ies = foldl error_indication_ie ErrorIndication ies"

definition decode_subscription_response ::
    "'a e2ap_scheme \<Rightarrow> (criticality \<times> ie) list \<Rightarrow> string \<Rightarrow> subscription_response option" where
  "decode_subscription_response s ies xid =
     (case lookup_pending_subscription s xid of
        None \<Rightarrow> None
      | Some req \<Rightarrow>
          Some (foldl subscription_response_ie
                  \<lparr>sp_requestor_id = -1, sp_instance_id = -1, sp_function_id = -1,
                   sp_actions_admitted = [], sp_actions_not_admitted = [], sp_req = req\<rparr> ies))"

definition decode_subscription_failure ::
    "'a e2ap_scheme \<Rightarrow> (criticality \<times> ie) list \<Rightarrow> string \<Rightarrow> subscription_failure option" where
  "decode_subscription_failure s ies xid =
     (let ret = foldl subscription_failure_ie SubscriptionFailure ies in
      case lookup_pending_subscription s xid of
        None \<Rightarrow> None
      | Some req \<Rightarrow> Some (ret\<lparr>sf_req := Some req\<rparr>))"

definition decode_subscription_delete_response ::
    "'a e2ap_scheme \<Rightarrow> (criticality \<times> ie) list \<Rightarrow> string \<Rightarrow> delete_response option" where
  "decode_subscription_delete_response s ies xid =
     (let ret = foldl delete_response_ie SubscriptionDeleteResponse ies in
      case lookup_pending_subscription_delete s xid of
        None \<Rightarrow> None
      | Some req \<Rightarrow> Some (ret\<lparr>dp_req := Some req\<rparr>))"

definition decode_subscription_delete_failure ::
    "'a e2ap_scheme \<Rightarrow> (criticality \<times> ie) list \<Rightarrow> string \<Rightarrow> delete_failure option" where
  "decode_subscription_delete_failure s ies xid =
     (let ret = foldl delete_failure_ie SubscriptionDeleteFailure ies in
      case lookup_pending_subscription_delete s xid of
        None \<Rightarrow> None
      | Some req \<Rightarrow> Some (ret\<lparr>df_req := Some req\<rparr>))"

text \<open>\<open>decode_pdu\<close>: the procedures each kind of PDU may carry; \<open>None\<close> is a negative result.\<close>

fun known_procedure :: "pdu \<Rightarrow> bool" where
  "known_procedure (InitiatingMessage p _ _) \<longleftrightarrow>
     p \<in> {Reset, RICsubscription, RICsubscriptionDelete, RICcontrol, RICserviceQuery, RICindication,
          ErrorIndicationProc}"
| "known_procedure (SuccessfulOutcome p _ _) \<longleftrightarrow>
     p \<in> {E2setup, Reset, RICserviceUpdate, RICsubscription, RICsubscriptionDelete, RICcontrol}"
| "known_procedure (UnsuccessfulOutcome p _ _) \<longleftrightarrow>
     p \<in> {E2setup, RICserviceUpdate, RICsubscription, RICsubscriptionDelete, RICcontrol}"
| "known_procedure OtherPdu \<longleftrightarrow> False"

definition decode_pdu :: "env \<Rightarrow> bytes \<Rightarrow> pdu option" where
  "decode_pdu E buf =
     (case aper_decode_pdu E buf of
        None \<Rightarrow> None
      | Some p \<Rightarrow> if known_procedure p then Some p else None)"

section \<open>Dispatch\<close>

datatype agent_event =
    Ev_subscription_response subscription_response
  | Ev_subscription_failure subscription_failure
  | Ev_delete_response delete_response
  | Ev_delete_failure delete_failure
  | Ev_control_ack control_ack
  | Ev_control_failure control_failure
  | Ev_indication indication
  | Ev_error_indication error_indication

type_synonym 's agent_handle = "'s \<Rightarrow> agent_event \<Rightarrow> (bool \<times> 's) outcome"

fun handle_initiating ::
    "env \<Rightarrow> int \<Rightarrow> 'a e2ap_scheme agent_handle \<Rightarrow> 'a e2ap_scheme \<Rightarrow> procedure \<Rightarrow> (criticality \<times> ie) list \<Rightarrow> int \<Rightarrow>
     (bool \<times> 'a e2ap_scheme) outcome" where
  "handle_initiating E now handle s RICindication ies subid =
     bind_outcome (decode_indication E now s ies subid) (\<lambda>r.
       case r of None \<Rightarrow> Inr (False, s) | Some ind \<Rightarrow> handle s (Ev_indication ind))"
| "handle_initiating E now handle s ErrorIndicationProc ies subid =
     handle s (Ev_error_indication (decode_error_indication ies))"
| "handle_initiating E now handle s _ ies subid = Inr (False, s)"

fun handle_successful ::
    "env \<Rightarrow> 'a e2ap_scheme agent_handle \<Rightarrow> 'a e2ap_scheme \<Rightarrow> procedure \<Rightarrow> (criticality \<times> ie) list \<Rightarrow> int \<Rightarrow> string \<Rightarrow>
     (bool \<times> 'a e2ap_scheme) outcome" where
  "handle_successful E handle s RICsubscription ies subid xid =
     (case decode_subscription_response s ies xid of
        None \<Rightarrow> Inr (False, s)
      | Some resp \<Rightarrow>
          handle (s\<lparr>subscriptions := sm_put (subscriptions s) subid resp,
                    pending_subscriptions := sm_erase (pending_subscriptions s) xid\<rparr>)
            (Ev_subscription_response resp))"
| "handle_successful E handle s RICsubscriptionDelete ies subid xid =
     (case decode_subscription_delete_response s ies xid of
        None \<Rightarrow> Inr (False, s)
      | Some resp \<Rightarrow>
          handle (s\<lparr>subscriptions := sm_erase (subscriptions s) subid,
                    pending_deletes := sm_erase (pending_deletes s) xid\<rparr>)
            (Ev_delete_response resp))"
| "handle_successful E handle s RICcontrol ies subid xid =
     (case decode_control_ack E s ies of
        None \<Rightarrow> Inr (False, s)
      | Some ack \<Rightarrow>
          bind_outcome (handle s (Ev_control_ack ack)) (\<lambda>(b, s1).
            case ca_req ack of
              None \<Rightarrow> Inr (b, s1)
            | Some req \<Rightarrow> Inr (b, s1\<lparr>controls := sm_erase (controls s1) (cr_instance_id req)\<rparr>)))"
| "handle_successful E handle s _ ies subid xid = Inr (False, s)"

fun handle_unsuccessful ::
    "env \<Rightarrow> 'a e2ap_scheme agent_handle \<Rightarrow> 'a e2ap_scheme \<Rightarrow> procedure \<Rightarrow> (criticality \<times> ie) list \<Rightarrow> string \<Rightarrow>
     (bool \<times> 'a e2ap_scheme) outcome" where
  "handle_unsuccessful E handle s RICsubscription ies xid =
     (case decode_subscription_failure s ies xid of
        None \<Rightarrow> Inr (False, s) | Some resp \<Rightarrow> handle s (Ev_subscription_failure resp))"
| "handle_unsuccessful E handle s RICsubscriptionDelete ies xid =
     (case decode_subscription_delete_failure s ies xid of
        None \<Rightarrow> Inr (False, s) | Some resp \<Rightarrow> handle s (Ev_delete_failure resp))"
| "handle_unsuccessful E handle s RICcontrol ies xid =
     (case decode_control_failure E s ies of
        None \<Rightarrow> Inr (False, s)
      | Some failure \<Rightarrow>
          bind_outcome (handle s (Ev_control_failure failure)) (\<lambda>(b, s1).
            case cf_req failure of
              None \<Rightarrow> Inr (b, s1)
            | Some req \<Rightarrow> Inr (b, s1\<lparr>controls := sm_erase (controls s1) (cr_instance_id req)\<rparr>)))"
| "handle_unsuccessful E handle s _ ies xid = Inr (False, s)"

definition handle_message ::
    "env \<Rightarrow> int \<Rightarrow> 'a e2ap_scheme agent_handle \<Rightarrow> 'a e2ap_scheme \<Rightarrow> bytes \<Rightarrow> int \<Rightarrow> string \<Rightarrow> string \<Rightarrow>
     (bool \<times> 'a e2ap_scheme) outcome" where
  "handle_message E now handle s buf subid meid xid =
     (case decode_pdu E buf of
        None \<Rightarrow> Inr (False, s)
      | Some (InitiatingMessage p _ ies) \<Rightarrow> handle_initiating E now handle s p ies subid
      | Some (SuccessfulOutcome p _ ies) \<Rightarrow> handle_successful E handle s p ies subid xid
      | Some (UnsuccessfulOutcome p _ ies) \<Rightarrow> handle_unsuccessful E handle s p ies xid
      | Some OtherPdu \<Rightarrow> Inr (False, s))"

section \<open>Properties\<close>

interpretation model: service_model "model_decode_indication E now t" for E now t
proof
  show "model_decode_indication E now t [] m = Inr None" for m
    by (cases t) (simp_all add: model_decode_indication_def kpm.no_header nexran_decode_indication_def)
  show "model_decode_indication E now t h [] = Inr None" for h
    by (cases t) (simp_all add: model_decode_indication_def kpm.no_message nexran_decode_indication_def)
qed

lemma subscription_response_ie_req [simp]: "sp_req (subscription_response_ie a x) = sp_req a"
  by (cases "(a, x)" rule: subscription_response_ie.cases) simp_all

lemma subscription_response_ies_req [simp]: "sp_req (foldl subscription_response_ie a ies) = sp_req a"
  by (induction ies arbitrary: a) simp_all

lemma decode_subscription_response_req:
  "decode_subscription_response s ies xid = Some resp \<Longrightarrow>
     lookup_pending_subscription s xid = Some (sp_req resp)"
  by (auto simp: decode_subscription_response_def split: option.splits)

lemma control_ack_ie_req: "ca_req (fst (control_ack_ie a x)) = ca_req (fst a)"
  by (cases "(a, x)" rule: control_ack_ie.cases) simp_all

lemma control_ack_ies_req: "ca_req (fst (foldl control_ack_ie a ies)) = ca_req (fst a)"
  by (induction ies arbitrary: a) (simp_all add: control_ack_ie_req)

lemma decode_control_ack_req: "decode_control_ack E s ies = Some a \<Longrightarrow> ca_req a = None"
  using control_ack_ies_req [of "(ControlAck, [])" ies]
  by (auto simp: decode_control_ack_def ControlAck_def split: prod.splits option.splits if_splits)

lemma control_failure_ie_req: "cf_req (fst (control_failure_ie a x)) = cf_req (fst a)"
  by (cases "(a, x)" rule: control_failure_ie.cases) simp_all

lemma control_failure_ies_req: "cf_req (fst (foldl control_failure_ie a ies)) = cf_req (fst a)"
  by (induction ies arbitrary: a) (simp_all add: control_failure_ie_req)

lemma decode_control_failure_req: "decode_control_failure E s ies = Some a \<Longrightarrow> cf_req a = None"
  using control_failure_ies_req [of "(ControlFailure, [])" ies]
  by (auto simp: decode_control_failure_def ControlFailure_def split: prod.splits option.splits if_splits)

lemma indication_ie_model: "in_model (fst (indication_ie a x)) = in_model (fst a)"
  by (cases "(a, x)" rule: indication_ie.cases) simp_all

lemma indication_ies_model: "in_model (fst (foldl indication_ie a ies)) = in_model (fst a)"
  by (induction ies arbitrary: a) (simp_all add: indication_ie_model)

text \<open>An indication that decodes belongs to a known subscription, whose request it carries.\<close>

lemma decode_indication_Some:
  assumes "decode_indication E now s ies subid = Inr r"
  shows "\<exists>ind resp. r = Some ind \<and> 0 \<le> subid \<and> lookup_subscription s subid = Some resp \<and>
    in_subscription_request ind = Some (sp_req resp) \<and>
    (case sr_trigger (sp_req resp) of
       None \<Rightarrow> in_model ind = None
     | Some t \<Rightarrow> \<exists>h m i. h \<noteq> [] \<and> m \<noteq> [] \<and> model_decode_indication E now t h m = Inr (Some i) \<and>
                 in_model ind = Some i)"
proof -
  obtain ret h m where f: "foldl indication_ie (Indication, [], []) ies = (ret, h, m)"
    by (metis prod.exhaust)
  then have n: "in_model ret = None"
    using indication_ies_model [of "(Indication, [], [])" ies] by (simp add: Indication_def)
  from assms f obtain resp where r: "0 \<le> subid" "lookup_subscription s subid = Some resp"
    by (auto simp: decode_indication_def split: if_splits option.splits)
  show ?thesis
  proof (cases "sr_trigger (sp_req resp)")
    case None
    with assms f r n show ?thesis by (auto simp: decode_indication_def)
  next
    case (Some t)
    with assms f r obtain i where i: "model_decode_indication E now t h m = Inr (Some i)"
      "r = Some (ret\<lparr>in_subscription_request := Some (sp_req resp), in_model := Some i\<rparr>)"
      by (auto simp: decode_indication_def split: option.splits)
    then show ?thesis using r Some model.both_parts [OF i(1)] by auto
  qed
qed

lemma decode_indication_unknown:
  "lookup_subscription s subid = None \<Longrightarrow> decode_indication E now s ies subid = Inl IndeterminateRead"
  by (simp add: decode_indication_def split: prod.splits)

text \<open>What any message does to the tables before the application's handler sees it.\<close>

inductive table_step :: "'a e2ap_scheme \<Rightarrow> agent_event option \<Rightarrow> 'a e2ap_scheme \<Rightarrow> bool" where
  ignored: "table_step s None s"
| subscribed: "lookup_pending_subscription s xid = Some (sp_req resp) \<Longrightarrow>
    table_step s (Some (Ev_subscription_response resp))
      (s\<lparr>subscriptions := sm_put (subscriptions s) subid resp,
         pending_subscriptions := sm_erase (pending_subscriptions s) xid\<rparr>)"
| unsubscribed: "lookup_pending_subscription_delete s xid = Some req \<Longrightarrow> dp_req resp = Some req \<Longrightarrow>
    table_step s (Some (Ev_delete_response resp))
      (s\<lparr>subscriptions := sm_erase (subscriptions s) subid,
         pending_deletes := sm_erase (pending_deletes s) xid\<rparr>)"
| reported: "(\<forall>r. ev \<noteq> Ev_subscription_response r) \<Longrightarrow> (\<forall>r. ev \<noteq> Ev_delete_response r) \<Longrightarrow>
    table_step s (Some ev) s"

inductive_cases table_step_elim: "table_step s ev s'"

definition handle_opt :: "'a e2ap_scheme agent_handle \<Rightarrow> 'a e2ap_scheme \<Rightarrow> agent_event option \<Rightarrow> (bool \<times> 'a e2ap_scheme) outcome" where
  "handle_opt handle s ev = (case ev of None \<Rightarrow> Inr (False, s) | Some e \<Rightarrow> handle s e)"

lemma handle_unsuccessful_steps:
  "\<exists>ev. table_step s ev s \<and> handle_unsuccessful E handle s p ies xid = handle_opt handle s ev"
proof -
  have ig: ?thesis if "handle_unsuccessful E handle s p ies xid = Inr (False, s)"
    using that by (intro exI [of _ None]) (simp add: handle_opt_def table_step.ignored)
  have rp: ?thesis if "handle_unsuccessful E handle s p ies xid = handle s ev"
    "\<forall>r. ev \<noteq> Ev_subscription_response r" "\<forall>r. ev \<noteq> Ev_delete_response r" for ev
    using that by (intro exI [of _ "Some ev"]) (simp add: handle_opt_def table_step.reported)
  show ?thesis
  proof (cases p)
    case RICcontrol
    show ?thesis
    proof (cases "decode_control_failure E s ies")
      case (Some a)
      have "bind_outcome (handle s (Ev_control_failure a)) (\<lambda>(b, s1). Inr (b, s1)) = handle s (Ev_control_failure a)"
        by (cases "handle s (Ev_control_failure a)") auto
      then show ?thesis using Some RICcontrol decode_control_failure_req [OF Some]
        by (intro rp [of "Ev_control_failure a"]) (auto simp: case_prod_beta)
    qed (use RICcontrol ig in simp)
  next
    case RICsubscription
    show ?thesis
    proof (cases "decode_subscription_failure s ies xid")
      case (Some a)
      then show ?thesis using RICsubscription by (intro rp [of "Ev_subscription_failure a"]) auto
    qed (use RICsubscription ig in simp)
  next
    case RICsubscriptionDelete
    show ?thesis
    proof (cases "decode_subscription_delete_failure s ies xid")
      case (Some a)
      then show ?thesis using RICsubscriptionDelete by (intro rp [of "Ev_delete_failure a"]) auto
    qed (use RICsubscriptionDelete ig in simp)
  qed (use ig in simp_all)
qed

lemma handle_successful_steps:
  "\<exists>ev s1. table_step s ev s1 \<and> handle_successful E handle s p ies subid xid = handle_opt handle s1 ev"
proof -
  have ig: ?thesis if "handle_successful E handle s p ies subid xid = Inr (False, s)"
    using that by (intro exI [of _ None] exI [of _ s]) (simp add: handle_opt_def table_step.ignored)
  have st: ?thesis if "handle_successful E handle s p ies subid xid = handle s1 ev"
    "table_step s (Some ev) s1" for ev s1
    using that by (intro exI [of _ "Some ev"] exI [of _ s1]) (simp add: handle_opt_def)
  show ?thesis
  proof (cases p)
    case RICcontrol
    show ?thesis
    proof (cases "decode_control_ack E s ies")
      case (Some a)
      have "bind_outcome (handle s (Ev_control_ack a)) (\<lambda>(b, s1). Inr (b, s1)) = handle s (Ev_control_ack a)"
        by (cases "handle s (Ev_control_ack a)") auto
      then show ?thesis using Some RICcontrol decode_control_ack_req [OF Some]
        by (intro st [of s "Ev_control_ack a"]) (auto simp: case_prod_beta table_step.reported)
    qed (use RICcontrol ig in simp)
  next
    case RICsubscription
    show ?thesis
    proof (cases "decode_subscription_response s ies xid")
      case (Some a)
      show ?thesis
        by (rule st [OF _ table_step.subscribed [OF decode_subscription_response_req [OF Some]]])
           (use Some RICsubscription in simp)
    qed (use RICsubscription ig in simp)
  next
    case RICsubscriptionDelete
    show ?thesis
    proof (cases "decode_subscription_delete_response s ies xid")
      case (Some a)
      then obtain req where "lookup_pending_subscription_delete s xid = Some req" "dp_req a = Some req"
        by (auto simp: decode_subscription_delete_response_def split: option.splits)
      from table_step.unsubscribed [OF this] show ?thesis
        by (rule st [rotated]) (use Some RICsubscriptionDelete in simp)
    qed (use RICsubscriptionDelete ig in simp)
  qed (use ig in simp_all)
qed

lemma handle_initiating_steps:
  "(\<exists>ev. table_step s ev s \<and> handle_initiating E now handle s p ies subid = handle_opt handle s ev) \<or>
   (\<exists>f. handle_initiating E now handle s p ies subid = Inl f)"
proof (cases p)
  case RICindication
  show ?thesis
  proof (cases "decode_indication E now s ies subid")
    case (Inr r)
    from decode_indication_Some [OF this] obtain ind where "r = Some ind" by blast
    with Inr RICindication show ?thesis
      by (intro disjI1 exI [of _ "Some (Ev_indication ind)"]) (simp add: handle_opt_def table_step.reported)
  qed (use RICindication in simp)
next
  case ErrorIndicationProc
  then show ?thesis
    by (intro disjI1 exI [of _ "Some (Ev_error_indication (decode_error_indication ies))"])
       (simp add: handle_opt_def table_step.reported)
qed (auto simp: handle_opt_def intro: table_step.ignored exI [of _ None])

text \<open>
  A received message is one table step followed by the application's handler, unless decoding an
  indication fails.
\<close>

lemma handle_message_steps:
  assumes "handle_message E now handle s buf subid meid xid = Inr (b, s')"
  obtains ev s1 where "table_step s ev s1" "handle_opt handle s1 ev = Inr (b, s')"
proof -
  have "\<exists>ev s1. table_step s ev s1 \<and> handle_opt handle s1 ev = Inr (b, s')"
  proof (cases "decode_pdu E buf")
    case None
    with assms show ?thesis
      by (intro exI [of _ None] exI [of _ s]) (simp add: handle_message_def handle_opt_def table_step.ignored)
  next
    case (Some p)
    show ?thesis
    proof (cases p)
      case (InitiatingMessage q c ies)
      with assms Some have "handle_initiating E now handle s q ies subid = Inr (b, s')"
        by (simp add: handle_message_def)
      with handle_initiating_steps [of s E now handle q ies subid]
      obtain ev where "table_step s ev s" "handle_opt handle s ev = Inr (b, s')" by auto
      then show ?thesis by blast
    next
      case (SuccessfulOutcome q c ies)
      with assms Some have "handle_successful E handle s q ies subid xid = Inr (b, s')"
        by (simp add: handle_message_def)
      with handle_successful_steps [of s E handle q ies subid xid]
      obtain ev s1 where "table_step s ev s1" "handle_opt handle s1 ev = Inr (b, s')" by auto
      then show ?thesis by blast
    next
      case (UnsuccessfulOutcome q c ies)
      with assms Some have "handle_unsuccessful E handle s q ies xid = Inr (b, s')"
        by (simp add: handle_message_def)
      with handle_unsuccessful_steps [of s E handle q ies xid]
      obtain ev where "table_step s ev s" "handle_opt handle s ev = Inr (b, s')" by auto
      then show ?thesis by blast
    next
      case OtherPdu
      with assms Some show ?thesis
        by (intro exI [of _ None] exI [of _ s]) (simp add: handle_message_def handle_opt_def table_step.ignored)
    qed
  qed
  then show thesis using that by blast
qed

lemma table_step_wf: "table_step s ev s' \<Longrightarrow> tables_wf s \<Longrightarrow> tables_wf s'"
  by (cases rule: table_step.cases) (auto simp: tables_wf_def)

lemma table_step_frame:
  "table_step s ev s' \<Longrightarrow> controls s' = controls s \<and> next_instance_id s' = next_instance_id s \<and>
     requestor_id s' = requestor_id s \<and> e2ap.more s' = e2ap.more s"
  by (cases rule: table_step.cases) auto

end
