(* ===== verification/App_State.thy ===== *)
theory App_State
  imports Slice_Resource NodeB_Resource E2ap_Handler
begin

text \<open>
  The state of \<open>class App\<close> (\<open>include/nexran.h\<close>): the resource tables \<open>db\<close>, the objects they point to,
  and the E2AP tables it inherits; the transmission of a message over RMR and the pushing of control
  requests (\<open>src/nexran.cc\<close>).
\<close>

section \<open>State\<close>

datatype resource_type = NodeBResource | SliceResource | UeResource

fun rtype_to_label :: "resource_type \<Rightarrow> string" where
  "rtype_to_label NodeBResource = ''nodeb''" | "rtype_to_label SliceResource = ''slice''"
| "rtype_to_label UeResource = ''ue''"

fun rtype_to_label_plural :: "resource_type \<Rightarrow> string" where
  "rtype_to_label_plural NodeBResource = ''nodebs''" | "rtype_to_label_plural SliceResource = ''slices''"
| "rtype_to_label_plural UeResource = ''ues''"

text \<open>The subclasses of \<open>AbstractResource\<close>, and its virtual functions.\<close>

datatype obj = ObjNodeB nodeb | ObjSlice slice | ObjUe ue

fun obj_type :: "obj \<Rightarrow> resource_type" where
  "obj_type (ObjNodeB _) = NodeBResource" | "obj_type (ObjSlice _) = SliceResource"
| "obj_type (ObjUe _) = UeResource"

fun obj_name :: "obj \<Rightarrow> string" where
  "obj_name (ObjNodeB nb) = nb_name nb" | "obj_name (ObjSlice s) = s_name s" | "obj_name (ObjUe u) = imsi u"

fun obj_serialize :: "obj \<Rightarrow> wcall list" where
  "obj_serialize (ObjNodeB nb) = nodeb_serialize nb" | "obj_serialize (ObjSlice s) = slice_serialize s"
| "obj_serialize (ObjUe u) = ue_serialize u"

fun obj_view :: "obj \<Rightarrow> json" where
  "obj_view (ObjNodeB nb) = nodeb_view nb" | "obj_view (ObjSlice s) = slice_view s"
| "obj_view (ObjUe u) = ue_view u"

fun obj_update :: "json \<Rightarrow> ae \<Rightarrow> obj \<Rightarrow> (bool \<times> ae \<times> obj) outcome" where
  "obj_update d ae (ObjNodeB nb) = bind_outcome (nodeb_update d ae nb) (\<lambda>(b, ae', x). Inr (b, ae', ObjNodeB x))"
| "obj_update d ae (ObjSlice s) = bind_outcome (slice_update d ae s) (\<lambda>(b, ae', x). Inr (b, ae', ObjSlice x))"
| "obj_update d ae (ObjUe u) = bind_outcome (ue_update d ae u) (\<lambda>(b, ae', x). Inr (b, ae', ObjUe x))"

text \<open>
  Objects live on a heap at addresses that are never reused, so that following a pointer to a
  deleted object is always seen. \<open>outbox\<close> lists the messages handed to RMR and the results.
\<close>

type_synonym obj_heap = "addr \<Rightarrow> obj option"
type_synonym resource_db = "resource_type \<Rightarrow> (string, addr) smap"

record app = e2ap +
  db :: resource_db
  heap :: obj_heap
  next_addr :: addr
  outbox :: "(rmr_msg \<times> bool) list"

definition App :: app where
  "App = e2ap.extend E2AP \<lparr>db = (\<lambda>_. []), heap = (\<lambda>_. None), next_addr = 0, outbox = []\<rparr>"

definition app_alloc :: "obj \<Rightarrow> app \<Rightarrow> addr \<times> app" where
  "app_alloc ob s = (next_addr s, s\<lparr>heap := (heap s)(next_addr s := Some ob), next_addr := Suc (next_addr s)\<rparr>)"

text \<open>Following a pointer, and the casts \<open>(NodeB *)\<close>, \<open>(Slice *)\<close>, \<open>(Ue *)\<close> of an entry.\<close>

definition deref :: "app \<Rightarrow> addr \<Rightarrow> obj outcome" where
  "deref s a = (case heap s a of None \<Rightarrow> Inl UseAfterFree | Some ob \<Rightarrow> Inr ob)"

definition get_nodeb :: "app \<Rightarrow> addr \<Rightarrow> nodeb outcome" where
  "get_nodeb s a = bind_outcome (deref s a) (\<lambda>ob. case ob of ObjNodeB x \<Rightarrow> Inr x | _ \<Rightarrow> Inl BadCast)"

definition get_slice :: "app \<Rightarrow> addr \<Rightarrow> slice outcome" where
  "get_slice s a = bind_outcome (deref s a) (\<lambda>ob. case ob of ObjSlice x \<Rightarrow> Inr x | _ \<Rightarrow> Inl BadCast)"

definition get_ue :: "app \<Rightarrow> addr \<Rightarrow> ue outcome" where
  "get_ue s a = bind_outcome (deref s a) (\<lambda>ob. case ob of ObjUe x \<Rightarrow> Inr x | _ \<Rightarrow> Inl BadCast)"

definition set_obj :: "addr \<Rightarrow> obj \<Rightarrow> app \<Rightarrow> app" where
  "set_obj a ob s = s\<lparr>heap := (heap s)(a := Some ob)\<rparr>"

section \<open>Sending\<close>

text \<open>
  \<open>App::send_message\<close>: at most the available size of the RMR buffer is copied while the length field
  gets the full length; the transaction id is set only when it is not empty.
\<close>

definition rmr_message :: "env \<Rightarrow> bytes \<Rightarrow> mtype \<Rightarrow> int \<Rightarrow> string \<Rightarrow> string \<Rightarrow> rmr_msg" where
  "rmr_message E buf mt subid meid xid =
     \<lparr>rm_mtype = mt, rm_subid = subid, rm_len = length buf,
      rm_payload = take (min (rmr_available E (length buf)) (length buf)) buf,
      rm_meid = cstr meid, rm_xact = (if xid \<noteq> [] then Some (cstr xid) else None)\<rparr>"

definition send_message :: "env \<Rightarrow> app agent_send" where
  "send_message E s buf mt subid meid xid =
     (let msg = rmr_message E buf mt subid meid xid;
          ok = rmr_send E (map fst (outbox s)) msg
      in (ok, s\<lparr>outbox := outbox s @ [(msg, ok)]\<rparr>))"

interpretation app_agent: agent "send_message E" for E
  by unfold_locales (simp add: send_message_def Let_def e2ap.defs)

text \<open>
  One control request with a fresh instance id and an acknowledgement asked for, to one NodeB; RAN
  function 1 is the NexRAN model.
\<close>

definition app_control :: "env \<Rightarrow> control \<Rightarrow> string \<Rightarrow> app \<Rightarrow> app" where
  "app_control E c meid s =
     (let (iid, s1) = get_next_instance_id s;
          creq = (ControlRequest (requestor_id s1) iid 1 c CONTROL_REQUEST_ACK)\<lparr>cr_meid := meid\<rparr>
      in snd (send_control_request E (send_message E) s1 creq meid))"

text \<open>The loop over all NodeBs that sends a request to those a slice is bound to.\<close>

fun push_bound :: "env \<Rightarrow> string \<Rightarrow> control \<Rightarrow> (string \<times> addr) list \<Rightarrow> app \<Rightarrow> app outcome" where
  "push_bound E slice_name c [] s = Inr s"
| "push_bound E slice_name c ((k, a) # rest) s =
     bind_outcome (get_nodeb s a) (\<lambda>nb.
       if \<not> is_slice_bound nb slice_name then push_bound E slice_name c rest s
       else push_bound E slice_name c rest (app_control E c (nb_name nb) s))"

section \<open>Frames\<close>

definition same_store :: "app \<Rightarrow> app \<Rightarrow> bool" where
  "same_store s s' \<longleftrightarrow> db s' = db s \<and> heap s' = heap s \<and> next_addr s' = next_addr s"

lemma same_store_refl [simp]: "same_store s s"
  by (simp add: same_store_def)

lemma same_store_trans: "same_store s s' \<Longrightarrow> same_store s' s'' \<Longrightarrow> same_store s s''"
  by (simp add: same_store_def)

lemma send_message_store: "same_store s (snd (send_message E s buf mt subid meid xid))"
  by (simp add: send_message_def same_store_def Let_def)

lemma send_control_store: "same_store s (snd (send_control_request E (send_message E) s req meid))"
  by (auto simp: send_control_request_def send_message_def same_store_def Let_def split: option.splits)

lemma send_subscription_store: "same_store s (snd (send_subscription_request E (send_message E) s req meid))"
  by (auto simp: send_subscription_request_def send_message_def same_store_def Let_def split: option.splits)

lemma send_delete_store: "same_store s (snd (send_subscription_delete_request E (send_message E) s req meid))"
  by (auto simp: send_subscription_delete_request_def send_message_def same_store_def Let_def split: option.splits)

lemma delete_all_store: "same_store s (snd (delete_all_subscriptions E (send_message E) s meid))"
proof -
  have "same_store s (foldl (\<lambda>s (subid, sub).
               if sr_meid (sp_req sub) \<noteq> meid then s
               else snd (send_subscription_delete_request E (send_message E) s
                           ((SubscriptionDeleteRequest (sp_requestor_id sub) (sp_instance_id sub)
                               (sp_function_id sub))\<lparr>dr_meid := meid\<rparr>) meid)) s subs)" for subs
  proof (induction subs arbitrary: s)
    case (Cons p subs)
    obtain k sub where p: "p = (k, sub)" by fastforce
    show ?case
      unfolding p foldl_Cons prod.case
      by (rule same_store_trans [OF _ Cons.IH]) (simp add: send_delete_store)
  qed simp
  then show ?thesis by (simp add: delete_all_subscriptions_def)
qed

lemma get_next_instance_id_store: "same_store s (snd (get_next_instance_id s))"
  by (simp add: get_next_instance_id_def same_store_def)

lemma app_control_store: "same_store s (app_control E c meid s)"
  unfolding app_control_def Let_def split_beta
  by (rule same_store_trans [OF get_next_instance_id_store send_control_store])

lemma app_control_tables: "tables_wf s \<Longrightarrow> tables_wf (app_control E c meid s)"
  unfolding app_control_def Let_def split_beta
  by (rule app_agent.control_tables_wf) (use fresh_id [of s] in \<open>auto simp: ControlRequest_def get_next_instance_id_def\<close>)

lemma get_nodeb_heap: "get_nodeb s a = Inr nb \<longleftrightarrow> heap s a = Some (ObjNodeB nb)"
  by (auto simp: get_nodeb_def deref_def split: option.splits obj.splits)

lemma get_slice_heap: "get_slice s a = Inr sl \<longleftrightarrow> heap s a = Some (ObjSlice sl)"
  by (auto simp: get_slice_def deref_def split: option.splits obj.splits)

lemma get_ue_heap: "get_ue s a = Inr u \<longleftrightarrow> heap s a = Some (ObjUe u)"
  by (auto simp: get_ue_def deref_def split: option.splits obj.splits)

lemma get_same_store:
  "same_store s s' \<Longrightarrow> get_nodeb s' a = get_nodeb s a"
  "same_store s s' \<Longrightarrow> get_slice s' a = get_slice s a"
  "same_store s s' \<Longrightarrow> get_ue s' a = get_ue s a"
  by (simp_all add: same_store_def get_nodeb_def get_slice_def get_ue_def deref_def)

text \<open>
  Pushing touches neither the resource tables nor the objects, and fails only on a pointer that is
  no NodeB.
\<close>

lemma push_bound_ok:
  assumes "\<forall>(k, a) \<in> set l. \<exists>nb. heap s a = Some (ObjNodeB nb)" "tables_wf s"
  shows "\<exists>s'. push_bound E name c l s = Inr s' \<and> same_store s s' \<and> tables_wf s'"
  using assms
proof (induction l arbitrary: s)
  case (Cons p l)
  obtain k a where p: "p = (k, a)" by fastforce
  obtain nb where nb: "heap s a = Some (ObjNodeB nb)" using Cons.prems(1) p by auto
  then have g: "get_nodeb s a = Inr nb" by (simp add: get_nodeb_heap)
  show ?case
  proof (cases "is_slice_bound nb name")
    case False
    with g p Cons.IH [of s] Cons.prems show ?thesis by auto
  next
    case True
    let ?s1 = "app_control E c (nb_name nb) s"
    have st: "same_store s ?s1" by (rule app_control_store)
    have "\<exists>s'. push_bound E name c l ?s1 = Inr s' \<and> same_store ?s1 s' \<and> tables_wf s'"
      using Cons.prems st by (intro Cons.IH) (auto simp: same_store_def app_control_tables)
    then show ?thesis using g p True same_store_trans [OF st] by auto
  qed
qed auto

lemma push_bound_store:
  "push_bound E name c l s = Inr s' \<Longrightarrow> same_store s s'"
proof (induction l arbitrary: s)
  case (Cons p l)
  obtain k a where p: "p = (k, a)" by fastforce
  obtain nb where nb: "get_nodeb s a = Inr nb" using Cons.prems p by auto
  show ?case
  proof (cases "is_slice_bound nb name")
    case True
    with Cons.prems p nb have "push_bound E name c l (app_control E c (nb_name nb) s) = Inr s'" by auto
    from same_store_trans [OF app_control_store Cons.IH [OF this]] show ?thesis .
  next
    case False
    with Cons p nb show ?thesis by auto
  qed
qed simp

end
