(* ===== verification/App_Ops.thy ===== *)
theory App_Ops
  imports App_State
begin

text \<open>
  The northbound operations of \<open>class App\<close> (\<open>src/nexran.cc\<close>): adding, deleting, updating and
  serialising resources, and binding slices to NodeBs and subscribers to slices. Each holds the
  application mutex from its first to its last access to the resource tables, so each is one step;
  only \<open>add\<close> greets a new NodeB after it has released the mutex, and the model takes the greeting
  as part of the same step.
\<close>

section \<open>Serialising\<close>

fun serialize_all :: "app \<Rightarrow> (string \<times> addr) list \<Rightarrow> wcall list outcome" where
  "serialize_all s [] = Inr []"
| "serialize_all s ((k, a) # rest) =
     bind_outcome (deref s a) (\<lambda>ob.
     bind_outcome (serialize_all s rest) (\<lambda>cs. Inr (obj_serialize ob @ cs)))"

definition app_serialize_all :: "resource_type \<Rightarrow> app \<Rightarrow> wcall list outcome" where
  "app_serialize_all rt s =
     bind_outcome (serialize_all s (db s rt)) (\<lambda>cs.
       Inr ([StartObject, WString (rtype_to_label_plural rt), StartArray] @ cs @ [EndArray, EndObject]))"

definition app_serialize :: "resource_type \<Rightarrow> string \<Rightarrow> ae \<Rightarrow> app \<Rightarrow> (bool \<times> wcall list \<times> ae) outcome" where
  "app_serialize rt rname ae s =
     (case sm_get (db s rt) rname of
        None \<Rightarrow> Inr (False, [], ae_add 404 (rtype_to_label rt @ '' does not exist'') ae)
      | Some a \<Rightarrow> bind_outcome (deref s a) (\<lambda>ob. Inr (True, obj_serialize ob, ae)))"

section \<open>Adding\<close>

text \<open>
  What a new NodeB is sent: a slice status request, and a subscription to KPM reports (RAN
  function 0) with the default trigger and one report action.
\<close>

definition greet_nodeb :: "env \<Rightarrow> string \<Rightarrow> app \<Rightarrow> app" where
  "greet_nodeb E rname s =
     (let s1 = app_control E (SliceStatusRequest []) rname s;
          (iid, s2) = get_next_instance_id s1;
          req = (SubscriptionRequest (requestor_id s2) iid 0 (Some kpm_trigger_default)
                   [\<lparr>ac_id = 1, ac_type = ACTION_REPORT, ac_definition = None,
                     ac_subsequent_action = -1\<rparr>])\<lparr>sr_meid := rname\<rparr>
      in snd (send_subscription_request E (send_message E) s2 req rname))"

definition app_add ::
    "env \<Rightarrow> resource_type \<Rightarrow> addr \<Rightarrow> ae \<Rightarrow> app \<Rightarrow> (bool \<times> wcall list \<times> ae \<times> app) outcome" where
  "app_add E rt a ae s =
     bind_outcome (deref s a) (\<lambda>ob.
       let rname = obj_name ob in
       if sm_has (db s rt) rname
       then Inr (False, [], ae_add 403 (rtype_to_label rt @ '' already exists'') ae, s)
       else
         let s1 = s\<lparr>db := (db s)(rt := sm_put (db s rt) rname a)\<rparr>;
             s2 = (if rt = NodeBResource then greet_nodeb E rname s1 else s1)
         in Inr (True, obj_serialize ob, ae, s2))"

section \<open>Deleting\<close>

text \<open>The UE branch: \<open>Inl\<close> is the early return with an error.\<close>

definition del_ue_part :: "env \<Rightarrow> addr \<Rightarrow> ae \<Rightarrow> app \<Rightarrow> (ae + app) outcome" where
  "del_ue_part E a ae s =
     bind_outcome (get_ue s a) (\<lambda>u.
       if is_bound u \<and> sm_has (db s SliceResource) (bound_slice u)
       then
         (case sm_get (db s SliceResource) (bound_slice u) of
            None \<Rightarrow> Inl NullDeref
          | Some sa \<Rightarrow>
              bind_outcome (get_slice s sa) (\<lambda>sl.
              let (ok, sl') = slice_unbind_ue sl (imsi u) in
              if \<not> ok then Inr (Inl (ae_add 404 ''ue not bound to this slice'' ae))
              else bind_outcome
                     (push_bound E (bound_slice u) (SliceUeUnbindRequest (bound_slice u) [imsi u])
                        (db s NodeBResource) (set_obj sa (ObjSlice sl') s))
                     (\<lambda>s'. Inr (Inr s'))))
       else Inr (Inr s))"

text \<open>\<open>unbind_all_ues\<close> follows the stored subscriber pointers.\<close>

fun unbind_all :: "(string \<times> addr) list \<Rightarrow> app \<Rightarrow> app outcome" where
  "unbind_all [] s = Inr s"
| "unbind_all ((i, p) # rest) s =
     bind_outcome (get_ue s p) (\<lambda>u. unbind_all rest (set_obj p (ObjUe (snd (ue_unbind_slice u))) s))"

definition unbind_all_ues :: "addr \<Rightarrow> app \<Rightarrow> app outcome" where
  "unbind_all_ues a s =
     bind_outcome (get_slice s a) (\<lambda>sl.
     bind_outcome (unbind_all (s_ues sl) s) (\<lambda>s1.
     bind_outcome (get_slice s1 a) (\<lambda>sl1. Inr (set_obj a (ObjSlice (sl1\<lparr>s_ues := []\<rparr>)) s1))))"

definition del_slice_part :: "env \<Rightarrow> string \<Rightarrow> addr \<Rightarrow> app \<Rightarrow> app outcome" where
  "del_slice_part E rname a s =
     bind_outcome (push_bound E rname (SliceDeleteRequest [rname]) (db s NodeBResource) s) (\<lambda>s1.
     unbind_all_ues a s1)"

definition del_nodeb_part :: "env \<Rightarrow> string \<Rightarrow> addr \<Rightarrow> app \<Rightarrow> app outcome" where
  "del_nodeb_part E rname a s =
     bind_outcome (get_nodeb s a) (\<lambda>nb.
       let s1 = (if nb_slices nb \<noteq> []
                 then app_control E (SliceDeleteRequest (map fst (nb_slices nb))) (nb_name nb) s else s)
       in Inr (snd (delete_all_subscriptions E (send_message E) s1 rname)))"

definition delete_entry :: "resource_type \<Rightarrow> string \<Rightarrow> addr \<Rightarrow> app \<Rightarrow> app outcome" where
  "delete_entry rt rname a s =
     bind_outcome (deref s a) (\<lambda>_.
       Inr (s\<lparr>heap := (heap s)(a := None), db := (db s)(rt := sm_erase (db s rt) rname)\<rparr>))"

definition app_del :: "env \<Rightarrow> resource_type \<Rightarrow> string \<Rightarrow> ae \<Rightarrow> app \<Rightarrow> (bool \<times> ae \<times> app) outcome" where
  "app_del E rt rname ae s =
     (case sm_get (db s rt) rname of
        None \<Rightarrow> Inr (False, ae_add 404 ''not found'' ae, s)
      | Some a \<Rightarrow>
          bind_outcome
            (case rt of
               UeResource \<Rightarrow> del_ue_part E a ae s
             | SliceResource \<Rightarrow> bind_outcome (del_slice_part E rname a s) (\<lambda>s1. Inr (Inr s1))
             | NodeBResource \<Rightarrow> bind_outcome (del_nodeb_part E rname a s) (\<lambda>s1. Inr (Inr s1)))
            (\<lambda>r. case r of
                   Inl ae1 \<Rightarrow> Inr (False, ae1, s)
                 | Inr s1 \<Rightarrow> bind_outcome (delete_entry rt rname a s1) (\<lambda>s2. Inr (True, ae, s2))))"

section \<open>Updating\<close>

definition app_update :: "env \<Rightarrow> resource_type \<Rightarrow> string \<Rightarrow> json \<Rightarrow> ae \<Rightarrow> app \<Rightarrow> (bool \<times> ae \<times> app) outcome" where
  "app_update E rt rname d ae s =
     (case sm_get (db s rt) rname of
        None \<Rightarrow> Inr (False, ae_add 404 ''not found'' ae, s)
      | Some a \<Rightarrow>
          bind_outcome (deref s a) (\<lambda>ob.
          bind_outcome (obj_update d ae ob) (\<lambda>(ok, ae1, ob1).
            let s1 = set_obj a ob1 s in
            if \<not> ok then Inr (False, ae1, s1)
            else if rt = SliceResource
            then
              bind_outcome (get_slice s1 a) (\<lambda>sl.
              bind_outcome
                (push_bound E rname (SliceConfigRequest [(s_name sl, share (allocation_policy sl))])
                   (db s1 NodeBResource) s1)
                (\<lambda>s2. Inr (True, ae1, s2)))
            else Inr (True, ae1, s1))))"

section \<open>Binding\<close>

definition bind_slice_nodeb :: "env \<Rightarrow> string \<Rightarrow> string \<Rightarrow> ae \<Rightarrow> app \<Rightarrow> (bool \<times> ae \<times> app) outcome" where
  "bind_slice_nodeb E slice_name nodeb_name ae s =
     (case sm_get (db s SliceResource) slice_name of
        None \<Rightarrow> Inr (False, ae_add 404 ''slice does not exist'' ae, s)
      | Some sa \<Rightarrow>
     (case sm_get (db s NodeBResource) nodeb_name of
        None \<Rightarrow> Inr (False, ae_add 404 ''nodeb does not exist'' ae, s)
      | Some na \<Rightarrow>
          bind_outcome (get_slice s sa) (\<lambda>sl.
          bind_outcome (get_nodeb s na) (\<lambda>nb.
            let (ok, nb') = nodeb_bind_slice nb (s_name sl) sa in
            if \<not> ok then Inr (False, ae_add 403 ''slice already bound to nodeb'' ae, s)
            else
              Inr (True, ae,
                   app_control E (SliceConfigRequest [(s_name sl, share (allocation_policy sl))])
                     (nb_name nb') (set_obj na (ObjNodeB nb') s))))))"

definition unbind_slice_nodeb :: "env \<Rightarrow> string \<Rightarrow> string \<Rightarrow> ae \<Rightarrow> app \<Rightarrow> (bool \<times> ae \<times> app) outcome" where
  "unbind_slice_nodeb E slice_name nodeb_name ae s =
     (if \<not> sm_has (db s SliceResource) slice_name
      then Inr (False, ae_add 404 ''slice does not exist'' ae, s)
      else case sm_get (db s NodeBResource) nodeb_name of
        None \<Rightarrow> Inr (False, ae_add 404 ''nodeb does not exist'' ae, s)
      | Some na \<Rightarrow>
          bind_outcome (get_nodeb s na) (\<lambda>nb.
            let (ok, nb') = nodeb_unbind_slice nb slice_name in
            if \<not> ok then Inr (False, ae_add 404 ''slice not bound to this nodeb'' ae, s)
            else
              Inr (True, ae,
                   app_control E (SliceDeleteRequest [slice_name]) (nb_name nb')
                     (set_obj na (ObjNodeB nb') s))))"

definition bind_ue_slice :: "env \<Rightarrow> string \<Rightarrow> string \<Rightarrow> ae \<Rightarrow> app \<Rightarrow> (bool \<times> ae \<times> app) outcome" where
  "bind_ue_slice E ue_imsi slice_name ae s =
     (case sm_get (db s SliceResource) slice_name of
        None \<Rightarrow> Inr (False, ae_add 404 ''slice does not exist'' ae, s)
      | Some sa \<Rightarrow>
     (case sm_get (db s UeResource) ue_imsi of
        None \<Rightarrow> Inr (False, ae_add 404 ''ue does not exist'' ae, s)
      | Some ua \<Rightarrow>
          bind_outcome (get_ue s ua) (\<lambda>u.
          bind_outcome (get_slice s sa) (\<lambda>sl.
            let (ok, sl') = slice_bind_ue sl (imsi u) ua in
            if is_bound u \<or> \<not> ok then Inr (False, ae_add 403 ''ue already bound to slice'' ae, s)
            else
              bind_outcome
                (push_bound E slice_name (SliceUeBindRequest (s_name sl) [imsi u]) (db s NodeBResource)
                   (set_obj ua (ObjUe (snd (ue_bind_slice u slice_name))) (set_obj sa (ObjSlice sl') s)))
                (\<lambda>s'. Inr (True, ae, s'))))))"

text \<open>\<open>unbind_ue_slice\<close> removes the subscriber from the slice; the subscriber itself is not touched.\<close>

definition unbind_ue_slice :: "env \<Rightarrow> string \<Rightarrow> string \<Rightarrow> ae \<Rightarrow> app \<Rightarrow> (bool \<times> ae \<times> app) outcome" where
  "unbind_ue_slice E ue_imsi slice_name ae s =
     (case sm_get (db s SliceResource) slice_name of
        None \<Rightarrow> Inr (False, ae_add 404 ''slice does not exist'' ae, s)
      | Some sa \<Rightarrow>
          if \<not> sm_has (db s UeResource) ue_imsi
          then Inr (False, ae_add 404 ''ue does not exist'' ae, s)
          else
            bind_outcome (get_slice s sa) (\<lambda>sl.
              let (ok, sl') = slice_unbind_ue sl ue_imsi in
              if \<not> ok then Inr (False, ae_add 404 ''ue not bound to this slice'' ae, s)
              else
                bind_outcome
                  (push_bound E slice_name (SliceUeUnbindRequest (s_name sl) [ue_imsi])
                     (db s NodeBResource) (set_obj sa (ObjSlice sl') s))
                  (\<lambda>s'. Inr (True, ae, s'))))"

text \<open>\<open>App::init\<close>: the default slice, with the one-argument constructor of \<open>Slice\<close>.\<close>

definition app_init :: "app \<Rightarrow> app" where
  "app_init s =
     (let (a, s1) = app_alloc (ObjSlice (Slice1 ''default'')) s
      in s1\<lparr>db := (db s1)(SliceResource := sm_put (db s1 SliceResource) ''default'' a)\<rparr>)"

end
