(* ===== verification/App_Invariant.thy ===== *)
theory App_Invariant
  imports App_Ops
begin

text \<open>
  The invariant of the application: every entry of the resource tables points to a live object of
  the table's class stored under its own name, and every subscriber pointer of a slice leads to a
  live subscriber that is registered and bound to that slice. The operations of \<^theory_text>\<open>App_Ops\<close> preserve
  it and never follow a dangling pointer or make a bad cast.
\<close>

section \<open>The invariant\<close>

definition slice_ok :: "resource_db \<Rightarrow> obj_heap \<Rightarrow> slice \<Rightarrow> bool" where
  "slice_ok d h sl \<longleftrightarrow> sm_wf (s_ues sl) \<and> throttling_inv (allocation_policy sl) \<and>
     (\<forall>i p. sm_get (s_ues sl) i = Some p \<longrightarrow>
        s_name sl \<noteq> [] \<and> sm_get (d UeResource) i = Some p \<and>
        (\<exists>u. h p = Some (ObjUe u) \<and> bound_slice u = s_name sl))"

fun obj_ok :: "resource_db \<Rightarrow> obj_heap \<Rightarrow> obj \<Rightarrow> bool" where
  "obj_ok d h (ObjNodeB nb) = sm_wf (nb_slices nb)"
| "obj_ok d h (ObjSlice sl) = slice_ok d h sl"
| "obj_ok d h (ObjUe u) = True"

definition entry_okay :: "resource_db \<Rightarrow> obj_heap \<Rightarrow> resource_type \<Rightarrow> string \<Rightarrow> addr \<Rightarrow> bool" where
  "entry_okay d h rt k a \<longleftrightarrow>
     (\<exists>ob. h a = Some ob \<and> obj_type ob = rt \<and> obj_name ob = k \<and> obj_ok d h ob)"

definition store_ok :: "resource_db \<Rightarrow> obj_heap \<Rightarrow> addr \<Rightarrow> bool" where
  "store_ok d h n \<longleftrightarrow> (\<forall>rt. sm_wf (d rt)) \<and> (\<forall>a \<ge> n. h a = None) \<and>
     (\<forall>rt k a. sm_get (d rt) k = Some a \<longrightarrow> entry_okay d h rt k a)"

definition wf_app :: "app \<Rightarrow> bool" where
  "wf_app s \<longleftrightarrow> tables_wf s \<and> store_ok (db s) (heap s) (next_addr s)"

lemma wf_same_store: "wf_app s \<Longrightarrow> same_store s s' \<Longrightarrow> tables_wf s' \<Longrightarrow> wf_app s'"
  by (simp add: wf_app_def same_store_def)

lemma store_ok_entry:
  assumes "store_ok d h n" "sm_get (d rt) k = Some a"
  obtains ob where "h a = Some ob" "obj_type ob = rt" "obj_name ob = k" "obj_ok d h ob"
proof -
  have "entry_okay d h rt k a" using assms by (simp add: store_ok_def)
  then show thesis using that by (auto simp: entry_okay_def)
qed

lemma store_ok_below: "store_ok d h n \<Longrightarrow> h a \<noteq> None \<Longrightarrow> a < n"
  by (meson not_le store_ok_def)

lemma store_ok_inj:
  assumes "store_ok d h n" "sm_get (d rt) k = Some a" "sm_get (d rt') k' = Some a"
  shows "rt = rt' \<and> k = k'"
  by (rule store_ok_entry [OF assms(1,2)], rule store_ok_entry [OF assms(1,3)]) simp

section \<open>Changes of the store\<close>

text \<open>Changing one object: same class, same name; a subscriber keeps its slice unless it had none.\<close>

lemma slice_ok_heap:
  assumes "slice_ok d h sl" "h a = Some ob"
    and "\<And>u. ob = ObjUe u \<Longrightarrow> bound_slice u \<noteq> [] \<Longrightarrow> \<exists>u'. ob' = ObjUe u' \<and> bound_slice u' = bound_slice u"
  shows "slice_ok d (h(a := Some ob')) sl"
  unfolding slice_ok_def
proof (intro conjI allI impI)
  fix i p assume "sm_get (s_ues sl) i = Some p"
  with assms(1) obtain u where u: "s_name sl \<noteq> []" "sm_get (d UeResource) i = Some p"
    "h p = Some (ObjUe u)" "bound_slice u = s_name sl"
    by (auto simp: slice_ok_def)
  show "s_name sl \<noteq> []" "sm_get (d UeResource) i = Some p" using u by simp_all
  show "\<exists>u. (h(a := Some ob')) p = Some (ObjUe u) \<and> bound_slice u = s_name sl"
    using u assms(2,3) by (cases "p = a") auto
qed (use assms(1) in \<open>simp_all add: slice_ok_def\<close>)

lemma obj_ok_heap:
  assumes "obj_ok d h x" "h a = Some ob"
    and "\<And>u. ob = ObjUe u \<Longrightarrow> bound_slice u \<noteq> [] \<Longrightarrow> \<exists>u'. ob' = ObjUe u' \<and> bound_slice u' = bound_slice u"
  shows "obj_ok d (h(a := Some ob')) x"
proof (cases x)
  case (ObjSlice sl)
  have "slice_ok d (h(a := Some ob')) sl"
    by (rule slice_ok_heap [of d h sl a ob ob'])
       (use assms ObjSlice in \<open>simp_all\<close>)
  then show ?thesis using ObjSlice by simp
qed (use assms in simp_all)

lemma store_ok_set:
  assumes ok: "store_ok d h n" and a: "h a = Some ob"
    and same: "obj_type ob' = obj_type ob" "obj_name ob' = obj_name ob"
    and bound: "\<And>u. ob = ObjUe u \<Longrightarrow> bound_slice u \<noteq> [] \<Longrightarrow> \<exists>u'. ob' = ObjUe u' \<and> bound_slice u' = bound_slice u"
    and ob': "obj_ok d (h(a := Some ob')) ob'"
  shows "store_ok d (h(a := Some ob')) n"
  unfolding store_ok_def
proof (intro conjI allI impI)
  show "sm_wf (d rt)" for rt using ok by (simp add: store_ok_def)
  show "(h(a := Some ob')) b = None" if "n \<le> b" for b
    using ok a that by (auto simp: store_ok_def)
  fix rt k b assume "sm_get (d rt) k = Some b"
  from store_ok_entry [OF ok this] obtain x where
    x: "h b = Some x" "obj_type x = rt" "obj_name x = k" "obj_ok d h x" .
  show "entry_okay d (h(a := Some ob')) rt k b"
  proof (cases "b = a")
    case True
    then show ?thesis using x a same ob' by (auto simp: entry_okay_def)
  next
    case False
    have "obj_ok d (h(a := Some ob')) x"
      by (rule obj_ok_heap [of d h x a ob ob', OF x(4) a]) (use bound in blast)
    then show ?thesis using False x by (auto simp: entry_okay_def)
  qed
qed

lemma store_ok_alloc:
  assumes ok: "store_ok d h n"
  shows "store_ok d (h(n := Some ob)) (Suc n)"
  unfolding store_ok_def
proof (intro conjI allI impI)
  show "sm_wf (d rt)" for rt using ok by (simp add: store_ok_def)
  show "(h(n := Some ob)) b = None" if "Suc n \<le> b" for b
    using ok that by (auto simp: store_ok_def)
  have n: "h n = None" using ok by (auto simp: store_ok_def)
  fix rt k b assume "sm_get (d rt) k = Some b"
  from store_ok_entry [OF ok this] obtain x where
    x: "h b = Some x" "obj_type x = rt" "obj_name x = k" "obj_ok d h x" .
  have "b \<noteq> n" using x n by auto
  moreover have "obj_ok d (h(n := Some ob)) x"
    using x(4) n by (cases x) (fastforce simp: slice_ok_def)+
  ultimately show "entry_okay d (h(n := Some ob)) rt k b" using x by (auto simp: entry_okay_def)
qed

text \<open>A fresh object: what the three \<open>create\<close> functions return.\<close>

fun fresh_obj :: "obj \<Rightarrow> bool" where
  "fresh_obj (ObjNodeB nb) = (nb_slices nb = [])"
| "fresh_obj (ObjSlice sl) = (s_ues sl = [] \<and> throttling_inv (allocation_policy sl))"
| "fresh_obj (ObjUe u) = (bound_slice u = [])"

lemma fresh_obj_ok: "fresh_obj ob \<Longrightarrow> obj_ok d h ob"
  by (cases ob) (auto simp: slice_ok_def)

lemma store_ok_add:
  assumes ok: "store_ok d h n" and new: "sm_get (d rt) (obj_name ob) = None"
    and ob: "h a = Some ob" "obj_type ob = rt" "fresh_obj ob"
  shows "store_ok (d(rt := sm_put (d rt) (obj_name ob) a)) h n"
  unfolding store_ok_def
proof (intro conjI allI impI)
  let ?d = "d(rt := sm_put (d rt) (obj_name ob) a)"
  have wf: "sm_wf (d rt)" for rt using ok by (simp add: store_ok_def)
  show "sm_wf (?d rt')" for rt' using wf by simp
  show "h b = None" if "n \<le> b" for b using ok that by (simp add: store_ok_def)
  fix rt' k b assume g: "sm_get (?d rt') k = Some b"
  show "entry_okay ?d h rt' k b"
  proof (cases "rt' = rt \<and> k = obj_name ob")
    case True
    then show ?thesis using g ob fresh_obj_ok by (auto simp: entry_okay_def)
  next
    case False
    then have "sm_get (d rt') k = Some b" using g by (auto split: if_splits)
    from store_ok_entry [OF ok this] obtain x where
      x: "h b = Some x" "obj_type x = rt'" "obj_name x = k" "obj_ok d h x" .
    have "obj_ok ?d h x" using x(4) new by (cases x) (auto simp: slice_ok_def)
    then show ?thesis using x by (auto simp: entry_okay_def)
  qed
qed

text \<open>Deleting an object no slice points to.\<close>

definition unreferenced :: "resource_db \<Rightarrow> obj_heap \<Rightarrow> addr \<Rightarrow> bool" where
  "unreferenced d h a \<longleftrightarrow>
     (\<forall>k b sl i. sm_get (d SliceResource) k = Some b \<longrightarrow> b \<noteq> a \<longrightarrow> h b = Some (ObjSlice sl) \<longrightarrow> sm_get (s_ues sl) i \<noteq> Some a)"

lemma store_ok_delete:
  assumes ok: "store_ok d h n" and a: "sm_get (d rt) k = Some a" and un: "unreferenced d h a"
  shows "store_ok (d(rt := sm_erase (d rt) k)) (h(a := None)) n"
  unfolding store_ok_def
proof (intro conjI allI impI)
  let ?d = "d(rt := sm_erase (d rt) k)" and ?h = "h(a := None)"
  have wf: "sm_wf (d rt)" for rt using ok by (simp add: store_ok_def)
  show "sm_wf (?d rt')" for rt' using wf by simp
  show "?h b = None" if "n \<le> b" for b using ok that by (simp add: store_ok_def)
  fix rt' k' b assume g: "sm_get (?d rt') k' = Some b"
  then have g': "sm_get (d rt') k' = Some b" "rt' = rt \<Longrightarrow> k' \<noteq> k"
    using wf by (auto split: if_splits)
  from store_ok_entry [OF ok g'(1)] obtain x where
    x: "h b = Some x" "obj_type x = rt'" "obj_name x = k'" "obj_ok d h x" .
  have ba: "b \<noteq> a" using store_ok_inj [OF ok a, of rt' k'] g' by blast
  have "obj_ok ?d ?h x"
  proof (cases x)
    case (ObjSlice sl)
    have "slice_ok ?d ?h sl"
      unfolding slice_ok_def
    proof (intro conjI allI impI)
      have so: "slice_ok d h sl" using x(4) ObjSlice by simp
      then show "sm_wf (s_ues sl)" "throttling_inv (allocation_policy sl)" by (simp_all add: slice_ok_def)
      fix i p assume i: "sm_get (s_ues sl) i = Some p"
      with so obtain u where u: "s_name sl \<noteq> []" "sm_get (d UeResource) i = Some p"
        "h p = Some (ObjUe u)" "bound_slice u = s_name sl" by (auto simp: slice_ok_def)
      have "sm_get (d SliceResource) k' = Some b" using g' x ObjSlice by auto
      then have pa: "p \<noteq> a" using un i x(1) ObjSlice ba by (auto simp: unreferenced_def)
      show "s_name sl \<noteq> []" by (rule u)
      show "sm_get (?d UeResource) i = Some p"
        using u(2) a wf pa by (cases "rt = UeResource \<and> i = k") auto
      show "\<exists>u. ?h p = Some (ObjUe u) \<and> bound_slice u = s_name sl" using u pa by auto
    qed
    then show ?thesis using ObjSlice by simp
  qed (use x in simp_all)
  then show "entry_okay ?d ?h rt' k' b" using x ba by (auto simp: entry_okay_def)
qed

lemma store_ok_free:
  assumes ok: "store_ok d h n" and un: "\<And>rt k. sm_get (d rt) k \<noteq> Some a"
  shows "store_ok d (h(a := None)) n"
  unfolding store_ok_def
proof (intro conjI allI impI)
  show "sm_wf (d rt)" for rt using ok by (simp add: store_ok_def)
  show "(h(a := None)) b = None" if "n \<le> b" for b using ok that by (simp add: store_ok_def)
  fix rt k b assume g: "sm_get (d rt) k = Some b"
  from store_ok_entry [OF ok g] obtain x where
    x: "h b = Some x" "obj_type x = rt" "obj_name x = k" "obj_ok d h x" .
  have "obj_ok d (h(a := None)) x"
    using x(4) un by (cases x) (fastforce simp: slice_ok_def)+
  then show "entry_okay d (h(a := None)) rt k b" using x un g by (auto simp: entry_okay_def)
qed

section \<open>Access through the tables\<close>

lemma wf_nodebs:
  "wf_app s \<Longrightarrow> \<forall>(k, a) \<in> set (db s NodeBResource). \<exists>nb. heap s a = Some (ObjNodeB nb)"
proof -
  assume w: "wf_app s"
  then have ok: "store_ok (db s) (heap s) (next_addr s)" and wf: "sm_wf (db s NodeBResource)"
    by (auto simp: wf_app_def store_ok_def)
  show ?thesis
  proof (clarsimp)
    fix k a assume "(k, a) \<in> set (db s NodeBResource)"
    with wf have "sm_get (db s NodeBResource) k = Some a" by (simp add: sm_get_in_set)
    from store_ok_entry [OF ok this] show "\<exists>nb. heap s a = Some (ObjNodeB nb)"
      by (metis obj.exhaust obj_type.simps resource_type.distinct)
  qed
qed

lemma wf_push:
  assumes "wf_app s"
  obtains s' where "push_bound E name c (db s NodeBResource) s = Inr s'" "same_store s s'" "wf_app s'"
  using push_bound_ok [OF wf_nodebs [OF assms]] assms wf_same_store
  by (metis wf_app_def)

lemma wf_slice_entry:
  assumes "wf_app s" "sm_get (db s SliceResource) k = Some a"
  obtains sl where "heap s a = Some (ObjSlice sl)" "s_name sl = k" "slice_ok (db s) (heap s) sl"
proof -
  have "store_ok (db s) (heap s) (next_addr s)" using assms by (simp add: wf_app_def)
  from store_ok_entry [OF this assms(2)] obtain ob where
    ob: "heap s a = Some ob" "obj_type ob = SliceResource" "obj_name ob = k" "obj_ok (db s) (heap s) ob" .
  then show thesis using that by (cases ob) auto
qed

lemma wf_ue_entry:
  assumes "wf_app s" "sm_get (db s UeResource) k = Some a"
  obtains u where "heap s a = Some (ObjUe u)" "imsi u = k"
proof -
  have "store_ok (db s) (heap s) (next_addr s)" using assms by (simp add: wf_app_def)
  from store_ok_entry [OF this assms(2)] obtain ob where
    ob: "heap s a = Some ob" "obj_type ob = UeResource" "obj_name ob = k" .
  then show thesis using that by (cases ob) auto
qed

lemma wf_nodeb_entry:
  assumes "wf_app s" "sm_get (db s NodeBResource) k = Some a"
  obtains nb where "heap s a = Some (ObjNodeB nb)" "nb_name nb = k" "sm_wf (nb_slices nb)"
proof -
  have "store_ok (db s) (heap s) (next_addr s)" using assms by (simp add: wf_app_def)
  from store_ok_entry [OF this assms(2)] obtain ob where
    ob: "heap s a = Some ob" "obj_type ob = NodeBResource" "obj_name ob = k" "obj_ok (db s) (heap s) ob" .
  then show thesis using that by (cases ob) auto
qed

text \<open>Storing a changed object back.\<close>

lemma wf_set_obj:
  assumes "wf_app s" "heap s a = Some ob" "obj_type ob' = obj_type ob" "obj_name ob' = obj_name ob"
    and "\<And>u. ob = ObjUe u \<Longrightarrow> bound_slice u \<noteq> [] \<Longrightarrow> \<exists>u'. ob' = ObjUe u' \<and> bound_slice u' = bound_slice u"
    and "obj_ok (db s) ((heap s)(a := Some ob')) ob'"
  shows "wf_app (set_obj a ob' s)"
proof -
  have "store_ok (db s) (heap s) (next_addr s)" using assms(1) by (simp add: wf_app_def)
  from store_ok_set [OF this assms(2-4) _ assms(6)] assms(5)
  have "store_ok (db s) ((heap s)(a := Some ob')) (next_addr s)" by blast
  moreover have "tables_wf (set_obj a ob' s)"
    using assms(1) by (simp add: wf_app_def tables_wf_def set_obj_def)
  ultimately show ?thesis by (simp add: wf_app_def set_obj_def)
qed

lemma set_obj_simps [simp]:
  "db (set_obj a ob s) = db s" "next_addr (set_obj a ob s) = next_addr s"
  "heap (set_obj a ob s) = (heap s)(a := Some ob)"
  by (simp_all add: set_obj_def)

lemma wf_set_nodeb:
  "wf_app s \<Longrightarrow> heap s a = Some (ObjNodeB nb) \<Longrightarrow> nb_name nb' = nb_name nb \<Longrightarrow> sm_wf (nb_slices nb') \<Longrightarrow>
     wf_app (set_obj a (ObjNodeB nb') s)"
  by (rule wf_set_obj [where ob = "ObjNodeB nb"]) simp_all

text \<open>A slice whose pointers are still among the old ones.\<close>

lemma slice_ok_shrink:
  "slice_ok d h sl \<Longrightarrow> s_name sl' = s_name sl \<Longrightarrow> sm_wf (s_ues sl') \<Longrightarrow>
     throttling_inv (allocation_policy sl') \<Longrightarrow>
     (\<And>i p. sm_get (s_ues sl') i = Some p \<Longrightarrow> sm_get (s_ues sl) i = Some p) \<Longrightarrow> slice_ok d h sl'"
  unfolding slice_ok_def by metis

lemma wf_set_slice:
  assumes "wf_app s" "heap s a = Some (ObjSlice sl)" "slice_ok (db s) (heap s) sl"
    and "s_name sl' = s_name sl" "sm_wf (s_ues sl')" "throttling_inv (allocation_policy sl')"
    and "\<And>i p. sm_get (s_ues sl') i = Some p \<Longrightarrow> sm_get (s_ues sl) i = Some p"
  shows "wf_app (set_obj a (ObjSlice sl') s)"
proof (rule wf_set_obj [OF assms(1,2)])
  have "slice_ok (db s) (heap s) sl'" by (rule slice_ok_shrink [OF assms(3-6)]) (rule assms(7))
  then have "slice_ok (db s) ((heap s)(a := Some (ObjSlice sl'))) sl'"
    by (rule slice_ok_heap [where ob = "ObjSlice sl"]) (use assms in simp_all)
  then show "obj_ok (db s) ((heap s)(a := Some (ObjSlice sl'))) (ObjSlice sl')" by simp
qed (use assms in simp_all)

end
