(* ===== verification/App_Safety.thy ===== *)
theory App_Safety
  imports App_Invariant
begin

text \<open>
  The operations of the application preserve the invariant and complete: the only fault an operation
  may meet is a JSON value of the wrong kind in the update of a subscriber.
\<close>

section \<open>Adding\<close>

lemma greet_nodeb_store: "same_store s (greet_nodeb E rname s)"
  unfolding greet_nodeb_def Let_def split_beta
  by (rule same_store_trans [OF app_control_store
        same_store_trans [OF get_next_instance_id_store send_subscription_store]])

lemma greet_nodeb_tables: "tables_wf s \<Longrightarrow> tables_wf (greet_nodeb E rname s)"
  unfolding greet_nodeb_def Let_def split_beta
  by (rule app_agent.subscription_tables_wf)
     (use fresh_id [OF app_control_tables [of s E "SliceStatusRequest []" rname]]
      in \<open>auto simp: SubscriptionRequest_def get_next_instance_id_def\<close>)

lemma wf_add_entry:
  assumes "wf_app s" "heap s a = Some ob" "obj_type ob = rt" "fresh_obj ob"
    and "sm_get (db s rt) (obj_name ob) = None"
  shows "wf_app (s\<lparr>db := (db s)(rt := sm_put (db s rt) (obj_name ob) a)\<rparr>)"
proof -
  have "store_ok ((db s)(rt := sm_put (db s rt) (obj_name ob) a)) (heap s) (next_addr s)"
    using assms by (intro store_ok_add) (simp_all add: wf_app_def)
  then show ?thesis using assms(1) by (simp add: wf_app_def tables_wf_def)
qed

lemma app_add_effect:
  assumes w: "wf_app s" and a: "heap s a = Some ob" "obj_type ob = rt" "fresh_obj ob"
  shows "\<exists>s'. app_add E rt a ae s =
      (if sm_has (db s rt) (obj_name ob)
       then Inr (False, [], ae_add 403 (rtype_to_label rt @ '' already exists'') ae, s)
       else Inr (True, obj_serialize ob, ae, s')) \<and>
      (\<not> sm_has (db s rt) (obj_name ob) \<longrightarrow>
         wf_app s' \<and> db s' = (db s)(rt := sm_put (db s rt) (obj_name ob) a) \<and> heap s' = heap s)"
proof (cases "sm_has (db s rt) (obj_name ob)")
  case True
  then show ?thesis using a by (simp add: app_add_def deref_def Let_def)
next
  case False
  define s1 where "s1 = s\<lparr>db := (db s)(rt := sm_put (db s rt) (obj_name ob) a)\<rparr>"
  define s2 where "s2 = (if rt = NodeBResource then greet_nodeb E (obj_name ob) s1 else s1)"
  have "sm_get (db s rt) (obj_name ob) = None" using False by (auto simp: sm_has_iff)
  from wf_add_entry [OF w a this] have w1: "wf_app s1" by (simp add: s1_def)
  have st: "same_store s1 s2" by (simp add: s2_def greet_nodeb_store)
  have "tables_wf s1" using w1 by (simp add: wf_app_def)
  then have "tables_wf s2" using greet_nodeb_tables by (simp add: s2_def)
  from wf_same_store [OF w1 st this] have "wf_app s2" .
  moreover have "app_add E rt a ae s = Inr (True, obj_serialize ob, ae, s2)"
    using False a(1) by (simp add: app_add_def deref_def Let_def s1_def s2_def)
  ultimately show ?thesis using False st by (intro exI [of _ s2]) (simp add: same_store_def s1_def)
qed

section \<open>Binding\<close>

lemma bind_slice_nodeb_effect:
  assumes w: "wf_app s"
  shows "\<exists>b ae' s'. bind_slice_nodeb E slice_name nodeb_name ae s = Inr (b, ae', s') \<and> wf_app s' \<and>
           db s' = db s \<and> (\<not> b \<longrightarrow> s' = s)"
proof (cases "sm_get (db s SliceResource) slice_name")
  case None
  then show ?thesis using w by (auto simp: bind_slice_nodeb_def)
next
  case (Some sa)
  show ?thesis
  proof (cases "sm_get (db s NodeBResource) nodeb_name")
    case None
    then show ?thesis using Some w by (auto simp: bind_slice_nodeb_def)
  next
    case na: (Some na)
    from wf_slice_entry [OF w Some] obtain sl where sl: "heap s sa = Some (ObjSlice sl)" "s_name sl = slice_name" .
    from wf_nodeb_entry [OF w na] obtain nb where nb: "heap s na = Some (ObjNodeB nb)" "sm_wf (nb_slices nb)" .
    obtain ok nb' where ok: "nodeb_bind_slice nb (s_name sl) sa = (ok, nb')" by fastforce
    have nb': "nb_name nb' = nb_name nb" "sm_wf (nb_slices nb')"
      using nb ok by (auto simp: nodeb_bind_slice_def split: if_splits)
    from wf_set_nodeb [OF w nb(1) nb'] have w1: "wf_app (set_obj na (ObjNodeB nb') s)" .
    define s2 where "s2 = app_control E (SliceConfigRequest [(s_name sl, share (allocation_policy sl))])
        (nb_name nb') (set_obj na (ObjNodeB nb') s)"
    have st: "same_store (set_obj na (ObjNodeB nb') s) s2" by (simp add: s2_def app_control_store)
    have "wf_app s2"
      using wf_same_store [OF w1 st] w1 by (simp add: s2_def wf_app_def app_control_tables)
    moreover have "bind_slice_nodeb E slice_name nodeb_name ae s =
        (if ok then Inr (True, ae, s2) else Inr (False, ae_add 403 ''slice already bound to nodeb'' ae, s))"
      using Some na sl(1) nb(1) ok
      by (auto simp: bind_slice_nodeb_def get_slice_def get_nodeb_def deref_def s2_def)
    ultimately show ?thesis using w st by (cases ok) (auto simp: same_store_def)
  qed
qed

lemma unbind_slice_nodeb_effect:
  assumes w: "wf_app s"
  shows "\<exists>b ae' s'. unbind_slice_nodeb E slice_name nodeb_name ae s = Inr (b, ae', s') \<and> wf_app s' \<and>
           db s' = db s \<and> (\<not> b \<longrightarrow> s' = s)"
proof (cases "sm_has (db s SliceResource) slice_name")
  case False
  then show ?thesis using w by (auto simp: unbind_slice_nodeb_def)
next
  case True
  show ?thesis
  proof (cases "sm_get (db s NodeBResource) nodeb_name")
    case None
    then show ?thesis using True w by (auto simp: unbind_slice_nodeb_def)
  next
    case na: (Some na)
    from wf_nodeb_entry [OF w na] obtain nb where nb: "heap s na = Some (ObjNodeB nb)" "sm_wf (nb_slices nb)" .
    obtain ok nb' where ok: "nodeb_unbind_slice nb slice_name = (ok, nb')" by fastforce
    have nb': "nb_name nb' = nb_name nb" "sm_wf (nb_slices nb')"
      using nb ok by (auto simp: nodeb_unbind_slice_def split: if_splits)
    from wf_set_nodeb [OF w nb(1) nb'] have w1: "wf_app (set_obj na (ObjNodeB nb') s)" .
    define s2 where "s2 = app_control E (SliceDeleteRequest [slice_name]) (nb_name nb')
        (set_obj na (ObjNodeB nb') s)"
    have st: "same_store (set_obj na (ObjNodeB nb') s) s2" by (simp add: s2_def app_control_store)
    have "wf_app s2"
      using wf_same_store [OF w1 st] w1 by (simp add: s2_def wf_app_def app_control_tables)
    moreover have "unbind_slice_nodeb E slice_name nodeb_name ae s =
        (if ok then Inr (True, ae, s2) else Inr (False, ae_add 404 ''slice not bound to this nodeb'' ae, s))"
      using True na nb(1) ok
      by (auto simp: unbind_slice_nodeb_def get_nodeb_def deref_def s2_def)
    ultimately show ?thesis using w st by (cases ok) (auto simp: same_store_def)
  qed
qed

text \<open>The two updates of a binding: first the subscriber, which was free, then the slice.\<close>

lemma wf_bind_ue:
  assumes w: "wf_app s" and s: "sm_get (db s SliceResource) name = Some sa" "name \<noteq> []"
    and u: "sm_get (db s UeResource) i = Some ua" "heap s ua = Some (ObjUe u)" "\<not> is_bound u"
    and sl: "heap s sa = Some (ObjSlice sl)"
  shows "wf_app (set_obj ua (ObjUe (snd (ue_bind_slice u name)))
                  (set_obj sa (ObjSlice (sl\<lparr>s_ues := sm_put (s_ues sl) (imsi u) ua\<rparr>)) s))"
proof -
  let ?u = "ObjUe (snd (ue_bind_slice u name))"
  let ?sl = "ObjSlice (sl\<lparr>s_ues := sm_put (s_ues sl) (imsi u) ua\<rparr>)"
  have ne: "sa \<noteq> ua" using u(2) sl by auto
  have free: "bound_slice u = []" using u(3) by (simp add: is_bound_def)
  from wf_slice_entry [OF w s(1)] sl have name: "s_name sl = name" by auto
  from wf_ue_entry [OF w u(1)] u(2) have i: "imsi u = i" by auto
  have w1: "wf_app (set_obj ua ?u s)"
    by (rule wf_set_obj [OF w u(2)]) (use free in simp_all)
  have so: "slice_ok (db s) ((heap s)(ua := Some ?u)) sl"
    using wf_slice_entry [of "set_obj ua ?u s" name sa] w1 s(1) sl ne by (auto simp: set_obj_def)
  have "wf_app (set_obj sa ?sl (set_obj ua ?u s))"
  proof (rule wf_set_obj [OF w1, where ob = "ObjSlice sl"])
    show "heap (set_obj ua ?u s) sa = Some (ObjSlice sl)" using sl ne by simp
    have "slice_ok (db s) ((heap s)(ua := Some ?u)) (sl\<lparr>s_ues := sm_put (s_ues sl) (imsi u) ua\<rparr>)"
      using so name s(2) u(1) i free by (auto simp: slice_ok_def is_bound_def)
    then have "slice_ok (db s) ((heap s)(ua := Some ?u, sa := Some ?sl)) (sl\<lparr>s_ues := sm_put (s_ues sl) (imsi u) ua\<rparr>)"
      by (rule slice_ok_heap [where ob = "ObjSlice sl"]) (use sl ne in simp_all)
    then show "obj_ok (db (set_obj ua ?u s)) ((heap (set_obj ua ?u s))(sa := Some ?sl)) ?sl" by simp
  qed simp_all
  moreover have "set_obj sa ?sl (set_obj ua ?u s) = set_obj ua ?u (set_obj sa ?sl s)"
    using ne by (simp add: set_obj_def fun_upd_twist)
  ultimately show ?thesis by simp
qed

lemma bind_ue_slice_effect:
  assumes w: "wf_app s" and ne: "slice_name \<noteq> []"
  shows "\<exists>b ae' s'. bind_ue_slice E i slice_name ae s = Inr (b, ae', s') \<and> wf_app s' \<and>
           db s' = db s \<and> (\<not> b \<longrightarrow> s' = s)"
proof (cases "sm_get (db s SliceResource) slice_name")
  case None
  then show ?thesis using w by (auto simp: bind_ue_slice_def)
next
  case sa: (Some sa)
  show ?thesis
  proof (cases "sm_get (db s UeResource) i")
    case None
    then show ?thesis using sa w by (auto simp: bind_ue_slice_def)
  next
    case ua: (Some ua)
    from wf_slice_entry [OF w sa] obtain sl where sl: "heap s sa = Some (ObjSlice sl)" "s_name sl = slice_name" .
    from wf_ue_entry [OF w ua] obtain u where u: "heap s ua = Some (ObjUe u)" "imsi u = i" .
    have g: "get_slice s sa = Inr sl" "get_ue s ua = Inr u"
      using sl u by (simp_all add: get_slice_heap get_ue_heap)
    show ?thesis
    proof (cases "is_bound u \<or> sm_has (s_ues sl) (imsi u)")
      case True
      then have "bind_ue_slice E i slice_name ae s = Inr (False, ae_add 403 ''ue already bound to slice'' ae, s)"
        using sa ua g by (auto simp: bind_ue_slice_def slice_bind_ue_def)
      then show ?thesis using w by auto
    next
      case False
      let ?s1 = "set_obj ua (ObjUe (snd (ue_bind_slice u slice_name)))
                  (set_obj sa (ObjSlice (sl\<lparr>s_ues := sm_put (s_ues sl) (imsi u) ua\<rparr>)) s)"
      have "wf_app ?s1" using wf_bind_ue [OF w sa ne ua u(1) _ sl(1)] False by blast
      from wf_push [OF this, of E slice_name "SliceUeBindRequest (s_name sl) [imsi u]"] obtain s' where
        s': "push_bound E slice_name (SliceUeBindRequest (s_name sl) [imsi u]) (db ?s1 NodeBResource) ?s1 = Inr s'"
        "same_store ?s1 s'" "wf_app s'" .
      have "bind_ue_slice E i slice_name ae s = Inr (True, ae, s')"
        using sa ua g False s'(1) by (simp add: bind_ue_slice_def slice_bind_ue_def)
      then show ?thesis using s' by (auto simp: same_store_def)
    qed
  qed
qed

lemma wf_unbind_slot:
  assumes w: "wf_app s" and sl: "heap s sa = Some (ObjSlice sl)" "slice_ok (db s) (heap s) sl"
  shows "wf_app (set_obj sa (ObjSlice (sl\<lparr>s_ues := sm_erase (s_ues sl) i\<rparr>)) s)"
proof -
  have "sm_wf (s_ues sl)" using sl(2) by (simp add: slice_ok_def)
  then show ?thesis
    by (intro wf_set_slice [OF w sl]) (use sl(2) in \<open>auto simp: slice_ok_def split: if_splits\<close>)
qed

lemma unbind_ue_slice_effect:
  assumes w: "wf_app s"
  shows "\<exists>b ae' s'. unbind_ue_slice E i slice_name ae s = Inr (b, ae', s') \<and> wf_app s' \<and>
           db s' = db s \<and> (\<not> b \<longrightarrow> s' = s)"
proof (cases "sm_get (db s SliceResource) slice_name")
  case None
  then show ?thesis using w by (auto simp: unbind_ue_slice_def)
next
  case sa: (Some sa)
  show ?thesis
  proof (cases "sm_has (db s UeResource) i")
    case False
    then show ?thesis using sa w by (auto simp: unbind_ue_slice_def)
  next
    case ue: True
    from wf_slice_entry [OF w sa] obtain sl where
      sl: "heap s sa = Some (ObjSlice sl)" "s_name sl = slice_name" "slice_ok (db s) (heap s) sl" .
    have g: "get_slice s sa = Inr sl" using sl by (simp add: get_slice_heap)
    show ?thesis
    proof (cases "sm_has (s_ues sl) i")
      case False
      then show ?thesis using sa ue g w by (auto simp: unbind_ue_slice_def slice_unbind_ue_def)
    next
      case True
      let ?s1 = "set_obj sa (ObjSlice (sl\<lparr>s_ues := sm_erase (s_ues sl) i\<rparr>)) s"
      have "wf_app ?s1" by (rule wf_unbind_slot [OF w sl(1,3)])
      from wf_push [OF this, of E slice_name "SliceUeUnbindRequest (s_name sl) [i]"] obtain s' where
        s': "push_bound E slice_name (SliceUeUnbindRequest (s_name sl) [i]) (db ?s1 NodeBResource) ?s1 = Inr s'"
        "same_store ?s1 s'" "wf_app s'" .
      have "unbind_ue_slice E i slice_name ae s = Inr (True, ae, s')"
        using sa ue g True s'(1) by (simp add: unbind_ue_slice_def slice_unbind_ue_def)
      then show ?thesis using s' by (auto simp: same_store_def)
    qed
  qed
qed

section \<open>Deleting\<close>

lemma wf_delete_entry:
  assumes w: "wf_app s" and a: "sm_get (db s rt) k = Some a" and un: "unreferenced (db s) (heap s) a"
  shows "\<exists>s'. delete_entry rt k a s = Inr s' \<and> wf_app s' \<and> db s' = (db s)(rt := sm_erase (db s rt) k) \<and>
           heap s' = (heap s)(a := None)"
proof -
  have ok: "store_ok (db s) (heap s) (next_addr s)" using w by (simp add: wf_app_def)
  from store_ok_entry [OF ok a] obtain ob where "heap s a = Some ob" .
  moreover have "store_ok ((db s)(rt := sm_erase (db s rt) k)) ((heap s)(a := None)) (next_addr s)"
    by (rule store_ok_delete [OF ok a un])
  ultimately show ?thesis
    using w by (simp add: delete_entry_def deref_def wf_app_def tables_wf_def)
qed

text \<open>No slice points to an object that is not a subscriber.\<close>

lemma unreferenced_other:
  assumes "wf_app s" "heap s a = Some ob" "obj_type ob \<noteq> UeResource"
  shows "unreferenced (db s) (heap s) a"
  unfolding unreferenced_def
proof (intro allI impI notI)
  fix k b sl i
  assume b: "sm_get (db s SliceResource) k = Some b" "heap s b = Some (ObjSlice sl)"
    and i: "sm_get (s_ues sl) i = Some a"
  from wf_slice_entry [OF assms(1) b(1)] b(2) have "slice_ok (db s) (heap s) sl" by auto
  with i obtain u where "heap s a = Some (ObjUe u)" by (auto simp: slice_ok_def)
  with assms(2,3) show False by auto
qed

text \<open>A subscriber is pointed to by the slice it is bound to, under its own name, and by no other.\<close>

lemma references_of_ue:
  assumes w: "wf_app s" and u: "heap s a = Some (ObjUe u)"
    and b: "sm_get (db s SliceResource) k = Some b" "heap s b = Some (ObjSlice sl)"
    and i: "sm_get (s_ues sl) i = Some a"
  shows "k = bound_slice u \<and> i = imsi u \<and> is_bound u"
proof -
  from wf_slice_entry [OF w b(1)] b(2) have sl: "s_name sl = k" "slice_ok (db s) (heap s) sl" by auto
  with i obtain u' where "k \<noteq> []" "sm_get (db s UeResource) i = Some a"
    "heap s a = Some (ObjUe u')" "bound_slice u' = k"
    by (auto simp: slice_ok_def)
  with u have p: "k \<noteq> []" "sm_get (db s UeResource) i = Some a" "bound_slice u = k" by auto
  from wf_ue_entry [OF w p(2)] u have "imsi u = i" by auto
  with p show ?thesis by (auto simp: is_bound_def)
qed

lemma del_ue_part_effect:
  assumes w: "wf_app s" and a: "sm_get (db s UeResource) i = Some a"
  shows "(\<exists>ae'. del_ue_part E a ae s = Inr (Inl ae')) \<or>
    (\<exists>s'. del_ue_part E a ae s = Inr (Inr s') \<and> wf_app s' \<and> db s' = db s \<and>
       unreferenced (db s') (heap s') a)"
proof -
  from wf_ue_entry [OF w a] obtain u where u: "heap s a = Some (ObjUe u)" "imsi u = i" .
  have g: "get_ue s a = Inr u" using u by (simp add: get_ue_heap)
  show ?thesis
  proof (cases "is_bound u \<and> sm_has (db s SliceResource) (bound_slice u)")
    case False
    have "unreferenced (db s) (heap s) a"
      unfolding unreferenced_def
    proof (intro allI impI notI)
      fix k b sl j
      assume "sm_get (db s SliceResource) k = Some b" "heap s b = Some (ObjSlice sl)" "sm_get (s_ues sl) j = Some a"
      with references_of_ue [OF w u(1)] False show False by (auto simp: sm_has_iff)
    qed
    then show ?thesis using g False w by (auto simp: del_ue_part_def)
  next
    case True
    then obtain sa where sa: "sm_get (db s SliceResource) (bound_slice u) = Some sa" by (auto simp: sm_has_iff)
    from wf_slice_entry [OF w sa] obtain sl where
      sl: "heap s sa = Some (ObjSlice sl)" "s_name sl = bound_slice u" "slice_ok (db s) (heap s) sl" .
    have gs: "get_slice s sa = Inr sl" using sl by (simp add: get_slice_heap)
    show ?thesis
    proof (cases "sm_has (s_ues sl) (imsi u)")
      case False
      then show ?thesis using g gs True sa by (simp add: del_ue_part_def slice_unbind_ue_def)
    next
      case has: True
      let ?sl = "sl\<lparr>s_ues := sm_erase (s_ues sl) (imsi u)\<rparr>"
      let ?s1 = "set_obj sa (ObjSlice ?sl) s"
      have w1: "wf_app ?s1" by (rule wf_unbind_slot [OF w sl(1,3)])
      from wf_push [OF w1, of E "bound_slice u" "SliceUeUnbindRequest (bound_slice u) [imsi u]"] obtain s' where
        s': "push_bound E (bound_slice u) (SliceUeUnbindRequest (bound_slice u) [imsi u])
               (db ?s1 NodeBResource) ?s1 = Inr s'"
        "same_store ?s1 s'" "wf_app s'" .
      have e: "del_ue_part E a ae s = Inr (Inr s')"
        using g gs True sa has s'(1) by (simp add: del_ue_part_def slice_unbind_ue_def)
      have sawf: "sm_wf (s_ues sl)" using sl(3) by (simp add: slice_ok_def)
      have ua: "a \<noteq> sa" using u(1) sl(1) by auto
      have "unreferenced (db ?s1) (heap ?s1) a"
        unfolding unreferenced_def
      proof (intro allI impI notI)
        fix k b sl' j
        assume k: "sm_get (db ?s1 SliceResource) k = Some b" "heap ?s1 b = Some (ObjSlice sl')"
          "sm_get (s_ues sl') j = Some a"
        have "heap ?s1 a = Some (ObjUe u)" using u ua by simp
        from references_of_ue [OF w1 this k] have "k = bound_slice u" "j = imsi u" by simp_all
        with k sa sawf show False by auto
      qed
      then show ?thesis using e s' by (auto simp: same_store_def)
    qed
  qed
qed

text \<open>The loop of \<open>unbind_all_ues\<close> clears the binding of each subscriber of the slice.\<close>

lemma unbind_all_effect:
  assumes "\<forall>(i, p) \<in> set l. \<exists>u. heap s p = Some (ObjUe u)"
  shows "\<exists>s'. unbind_all l s = Inr s' \<and> db s' = db s \<and> next_addr s' = next_addr s \<and>
    e2ap.truncate s' = e2ap.truncate s \<and>
    (\<forall>a. heap s' a =
       (if a \<in> snd ` set l
        then (case heap s a of Some (ObjUe u) \<Rightarrow> Some (ObjUe (snd (ue_unbind_slice u))) | x \<Rightarrow> x)
        else heap s a))"
  using assms
proof (induction l arbitrary: s)
  case (Cons x l)
  obtain i p where x: "x = (i, p)" by fastforce
  obtain u where u: "heap s p = Some (ObjUe u)" using Cons.prems x by auto
  let ?s1 = "set_obj p (ObjUe (snd (ue_unbind_slice u))) s"
  have "\<forall>(i, q) \<in> set l. \<exists>u. heap ?s1 q = Some (ObjUe u)" using Cons.prems by auto
  from Cons.IH [OF this] obtain s' where s': "unbind_all l ?s1 = Inr s'" "db s' = db ?s1"
    "next_addr s' = next_addr ?s1" "e2ap.truncate s' = e2ap.truncate ?s1"
    "\<forall>a. heap s' a = (if a \<in> snd ` set l
        then (case heap ?s1 a of Some (ObjUe u) \<Rightarrow> Some (ObjUe (snd (ue_unbind_slice u))) | x \<Rightarrow> x)
        else heap ?s1 a)" by blast
  have idem: "snd (ue_unbind_slice (snd (ue_unbind_slice u))) = snd (ue_unbind_slice u)"
    by (simp add: ue_unbind_slice_def is_bound_def)
  have t: "e2ap.truncate ?s1 = e2ap.truncate s" by (simp add: set_obj_def e2ap.defs)
  have "unbind_all (x # l) s = Inr s'" using s'(1) u x by (simp add: get_ue_def deref_def)
  moreover have "heap s' a = (if a \<in> snd ` set (x # l)
        then (case heap s a of Some (ObjUe u) \<Rightarrow> Some (ObjUe (snd (ue_unbind_slice u))) | x \<Rightarrow> x)
        else heap s a)" for a
    using s'(5) u x idem by auto
  ultimately show ?case using s'(2-4) t by (intro exI [of _ s']) simp
qed simp

lemma unbind_all_outbox: "unbind_all l s = Inr s' \<Longrightarrow> outbox s' = outbox s"
proof (induction l arbitrary: s)
  case (Cons x l)
  obtain i p where x: "x = (i, p)" by fastforce
  with Cons.prems obtain u where "unbind_all l (set_obj p (ObjUe (snd (ue_unbind_slice u))) s) = Inr s'" by auto
  from Cons.IH [OF this] show ?case by (simp add: set_obj_def)
qed simp

lemma unbind_all_nodeb:
  "unbind_all l s = Inr s' \<Longrightarrow> heap s x = Some (ObjNodeB nb) \<Longrightarrow> heap s' x = Some (ObjNodeB nb)"
proof (induction l arbitrary: s)
  case (Cons y l)
  obtain i p where y: "y = (i, p)" by fastforce
  with Cons.prems(1) obtain u where u: "get_ue s p = Inr u"
    "unbind_all l (set_obj p (ObjUe (snd (ue_unbind_slice u))) s) = Inr s'" by auto
  have "p \<noteq> x" using u(1) Cons.prems(2) by (auto simp: get_ue_heap)
  then show ?case by (intro Cons.IH [OF u(2)]) (simp add: Cons.prems(2))
qed simp

lemma unbind_all_ues_effect:
  assumes w: "wf_app s" and a: "sm_get (db s SliceResource) k = Some a"
  shows "\<exists>s' sl. unbind_all_ues a s = Inr s' \<and> wf_app s' \<and> db s' = db s \<and>
    heap s a = Some (ObjSlice sl) \<and> heap s' a = Some (ObjSlice (sl\<lparr>s_ues := []\<rparr>)) \<and>
    (\<forall>p u. heap s p = Some (ObjUe u) \<longrightarrow>
       heap s' p = Some (ObjUe (if p \<in> snd ` set (s_ues sl) then snd (ue_unbind_slice u) else u)))"
proof -
  from wf_slice_entry [OF w a] obtain sl where
    sl: "heap s a = Some (ObjSlice sl)" "s_name sl = k" "slice_ok (db s) (heap s) sl" .
  let ?P = "snd ` set (s_ues sl)"
  have wfu: "sm_wf (s_ues sl)" using sl(3) by (simp add: slice_ok_def)
  have mem: "\<exists>u. heap s p = Some (ObjUe u) \<and> bound_slice u = k" if "p \<in> ?P" for p
    using that sl wfu by (auto simp: slice_ok_def sm_get_in_set)
  have "\<forall>(i, p) \<in> set (s_ues sl). \<exists>u. heap s p = Some (ObjUe u)"
    using mem by fastforce
  from unbind_all_effect [OF this] obtain s1 where s1: "unbind_all (s_ues sl) s = Inr s1" "db s1 = db s"
    "next_addr s1 = next_addr s" "e2ap.truncate s1 = e2ap.truncate s"
    "\<And>b. heap s1 b = (if b \<in> ?P
        then (case heap s b of Some (ObjUe u) \<Rightarrow> Some (ObjUe (snd (ue_unbind_slice u))) | x \<Rightarrow> x)
        else heap s b)" by blast
  have aP: "a \<notin> ?P" using mem [of a] sl(1) by auto
  then have a1: "heap s1 a = Some (ObjSlice sl)" using s1(5) sl(1) by simp
  define s' where "s' = set_obj a (ObjSlice (sl\<lparr>s_ues := []\<rparr>)) s1"
  have run: "unbind_all_ues a s = Inr s'"
    using sl(1) s1(1) a1 by (simp add: unbind_all_ues_def get_slice_def deref_def s'_def)
  have tab: "tables_wf s'"
    using w s1(4) by (simp add: s'_def wf_app_def tables_wf_def set_obj_def truncate_tables)
  have ok: "store_ok (db s) (heap s) (next_addr s)" using w by (simp add: wf_app_def)
  have "store_ok (db s) (heap s') (next_addr s)"
    unfolding store_ok_def
  proof (intro conjI allI impI)
    show "sm_wf (db s rt)" for rt using ok by (simp add: store_ok_def)
    show "heap s' b = None" if "next_addr s \<le> b" for b
    proof -
      have "heap s b = None" using ok that by (simp add: store_ok_def)
      moreover from this have "b \<noteq> a" "b \<notin> ?P" using sl(1) mem [of b] by auto
      ultimately show ?thesis by (simp add: s'_def s1(5))
    qed
    fix rt n b assume g: "sm_get (db s rt) n = Some b"
    from store_ok_entry [OF ok g] obtain x where
      x: "heap s b = Some x" "obj_type x = rt" "obj_name x = n" "obj_ok (db s) (heap s) x" .
    show "entry_okay (db s) (heap s') rt n b"
    proof (cases "b = a")
      case True
      have "slice_ok (db s) (heap s') (sl\<lparr>s_ues := []\<rparr>)" using sl(3) by (simp add: slice_ok_def)
      then show ?thesis using True x sl by (auto simp: entry_okay_def s'_def)
    next
      case ba: False
      show ?thesis
      proof (cases x)
        case (ObjSlice sl2)
        then have "b \<notin> ?P" using mem x(1) by fastforce
        then have b': "heap s' b = Some x" using ba x(1) by (simp add: s'_def s1(5))
        have "n \<noteq> k" using store_ok_inj [OF ok g, of SliceResource k] a ba x ObjSlice g by auto
        have keep: "heap s' p = heap s p" if "sm_get (s_ues sl2) i = Some p" for i p
        proof -
          from that x(4) ObjSlice obtain u where u: "heap s p = Some (ObjUe u)" "bound_slice u = n"
            using x(3) by (auto simp: slice_ok_def)
          then have "p \<notin> ?P" using mem \<open>n \<noteq> k\<close> by fastforce
          moreover have "p \<noteq> a" using u sl(1) by auto
          ultimately show ?thesis by (simp add: s'_def s1(5))
        qed
        have "slice_ok (db s) (heap s') sl2"
          using x(4) ObjSlice keep by (auto simp: slice_ok_def)
        then show ?thesis using b' ObjSlice x by (auto simp: entry_okay_def)
      next
        case (ObjUe u)
        then show ?thesis using x ba by (cases "b \<in> ?P") (auto simp: entry_okay_def s'_def s1(5))
      next
        case (ObjNodeB nb)
        then have "b \<notin> ?P" using mem x(1) by fastforce
        then show ?thesis using x ba ObjNodeB by (auto simp: entry_okay_def s'_def s1(5))
      qed
    qed
  qed
  then have "wf_app s'" using tab s1(2,3) by (simp add: wf_app_def s'_def)
  moreover have "heap s' p = Some (ObjUe (if p \<in> ?P then snd (ue_unbind_slice u) else u))"
    if "heap s p = Some (ObjUe u)" for p u
    using that sl(1) by (auto simp: s'_def s1(5))
  ultimately show ?thesis using run sl(1) s1(2) by (intro exI [of _ s'] exI [of _ sl]) (simp add: s'_def)
qed

lemma del_slice_part_effect:
  assumes w: "wf_app s" and a: "sm_get (db s SliceResource) k = Some a"
  shows "\<exists>s'. del_slice_part E k a s = Inr s' \<and> wf_app s' \<and> db s' = db s \<and> unreferenced (db s') (heap s') a"
proof -
  from wf_push [OF w, of E k "SliceDeleteRequest [k]"] obtain s1 where
    s1: "push_bound E k (SliceDeleteRequest [k]) (db s NodeBResource) s = Inr s1" "same_store s s1" "wf_app s1" .
  have a1: "sm_get (db s1 SliceResource) k = Some a" using a s1(2) by (simp add: same_store_def)
  from unbind_all_ues_effect [OF s1(3) a1] obtain s' sl where
    s': "unbind_all_ues a s1 = Inr s'" "wf_app s'" "db s' = db s1"
    "heap s' a = Some (ObjSlice (sl\<lparr>s_ues := []\<rparr>))" by blast
  from unreferenced_other [OF s'(2,4)] have "unreferenced (db s') (heap s') a" by simp
  then show ?thesis using s1 s' by (intro exI [of _ s']) (simp add: del_slice_part_def same_store_def)
qed

lemma del_nodeb_part_effect:
  assumes w: "wf_app s" and a: "sm_get (db s NodeBResource) k = Some a"
  shows "\<exists>s'. del_nodeb_part E k a s = Inr s' \<and> wf_app s' \<and> db s' = db s \<and> unreferenced (db s') (heap s') a"
proof -
  from wf_nodeb_entry [OF w a] obtain nb where nb: "heap s a = Some (ObjNodeB nb)" "nb_name nb = k" .
  define s1 where "s1 = (if nb_slices nb \<noteq> []
      then app_control E (SliceDeleteRequest (map fst (nb_slices nb))) (nb_name nb) s else s)"
  define s' where "s' = snd (delete_all_subscriptions E (send_message E) s1 k)"
  have st1: "same_store s s1" by (simp add: s1_def app_control_store)
  have st: "same_store s s'"
    unfolding s'_def by (rule same_store_trans [OF st1 delete_all_store])
  have "tables_wf s1" using w by (simp add: s1_def wf_app_def app_control_tables)
  then have "tables_wf s'" unfolding s'_def by (rule app_agent.delete_all_tables_wf)
  from wf_same_store [OF w st this] have w': "wf_app s'" .
  have "heap s' a = Some (ObjNodeB nb)" using nb st by (simp add: same_store_def)
  from unreferenced_other [OF w' this] have "unreferenced (db s') (heap s') a" by simp
  moreover have "del_nodeb_part E k a s = Inr s'"
    using nb(1) by (simp add: del_nodeb_part_def get_nodeb_def deref_def Let_def s1_def s'_def)
  ultimately show ?thesis using w' st by (auto simp: same_store_def)
qed

lemma app_del_effect:
  assumes w: "wf_app s"
  shows "\<exists>b ae' s'. app_del E rt rname ae s = Inr (b, ae', s') \<and> wf_app s' \<and>
    (if b then db s' = (db s)(rt := sm_erase (db s rt) rname) else s' = s)"
proof (cases "sm_get (db s rt) rname")
  case None
  then show ?thesis using w by (auto simp: app_del_def)
next
  case (Some a)
  have fin: "\<exists>s2. delete_entry rt rname a s1 = Inr s2 \<and> wf_app s2 \<and> db s2 = (db s)(rt := sm_erase (db s rt) rname)"
    if "wf_app s1" "db s1 = db s" "unreferenced (db s1) (heap s1) a" for s1
    using wf_delete_entry [OF that(1) _ that(3), of rt rname] that(2) Some by auto
  show ?thesis
  proof (cases rt)
    case NodeBResource
    with del_nodeb_part_effect [OF w, of rname a E] Some obtain s1 where
      s1: "del_nodeb_part E rname a s = Inr s1" "wf_app s1" "db s1 = db s" "unreferenced (db s1) (heap s1) a"
      by blast
    from fin [OF s1(2-4)] show ?thesis using s1(1) Some NodeBResource by (auto simp: app_del_def)
  next
    case SliceResource
    with del_slice_part_effect [OF w, of rname a E] Some obtain s1 where
      s1: "del_slice_part E rname a s = Inr s1" "wf_app s1" "db s1 = db s" "unreferenced (db s1) (heap s1) a"
      by blast
    from fin [OF s1(2-4)] show ?thesis using s1(1) Some SliceResource by (auto simp: app_del_def)
  next
    case UeResource
    with del_ue_part_effect [OF w, of rname a E ae] Some
    consider ae' where "del_ue_part E a ae s = Inr (Inl ae')"
      | s1 where "del_ue_part E a ae s = Inr (Inr s1)" "wf_app s1" "db s1 = db s"
          "unreferenced (db s1) (heap s1) a"
      by blast
    then show ?thesis
    proof cases
      case 1
      then show ?thesis using Some UeResource w by (auto simp: app_del_def)
    next
      case 2
      from fin [OF 2(2-4)] show ?thesis using 2(1) Some UeResource by (auto simp: app_del_def)
    qed
  qed
qed

section \<open>Updating\<close>

lemma obj_update_effect:
  assumes "obj_update d ae ob = Inr (b, ae', ob')" "obj_ok db' h ob"
  shows "obj_type ob' = obj_type ob \<and> obj_name ob' = obj_name ob \<and> obj_ok db' h ob' \<and>
    (\<forall>u. ob = ObjUe u \<longrightarrow> (\<exists>u'. ob' = ObjUe u' \<and> bound_slice u' = bound_slice u)) \<and> (\<not> b \<longrightarrow> ob' = ob)"
proof (cases ob)
  case (ObjNodeB nb)
  with assms show ?thesis by (auto dest: nodeb_update_id)
next
  case (ObjSlice sl)
  with assms(1) obtain sl' where sl': "slice_update d ae sl = Inr (b, ae', sl')" "ob' = ObjSlice sl'" by auto
  have "slice_ok db' h sl" using assms(2) ObjSlice by simp
  then have "throttling_inv (allocation_policy sl)" by (simp add: slice_ok_def)
  from slice_update_inv [OF this sl'(1)] \<open>slice_ok db' h sl\<close> have "slice_ok db' h sl'"
    by (simp add: slice_ok_def)
  moreover have "\<not> b \<Longrightarrow> sl' = sl" using slice_class.update_false [of d ae sl ae' sl'] sl'(1) by auto
  ultimately show ?thesis using ObjSlice sl' slice_class.update_name [OF sl'(1)] by auto
next
  case (ObjUe u)
  with assms(1) obtain u' where u': "ue_update d ae u = Inr (b, ae', u')" "ob' = ObjUe u'" by auto
  from u'(1) have "imsi u' = imsi u \<and> bound_slice u' = bound_slice u \<and> (\<not> b \<longrightarrow> u' = u)"
    by (cases rule: ue_update_cases) auto
  then show ?thesis using ObjUe u' by auto
qed

lemma slice_update_total: "faultless (slice_update d ae sl)"
proof (cases "is_object d \<and> conforms Slice_schema PUT d")
  case True
  show ?thesis
  proof (cases "json_member d ''allocation_policy''")
    case (Some ap)
    show ?thesis
      by (rule policy_update_cases [of ap ae "allocation_policy sl"])
         (use True Some in \<open>auto simp: slice_update_conform\<close>)
  qed (use True in \<open>simp add: slice_update_conform\<close>)
next
  case False
  then show ?thesis
    by (cases "is_object d") (auto simp: slice_update_nonconform, simp add: slice_update_def)
qed

lemma get_cstring_fault: "get_cstring v = Inl f \<Longrightarrow> f = JsonTypeMisuse"
  by (cases v) auto

lemma ue_update_fault: "ue_update d ae u = Inl f \<Longrightarrow> f = JsonTypeMisuse"
  by (auto simp: ue_update_def ue_update_tmsi_def bind_outcome_Inl_iff dest: get_cstring_fault
      split: if_splits prod.splits bool.splits option.splits)

lemma obj_update_fault:
  assumes "obj_update d ae ob = Inl f"
  shows "obj_type ob = UeResource \<and> f = JsonTypeMisuse"
proof (cases ob)
  case (ObjNodeB nb)
  obtain r where "nodeb_update d ae nb = Inr r"
    using nodeb_update_total [of d ae nb] by (auto simp: faultless_iff)
  with assms ObjNodeB show ?thesis by (simp split: prod.splits)
next
  case (ObjSlice sl)
  obtain r where "slice_update d ae sl = Inr r"
    using slice_update_total [of d ae sl] by (auto simp: faultless_iff)
  with assms ObjSlice show ?thesis by (simp split: prod.splits)
next
  case (ObjUe u)
  with assms show ?thesis by (auto simp: bind_outcome_Inl_iff dest: ue_update_fault)
qed

lemma app_update_effect:
  assumes w: "wf_app s"
  shows "(rt = UeResource \<and> app_update E rt rname d ae s = Inl JsonTypeMisuse) \<or>
    (\<exists>b ae' s'. app_update E rt rname d ae s = Inr (b, ae', s') \<and> wf_app s' \<and> db s' = db s \<and> (\<not> b \<longrightarrow> s' = s))"
proof (cases "sm_get (db s rt) rname")
  case None
  then show ?thesis using w by (auto simp: app_update_def)
next
  case (Some a)
  have ok: "store_ok (db s) (heap s) (next_addr s)" using w by (simp add: wf_app_def)
  from store_ok_entry [OF ok Some] obtain ob where
    ob: "heap s a = Some ob" "obj_type ob = rt" "obj_name ob = rname" "obj_ok (db s) (heap s) ob" .
  have d: "deref s a = Inr ob" using ob(1) by (simp add: deref_def)
  show ?thesis
  proof (cases "obj_update d ae ob")
    case (Inl f)
    with obj_update_fault [OF Inl] ob(2) Some d show ?thesis by (simp add: app_update_def)
  next
    case (Inr r)
    obtain b ae1 ob1 where r: "r = (b, ae1, ob1)" by (metis prod.exhaust)
    note upd = Inr [unfolded r]
    note eff = obj_update_effect [OF upd ob(4)]
    let ?s1 = "set_obj a ob1 s"
    have "obj_ok (db s) ((heap s)(a := Some ob1)) ob1"
      by (rule obj_ok_heap [of "db s" "heap s" ob1 a ob ob1]) (use eff ob(1) in auto)
    then have w1: "wf_app ?s1" by (intro wf_set_obj [OF w ob(1)]) (use eff in auto)
    have same: "?s1 = s" if "\<not> b"
      using that eff ob(1) by (auto simp: set_obj_def intro!: app.equality)
    show ?thesis
    proof (cases "b \<and> rt = SliceResource")
      case True
      with eff ob(2) obtain sl where sl: "ob1 = ObjSlice sl" by (cases ob1) auto
      from wf_push [OF w1, of E rname "SliceConfigRequest [(s_name sl, share (allocation_policy sl))]"]
      obtain s' where s': "push_bound E rname (SliceConfigRequest [(s_name sl, share (allocation_policy sl))])
          (db ?s1 NodeBResource) ?s1 = Inr s'" "same_store ?s1 s'" "wf_app s'" .
      have "app_update E rt rname d ae s = Inr (True, ae1, s')"
        using Some d upd True sl s'(1) by (simp add: app_update_def get_slice_def deref_def Let_def)
      then show ?thesis using s' by (auto simp: same_store_def)
    next
      case False
      then have "app_update E rt rname d ae s = Inr (b, ae1, ?s1)"
        using Some d upd by (auto simp: app_update_def Let_def)
      then show ?thesis using w1 same by auto
    qed
  qed
qed

section \<open>Allocating and freeing\<close>

lemma wf_alloc: "wf_app s \<Longrightarrow> wf_app (snd (app_alloc ob s))"
  by (auto simp: app_alloc_def wf_app_def tables_wf_def intro: store_ok_alloc)

definition app_free :: "addr \<Rightarrow> app \<Rightarrow> app" where
  "app_free a s = s\<lparr>heap := (heap s)(a := None)\<rparr>"

lemma wf_free: "wf_app s \<Longrightarrow> (\<And>rt k. sm_get (db s rt) k \<noteq> Some a) \<Longrightarrow> wf_app (app_free a s)"
  by (auto simp: app_free_def wf_app_def tables_wf_def intro!: store_ok_free)

lemma wf_fresh_unused:
  assumes "wf_app s"
  shows "sm_get (db s rt) k \<noteq> Some (next_addr s)"
proof
  assume g: "sm_get (db s rt) k = Some (next_addr s)"
  have ok: "store_ok (db s) (heap s) (next_addr s)" using assms by (simp add: wf_app_def)
  from store_ok_entry [OF ok g] obtain ob where "heap s (next_addr s) = Some ob" .
  with store_ok_below [OF ok, of "next_addr s"] show False by simp
qed

lemma wf_App: "wf_app App"
  using tables_wf_E2AP
  by (simp add: wf_app_def App_def store_ok_def E2AP_def tables_wf_def e2ap.defs)

end
