(* ===== verification/Float32.thy ===== *)
theory Float32
  imports Prelude
begin

text \<open>
  C++ \<open>float\<close> as the share computations of \<open>App::handle(KpmIndication *)\<close> use it: IEEE 754 binary32 with
  rounding to nearest, ties to even, every operation rounded (\<open>FLT_EVAL_METHOD\<close> 0, as on the
  platform the build targets). Finite values are rationals. The sign of zero is left out: a zero
  only ever becomes a divisor by conversion from an integer, and is then positive.
\<close>

datatype f32 = Fin rat | PInf | NInf | NaN

section \<open>Rounding\<close>

definition pow2 :: "int \<Rightarrow> rat" where
  "pow2 k = (if 0 \<le> k then 2 ^ nat k else 1 / 2 ^ nat (- k))"

function bit_length :: "int \<Rightarrow> int" where
  "bit_length n = (if n \<le> 0 then 0 else bit_length (n div 2) + 1)"
  by pat_completeness auto

termination by (relation "measure nat") auto

declare bit_length.simps [simp del]

text \<open>The exponent \<open>k\<close> with \<open>2 ^ k \<le> x < 2 ^ (k + 1)\<close> of a positive rational.\<close>

definition exponent :: "rat \<Rightarrow> int" where
  "exponent x =
     (let (p, q) = quotient_of x;
          k = bit_length p - bit_length q
      in if pow2 k \<le> x then k else k - 1)"

definition round_even :: "rat \<Rightarrow> int" where
  "round_even y =
     (let f = \<lfloor>y\<rfloor>; d = y - of_int f in
      if d < 1 / 2 then f else if d > 1 / 2 then f + 1 else if even f then f else f + 1)"

definition f32_round :: "rat \<Rightarrow> f32" where
  "f32_round x =
     (if x = 0 then Fin 0
      else
        let q = max (exponent \<bar>x\<bar> - 23) (-149);
            r = of_int (round_even (\<bar>x\<bar> / pow2 q)) * pow2 q
        in if r \<ge> 2 ^ 128 then (if x < 0 then NInf else PInf)
           else Fin (if x < 0 then - r else r))"

section \<open>Operations\<close>

definition f32_of_int :: "int \<Rightarrow> f32" where
  "f32_of_int n = f32_round (of_int n)"

fun f32_neg :: "f32 \<Rightarrow> f32" where
  "f32_neg (Fin x) = Fin (- x)" | "f32_neg PInf = NInf" | "f32_neg NInf = PInf" | "f32_neg NaN = NaN"

fun f32_add :: "f32 \<Rightarrow> f32 \<Rightarrow> f32" where
  "f32_add (Fin x) (Fin y) = f32_round (x + y)"
| "f32_add NaN _ = NaN" | "f32_add _ NaN = NaN"
| "f32_add PInf NInf = NaN" | "f32_add NInf PInf = NaN"
| "f32_add PInf _ = PInf" | "f32_add _ PInf = PInf"
| "f32_add NInf _ = NInf" | "f32_add _ NInf = NInf"

definition f32_sub :: "f32 \<Rightarrow> f32 \<Rightarrow> f32" where
  "f32_sub x y = f32_add x (f32_neg y)"

definition f32_inf :: "bool \<Rightarrow> f32" where
  "f32_inf negative = (if negative then NInf else PInf)"

fun f32_mul :: "f32 \<Rightarrow> f32 \<Rightarrow> f32" where
  "f32_mul (Fin x) (Fin y) = f32_round (x * y)"
| "f32_mul NaN _ = NaN" | "f32_mul _ NaN = NaN"
| "f32_mul (Fin x) PInf = (if x = 0 then NaN else f32_inf (x < 0))"
| "f32_mul (Fin x) NInf = (if x = 0 then NaN else f32_inf (x > 0))"
| "f32_mul PInf (Fin x) = (if x = 0 then NaN else f32_inf (x < 0))"
| "f32_mul NInf (Fin x) = (if x = 0 then NaN else f32_inf (x > 0))"
| "f32_mul PInf PInf = PInf" | "f32_mul NInf NInf = PInf"
| "f32_mul PInf NInf = NInf" | "f32_mul NInf PInf = NInf"

fun f32_div :: "f32 \<Rightarrow> f32 \<Rightarrow> f32" where
  "f32_div (Fin x) (Fin y) =
     (if y = 0 then (if x = 0 then NaN else f32_inf (x < 0)) else f32_round (x / y))"
| "f32_div NaN _ = NaN" | "f32_div _ NaN = NaN"
| "f32_div (Fin _) PInf = Fin 0" | "f32_div (Fin _) NInf = Fin 0"
| "f32_div PInf (Fin y) = f32_inf (y < 0)" | "f32_div NInf (Fin y) = f32_inf (y \<ge> 0)"
| "f32_div PInf _ = NaN" | "f32_div NInf _ = NaN"

text \<open>Comparisons: false as soon as one side is no number.\<close>

fun f32_less :: "f32 \<Rightarrow> f32 \<Rightarrow> bool" where
  "f32_less (Fin x) (Fin y) = (x < y)"
| "f32_less NaN _ = False" | "f32_less _ NaN = False"
| "f32_less NInf NInf = False" | "f32_less NInf _ = True" | "f32_less _ PInf = True"
| "f32_less _ _ = False"

fun f32_is_zero :: "f32 \<Rightarrow> bool" where
  "f32_is_zero (Fin x) = (x = 0)" | "f32_is_zero _ = False"

text \<open>
  Conversion to an integer type truncates; a value whose truncation does not fit, an infinity and
  NaN have undefined behaviour.
\<close>

definition truncate_rat :: "rat \<Rightarrow> int" where
  "truncate_rat x = (if x < 0 then \<lceil>x\<rceil> else \<lfloor>x\<rfloor>)"

fun f32_to_int :: "f32 \<Rightarrow> int outcome" where
  "f32_to_int (Fin x) =
     (if int32_range (truncate_rat x) then Inr (truncate_rat x) else Inl FloatOutOfRange)"
| "f32_to_int _ = Inl FloatOutOfRange"

fun f32_to_uint64 :: "f32 \<Rightarrow> int outcome" where
  "f32_to_uint64 (Fin x) =
     (if 0 \<le> truncate_rat x \<and> truncate_rat x < 2 ^ 64 then Inr (truncate_rat x) else Inl FloatOutOfRange)"
| "f32_to_uint64 _ = Inl FloatOutOfRange"

text \<open>The literals \<open>0.15f\<close> and \<open>0.05f\<close>, as the compiler rounds them.\<close>

definition lit_0_15 :: f32 where
  "lit_0_15 = f32_round (15 / 100)"

definition lit_0_05 :: f32 where
  "lit_0_05 = f32_round (5 / 100)"

end
