(* ===== verification/Kpm_Handler.thy ===== *)
theory Kpm_Handler
  imports App_Safety Float32
begin

text \<open>
  \<open>App::handle(KpmIndication *)\<close> and the other message handlers of the application (\<open>src/nexran.cc\<close>):
  the metrics of a report are fed to the slices' policies, throttling is released or started, the
  shares of auto-equalised slices are adapted to their traffic, and the changed shares are pushed to
  the NodeBs the slices are bound to. \<open>now\<close> is the time of the call, which the code reads afresh at
  every use.
\<close>

section \<open>Share arithmetic\<close>

text \<open>\<open>(new_share - cur_share) / (float)cur_share\<close>.\<close>

definition share_factor :: "int \<Rightarrow> int \<Rightarrow> f32" where
  "share_factor new_share cur_share = f32_div (f32_of_int (new_share - cur_share)) (f32_of_int cur_share)"

text \<open>\<open>((float)slices_total / num_autoeq_slices - dl_bytes) / dl_bytes\<close>.\<close>

definition equalize_factor :: "u64 \<Rightarrow> int \<Rightarrow> u64 \<Rightarrow> f32" where
  "equalize_factor slices_total num dl =
     f32_div (f32_sub (f32_div (f32_of_int (uint slices_total)) (f32_of_int num)) (f32_of_int (uint dl)))
             (f32_of_int (uint dl))"

text \<open>\<open>min((int)(cshare + (cshare * factor)),1024)\<close>, raised to 64 where it is below.\<close>

definition next_share :: "int \<Rightarrow> f32 \<Rightarrow> int outcome" where
  "next_share cshare factor =
     bind_outcome (f32_to_int (f32_add (f32_of_int cshare) (f32_mul (f32_of_int cshare) factor))) (\<lambda>n.
       let nshare = min n 1024 in Inr (if nshare < 1 \<or> nshare < 64 then 64 else nshare))"

text \<open>Division of signed integers truncates.\<close>

definition c_div :: "int \<Rightarrow> int \<Rightarrow> int" where
  "c_div a b = sgn a * sgn b * (\<bar>a\<bar> div \<bar>b\<bar>)"

definition available_prbs_per_slice :: "kpm_report \<Rightarrow> int \<Rightarrow> u64" where
  "available_prbs_per_slice r num =
     (if num > 0 then word_of_int (c_div (period_ms r * 2 * available_dl_prbs r) num) else 0)"

definition prb_threshold :: "u64 \<Rightarrow> u64 outcome" where
  "prb_threshold available =
     bind_outcome (f32_to_uint64 (f32_mul lit_0_15 (f32_of_int (uint available)))) (\<lambda>n. Inr (word_of_int n))"

section \<open>The loops\<close>

definition set_policy :: "addr \<Rightarrow> slice \<Rightarrow> policy \<Rightarrow> app \<Rightarrow> app" where
  "set_policy a sl p s = set_obj a (ObjSlice (sl\<lparr>allocation_policy := p\<rparr>)) s"

text \<open>
  The indexes \<open>slices\<close> and \<open>policies\<close> have the keys of the slice table: every policy is proportional.
  The first loop feeds the metrics of known slices and sums up the auto-equalised ones.
\<close>

fun feed_loop :: "int \<Rightarrow> (string \<times> entity_metrics) list \<Rightarrow> u64 \<times> int \<Rightarrow> app \<Rightarrow> ((u64 \<times> int) \<times> app) outcome" where
  "feed_loop now [] (tot, num) s = Inr ((tot, num), s)"
| "feed_loop now ((name, m) # rest) (tot, num) s =
     (case sm_get (db s SliceResource) name of
        None \<Rightarrow> feed_loop now rest (tot, num) s
      | Some a \<Rightarrow>
          bind_outcome (get_slice s a) (\<lambda>sl.
            let p = allocation_policy sl;
                acc = (if auto_equalize p then (tot + dl_bytes m, num + 1) else (tot, num))
            in feed_loop now rest acc (set_policy a sl (p\<lparr>metrics := mi_add now m (metrics p)\<rparr>) s)))"

type_synonym factors = "(string, f32) smap"

fun release_loop :: "int \<Rightarrow> (string \<times> addr) list \<Rightarrow> factors \<Rightarrow> app \<Rightarrow> (factors \<times> app) outcome" where
  "release_loop now [] fs s = Inr (fs, s)"
| "release_loop now ((name, a) # rest) fs s =
     bind_outcome (get_slice s a) (\<lambda>sl.
       let p = allocation_policy sl in
       if \<not> throttle p \<or> \<not> is_throttling p then release_loop now rest fs s
       else
         let p1 = p\<lparr>metrics := mi_flush now (metrics p)\<rparr>;
             (new_share, p2) = maybeEndThrottling now p1;
             fs1 = (if new_share > -1 then sm_put fs name (share_factor new_share (share p2)) else fs)
         in release_loop now rest fs1 (set_policy a sl p2 s))"

fun throttle_loop :: "int \<Rightarrow> (string \<times> addr) list \<Rightarrow> factors \<Rightarrow> app \<Rightarrow> (factors \<times> app) outcome" where
  "throttle_loop now [] fs s = Inr (fs, s)"
| "throttle_loop now ((name, a) # rest) fs s =
     bind_outcome (get_slice s a) (\<lambda>sl.
       let p = allocation_policy sl in
       if \<not> throttle p \<or> is_throttling p then throttle_loop now rest fs s
       else
         let p1 = p\<lparr>metrics := mi_flush now (metrics p)\<rparr>;
             (new_share, p2) = maybeStartThrottling now p1;
             fs1 = (if new_share > -1 then sm_put fs name (share_factor new_share (share p2)) else fs)
         in throttle_loop now rest fs1 (set_policy a sl p2 s))"

text \<open>The entries of the report that belong to known slices: \<open>report_slices\<close>.\<close>

definition report_slices :: "kpm_report \<Rightarrow> app \<Rightarrow> (string \<times> entity_metrics) list" where
  "report_slices r s = filter (\<lambda>(n, _). sm_has (db s SliceResource) n) (r_slices r)"

text \<open>
  Whether a slice takes part in equalising: it is auto-equalised and throttling has not given it a
  factor. \<open>new_share_factors[name]\<close> of an absent key would insert zero.
\<close>

definition factor_of :: "factors \<Rightarrow> string \<Rightarrow> f32" where
  "factor_of fs name = (case sm_get fs name of None \<Rightarrow> Fin 0 | Some f \<Rightarrow> f)"

definition slice_policy :: "app \<Rightarrow> string \<Rightarrow> policy outcome" where
  "slice_policy s name =
     (case sm_get (db s SliceResource) name of
        None \<Rightarrow> Inl NullDeref
      | Some a \<Rightarrow> bind_outcome (get_slice s a) (\<lambda>sl. Inr (allocation_policy sl)))"

fun candidate_loop ::
    "u64 \<Rightarrow> int \<Rightarrow> factors \<Rightarrow> (string \<times> entity_metrics) list \<Rightarrow> bool \<Rightarrow> app \<Rightarrow> bool outcome" where
  "candidate_loop tot num fs [] exceeds s = Inr exceeds"
| "candidate_loop tot num fs ((name, m) # rest) exceeds s =
     bind_outcome (slice_policy s name) (\<lambda>p.
       if \<not> auto_equalize p then candidate_loop tot num fs rest exceeds s
       else if \<not> f32_is_zero (factor_of fs name) then candidate_loop tot num fs rest exceeds s
       else
         let nf = equalize_factor tot num (dl_bytes m) in
         candidate_loop tot num fs rest
           (exceeds \<or> f32_less lit_0_05 nf \<or> f32_less nf (f32_neg lit_0_05)) s)"

fun equalize_loop ::
    "u64 \<Rightarrow> int \<Rightarrow> (string \<times> entity_metrics) list \<Rightarrow> factors \<Rightarrow> app \<Rightarrow> factors outcome" where
  "equalize_loop tot num [] fs s = Inr fs"
| "equalize_loop tot num ((name, m) # rest) fs s =
     bind_outcome (slice_policy s name) (\<lambda>p.
       if \<not> auto_equalize p \<or> \<not> f32_is_zero (factor_of fs name)
       then equalize_loop tot num rest fs s
       else equalize_loop tot num rest (sm_put fs name (equalize_factor tot num (dl_bytes m))) s)"

fun apply_loop :: "env \<Rightarrow> (string \<times> f32) list \<Rightarrow> app \<Rightarrow> app outcome" where
  "apply_loop E [] s = Inr s"
| "apply_loop E ((name, f) # rest) s =
     (case sm_get (db s SliceResource) name of
        None \<Rightarrow> Inl NullDeref
      | Some a \<Rightarrow>
          bind_outcome (get_slice s a) (\<lambda>sl.
          bind_outcome (next_share (share (allocation_policy sl)) f) (\<lambda>nshare.
            let s1 = set_policy a sl (snd (setShare nshare (allocation_policy sl))) s in
            if share (allocation_policy sl) = nshare then apply_loop E rest s1
            else
              bind_outcome (push_bound E name (SliceConfigRequest [(name, nshare)]) (db s1 NodeBResource) s1)
                (\<lambda>s2. apply_loop E rest s2))))"

section \<open>The handler\<close>

definition initial_factors :: "app \<Rightarrow> factors" where
  "initial_factors s = map (\<lambda>(n, _). (n, Fin 0)) (db s SliceResource)"

definition throttle_phase :: "int \<Rightarrow> app \<Rightarrow> (factors \<times> app) outcome" where
  "throttle_phase now s =
     bind_outcome (release_loop now (db s SliceResource) (initial_factors s) s) (\<lambda>(fs, s1).
     throttle_loop now (db s1 SliceResource) fs s1)"

definition equalize_phase ::
    "kpm_report \<Rightarrow> u64 \<times> int \<Rightarrow> factors \<Rightarrow> app \<Rightarrow> factors outcome" where
  "equalize_phase r acc fs s =
     (let (tot, num) = acc;
          available = available_prbs_per_slice r num;
          rs = report_slices r s
      in bind_outcome (prb_threshold available) (\<lambda>threshold.
         let busy = available > 0 \<and> (\<exists>(n, m) \<in> set rs. dl_prbs m > threshold) in
         bind_outcome (if busy then candidate_loop tot num fs rs False s else Inr False) (\<lambda>exceeds.
         if exceeds then equalize_loop tot num rs fs s else Inr fs)))"

definition handle_kpm :: "env \<Rightarrow> int \<Rightarrow> kpm_report option \<Rightarrow> app \<Rightarrow> (bool \<times> app) outcome" where
  "handle_kpm E now report s =
     (case report of
        None \<Rightarrow> Inl NullDeref
      | Some r \<Rightarrow>
          if r_slices r = [] then Inr (True, s)
          else
            bind_outcome (feed_loop now (r_slices r) (0, 0) s) (\<lambda>(acc, s1).
            bind_outcome (throttle_phase now s1) (\<lambda>(fs, s2).
            bind_outcome (equalize_phase r acc fs s2) (\<lambda>fs1.
            bind_outcome (apply_loop E fs1 s2) (\<lambda>s3. Inr (True, s3))))))"

text \<open>
  The handlers called by the E2AP library. Those for control and subscription messages only log and
  return \<open>false\<close>; the one for error indications has no return statement, and its result, \<open>False\<close>
  here, is not looked at by the caller of \<open>handle_message\<close>.
\<close>

fun app_handle :: "env \<Rightarrow> int \<Rightarrow> app agent_handle" where
  "app_handle E now s (Ev_indication ind) =
     (case in_model ind of
        None \<Rightarrow> Inl IndeterminateRead
      | Some (KpmIndication r) \<Rightarrow> handle_kpm E now r s
      | Some (SliceStatusIndication _) \<Rightarrow> Inr (False, s))"
| "app_handle E now s _ = Inr (False, s)"

text \<open>\<open>App::handle_rmr_message\<close>: the E2AP library gets the messages of the listed types.\<close>

fun supported_mtype :: "mtype \<Rightarrow> bool" where
  "supported_mtype (OtherMtype _) = False" | "supported_mtype _ = True"

definition handle_rmr_message :: "env \<Rightarrow> int \<Rightarrow> rmr_msg \<Rightarrow> app \<Rightarrow> app outcome" where
  "handle_rmr_message E now msg s =
     (if \<not> supported_mtype (rm_mtype msg) then Inr s
      else bind_outcome
             (handle_message E now (app_handle E now) s (rm_payload msg) (rm_subid msg) (cstr (rm_meid msg))
                (case rm_xact msg of None \<Rightarrow> [] | Some x \<Rightarrow> cstr x))
             (\<lambda>(_, s1). Inr s1))"

section \<open>Bounds\<close>

lemma next_share_range: "next_share c f = Inr n \<Longrightarrow> 64 \<le> n \<and> n \<le> 1024"
  by (auto simp: next_share_def Let_def split: if_splits)

lemma next_share_ok: "next_share c f = Inr n \<Longrightarrow> share_ok n"
  using next_share_range [of c f n] by (simp add: share_ok_def)

end
