(* ===== verification/Kpm_Safety.thy ===== *)
theory Kpm_Safety
  imports Kpm_Handler
begin

text \<open>
  What the KPM handler does to the application state: it changes nothing but the policies of slices,
  keeps the invariant, leaves every share between 64 and 1024, and can only fail on a float that
  does not fit an integer.
\<close>

section \<open>Nothing but policies\<close>

definition only_policies :: "app \<Rightarrow> app \<Rightarrow> bool" where
  "only_policies s s' \<longleftrightarrow> db s' = db s \<and> next_addr s' = next_addr s \<and>
     (\<forall>a. (\<forall>sl. heap s a \<noteq> Some (ObjSlice sl)) \<longrightarrow> heap s' a = heap s a) \<and>
     (\<forall>a sl. heap s a = Some (ObjSlice sl) \<longrightarrow>
        (\<exists>p. heap s' a = Some (ObjSlice (sl\<lparr>allocation_policy := p\<rparr>))))"

lemma own_policy [simp]: "\<exists>p. sl = sl\<lparr>allocation_policy := p\<rparr>"
  by (rule exI [of _ "allocation_policy sl"]) simp

lemma only_policies_refl [simp]: "only_policies s s"
  by (simp add: only_policies_def)

lemma only_policies_trans: "only_policies s s' \<Longrightarrow> only_policies s' s'' \<Longrightarrow> only_policies s s''"
  unfolding only_policies_def
proof (intro conjI allI impI)
  assume 1: "db s' = db s \<and> next_addr s' = next_addr s \<and>
     (\<forall>a. (\<forall>sl. heap s a \<noteq> Some (ObjSlice sl)) \<longrightarrow> heap s' a = heap s a) \<and>
     (\<forall>a sl. heap s a = Some (ObjSlice sl) \<longrightarrow> (\<exists>p. heap s' a = Some (ObjSlice (sl\<lparr>allocation_policy := p\<rparr>))))"
    and 2: "db s'' = db s' \<and> next_addr s'' = next_addr s' \<and>
     (\<forall>a. (\<forall>sl. heap s' a \<noteq> Some (ObjSlice sl)) \<longrightarrow> heap s'' a = heap s' a) \<and>
     (\<forall>a sl. heap s' a = Some (ObjSlice sl) \<longrightarrow> (\<exists>p. heap s'' a = Some (ObjSlice (sl\<lparr>allocation_policy := p\<rparr>))))"
  show "db s'' = db s" "next_addr s'' = next_addr s" using 1 2 by simp_all
  show "heap s'' a = heap s a" if "\<forall>sl. heap s a \<noteq> Some (ObjSlice sl)" for a
    using 1 2 that by metis
  show "\<exists>p. heap s'' a = Some (ObjSlice (sl\<lparr>allocation_policy := p\<rparr>))" if "heap s a = Some (ObjSlice sl)" for a sl
  proof -
    from 1 that obtain p where "heap s' a = Some (ObjSlice (sl\<lparr>allocation_policy := p\<rparr>))" by blast
    with 2 obtain p' where "heap s'' a = Some (ObjSlice ((sl\<lparr>allocation_policy := p\<rparr>)\<lparr>allocation_policy := p'\<rparr>))"
      by blast
    then show ?thesis by auto
  qed
qed

lemma only_policies_store: "same_store s s' \<Longrightarrow> only_policies s s'"
  by (simp add: only_policies_def same_store_def)

lemma set_policy_only:
  "heap s a = Some (ObjSlice sl) \<Longrightarrow> only_policies s (set_policy a sl p s)"
  by (auto simp: only_policies_def set_policy_def)

lemma set_policy_simps [simp]:
  "db (set_policy a sl p s) = db s"
  "heap (set_policy a sl p s) = (heap s)(a := Some (ObjSlice (sl\<lparr>allocation_policy := p\<rparr>)))"
  by (simp_all add: set_policy_def)

lemma wf_set_policy:
  assumes "wf_app s" "sm_get (db s SliceResource) k = Some a" "heap s a = Some (ObjSlice sl)" "throttling_inv p"
  shows "wf_app (set_policy a sl p s)"
proof -
  from wf_slice_entry [OF assms(1,2)] assms(3) have "slice_ok (db s) (heap s) sl" by auto
  then show ?thesis
    unfolding set_policy_def
    by (intro wf_set_slice [OF assms(1,3)]) (use assms(4) in \<open>auto simp: slice_ok_def\<close>)
qed

text \<open>Access to a slice of the table.\<close>

lemma wf_get_slice:
  assumes "wf_app s" "sm_get (db s SliceResource) k = Some a"
  obtains sl where "get_slice s a = Inr sl" "heap s a = Some (ObjSlice sl)" "s_name sl = k"
    "throttling_inv (allocation_policy sl)"
proof -
  from wf_slice_entry [OF assms] obtain sl where
    "heap s a = Some (ObjSlice sl)" "s_name sl = k" "slice_ok (db s) (heap s) sl" .
  then show thesis using that by (auto simp: get_slice_heap slice_ok_def)
qed

section \<open>The loops\<close>

lemma feed_loop_effect:
  "wf_app s \<Longrightarrow> \<exists>acc' s'. feed_loop now l acc s = Inr (acc', s') \<and> wf_app s' \<and> only_policies s s'"
proof (induction now l acc s rule: feed_loop.induct)
  case (2 now name m rest tot num s)
  show ?case
  proof (cases "sm_get (db s SliceResource) name")
    case None
    with 2 show ?thesis by simp
  next
    case (Some a)
    from wf_get_slice [OF 2(3) Some] obtain sl where
      sl: "get_slice s a = Inr sl" "heap s a = Some (ObjSlice sl)" "throttling_inv (allocation_policy sl)" .
    define p where "p = allocation_policy sl"
    define acc where "acc = (if auto_equalize p then (tot + dl_bytes m, num + 1) else (tot, num))"
    define s1 where "s1 = set_policy a sl (p\<lparr>metrics := mi_add now m (metrics p)\<rparr>) s"
    have w1: "wf_app s1" unfolding s1_def
      by (rule wf_set_policy [OF 2(3) Some sl(2)]) (simp add: p_def sl(3) throttling_inv_metrics)
    have st: "only_policies s s1" unfolding s1_def by (rule set_policy_only [OF sl(2)])
    have "feed_loop now ((name, m) # rest) (tot, num) s = feed_loop now rest acc s1"
      using Some sl(1) by (simp add: p_def acc_def s1_def Let_def)
    moreover from 2(2) [OF Some sl(1) p_def acc_def] w1
    obtain acc' s' where "feed_loop now rest acc s1 = Inr (acc', s')" "wf_app s'" "only_policies s1 s'"
      unfolding s1_def by blast
    ultimately show ?thesis using only_policies_trans [OF st] by auto
  qed
qed auto

text \<open>The two throttling loops have the same shape: one step updates a policy and maybe a factor.\<close>

lemma throttle_step:
  assumes w: "wf_app s" and k: "sm_get (db s SliceResource) name = Some a"
    and sl: "heap s a = Some (ObjSlice sl)" and p: "throttling_inv p"
    and fs: "sm_wf fs" "sm_has fs name"
  shows "wf_app (set_policy a sl p s) \<and> only_policies s (set_policy a sl p s) \<and>
    sm_wf (sm_put fs name f) \<and> map fst (sm_put fs name f) = map fst fs"
  using wf_set_policy [OF w k sl p] set_policy_only [OF sl] fs sm_put_same_keys [OF fs] by auto

lemma sm_has_same_keys: "map fst fs' = map fst fs \<Longrightarrow> sm_has fs' k = sm_has fs k"
  by (metis list.set_map sm_has_keys)

lemma release_loop_effect:
  assumes "wf_app s" "sm_wf fs"
    and "\<And>n a. (n, a) \<in> set l \<Longrightarrow> sm_get (db s SliceResource) n = Some a \<and> sm_has fs n"
  shows "\<exists>fs' s'. release_loop now l fs s = Inr (fs', s') \<and> wf_app s' \<and> only_policies s s' \<and>
    sm_wf fs' \<and> map fst fs' = map fst fs"
  using assms
proof (induction l arbitrary: fs s)
  case (Cons x rest)
  obtain name a where x: "x = (name, a)" by fastforce
  have k: "sm_get (db s SliceResource) name = Some a" "sm_has fs name" using Cons.prems(3) x by auto
  from wf_get_slice [OF Cons.prems(1) k(1)] obtain sl where
    sl: "get_slice s a = Inr sl" "heap s a = Some (ObjSlice sl)" "throttling_inv (allocation_policy sl)" .
  define p where "p = allocation_policy sl"
  show ?case
  proof (cases "\<not> throttle p \<or> \<not> is_throttling p")
    case True
    have "\<exists>fs' s'. release_loop now rest fs s = Inr (fs', s') \<and> wf_app s' \<and> only_policies s s' \<and>
        sm_wf fs' \<and> map fst fs' = map fst fs"
      by (rule Cons.IH) (use Cons.prems in auto)
    then show ?thesis using True sl(1) x by (simp add: p_def)
  next
    case False
    obtain new p2 where m: "maybeEndThrottling now (p\<lparr>metrics := mi_flush now (metrics p)\<rparr>) = (new, p2)"
      by fastforce
    have "throttling_inv (p\<lparr>metrics := mi_flush now (metrics p)\<rparr>)"
      using sl(3) by (simp add: p_def throttling_inv_metrics)
    from throttling_inv_end [OF this, of now] have p2: "throttling_inv p2" using m by simp
    define fs1 where "fs1 = (if new > -1 then sm_put fs name (share_factor new (share p2)) else fs)"
    define s1 where "s1 = set_policy a sl p2 s"
    have st: "wf_app s1" "only_policies s s1" "sm_wf fs1" "map fst fs1 = map fst fs"
      using throttle_step [OF Cons.prems(1) k(1) sl(2) p2 Cons.prems(2) k(2), of "share_factor new (share p2)"]
        Cons.prems(2)
      by (simp_all add: s1_def fs1_def)
    have "\<exists>fs' s'. release_loop now rest fs1 s1 = Inr (fs', s') \<and> wf_app s' \<and> only_policies s1 s' \<and>
        sm_wf fs' \<and> map fst fs' = map fst fs1"
      by (rule Cons.IH [OF st(1,3)])
         (use Cons.prems(3) sm_has_same_keys [OF st(4)] in \<open>auto simp: s1_def\<close>)
    moreover have "release_loop now (x # rest) fs s = release_loop now rest fs1 s1"
      using False sl(1) x m by (simp add: p_def [symmetric] fs1_def s1_def Let_def)
    ultimately show ?thesis using only_policies_trans [OF st(2)] st(4) by auto
  qed
qed auto

lemma throttle_loop_effect:
  assumes "wf_app s" "sm_wf fs"
    and "\<And>n a. (n, a) \<in> set l \<Longrightarrow> sm_get (db s SliceResource) n = Some a \<and> sm_has fs n"
  shows "\<exists>fs' s'. throttle_loop now l fs s = Inr (fs', s') \<and> wf_app s' \<and> only_policies s s' \<and>
    sm_wf fs' \<and> map fst fs' = map fst fs"
  using assms
proof (induction l arbitrary: fs s)
  case (Cons x rest)
  obtain name a where x: "x = (name, a)" by fastforce
  have k: "sm_get (db s SliceResource) name = Some a" "sm_has fs name" using Cons.prems(3) x by auto
  from wf_get_slice [OF Cons.prems(1) k(1)] obtain sl where
    sl: "get_slice s a = Inr sl" "heap s a = Some (ObjSlice sl)" "throttling_inv (allocation_policy sl)" .
  define p where "p = allocation_policy sl"
  show ?case
  proof (cases "\<not> throttle p \<or> is_throttling p")
    case True
    have "\<exists>fs' s'. throttle_loop now rest fs s = Inr (fs', s') \<and> wf_app s' \<and> only_policies s s' \<and>
        sm_wf fs' \<and> map fst fs' = map fst fs"
      by (rule Cons.IH) (use Cons.prems in auto)
    then show ?thesis using True sl(1) x by (simp add: p_def)
  next
    case False
    obtain new p2 where m: "maybeStartThrottling now (p\<lparr>metrics := mi_flush now (metrics p)\<rparr>) = (new, p2)"
      by fastforce
    have "throttling_inv (p\<lparr>metrics := mi_flush now (metrics p)\<rparr>)"
      using sl(3) by (simp add: p_def throttling_inv_metrics)
    from throttling_inv_start [OF this, of now] have p2: "throttling_inv p2" using m by simp
    define fs1 where "fs1 = (if new > -1 then sm_put fs name (share_factor new (share p2)) else fs)"
    define s1 where "s1 = set_policy a sl p2 s"
    have st: "wf_app s1" "only_policies s s1" "sm_wf fs1" "map fst fs1 = map fst fs"
      using throttle_step [OF Cons.prems(1) k(1) sl(2) p2 Cons.prems(2) k(2), of "share_factor new (share p2)"]
        Cons.prems(2)
      by (simp_all add: s1_def fs1_def)
    have "\<exists>fs' s'. throttle_loop now rest fs1 s1 = Inr (fs', s') \<and> wf_app s' \<and> only_policies s1 s' \<and>
        sm_wf fs' \<and> map fst fs' = map fst fs1"
      by (rule Cons.IH [OF st(1,3)])
         (use Cons.prems(3) sm_has_same_keys [OF st(4)] in \<open>auto simp: s1_def\<close>)
    moreover have "throttle_loop now (x # rest) fs s = throttle_loop now rest fs1 s1"
      using False sl(1) x m by (simp add: p_def [symmetric] fs1_def s1_def Let_def)
    ultimately show ?thesis using only_policies_trans [OF st(2)] st(4) by auto
  qed
qed auto

lemma slice_policy_ok:
  "wf_app s \<Longrightarrow> sm_has (db s SliceResource) n \<Longrightarrow> \<exists>p. slice_policy s n = Inr p"
  by (auto simp: sm_has_iff slice_policy_def elim: wf_get_slice)

lemma candidate_loop_ok:
  assumes "wf_app s" "\<And>n m. (n, m) \<in> set l \<Longrightarrow> sm_has (db s SliceResource) n"
  shows "\<exists>b. candidate_loop tot num fs l b0 s = Inr b"
  using assms(2)
proof (induction l arbitrary: b0)
  case (Cons x rest)
  obtain n m where x: "x = (n, m)" by fastforce
  have "sm_has (db s SliceResource) n" using Cons.prems [of n m] x by simp
  from slice_policy_ok [OF assms(1) this] obtain p where "slice_policy s n = Inr p" by blast
  moreover have "\<exists>b. candidate_loop tot num fs rest b1 s = Inr b" for b1
    using Cons.prems by (intro Cons.IH) auto
  ultimately show ?case by (simp add: x Let_def)
qed auto

lemma equalize_loop_ok:
  assumes "wf_app s" "sm_wf fs"
    and "\<And>n m. (n, m) \<in> set l \<Longrightarrow> sm_has (db s SliceResource) n \<and> sm_has fs n"
  shows "\<exists>fs'. equalize_loop tot num l fs s = Inr fs' \<and> sm_wf fs' \<and> map fst fs' = map fst fs"
  using assms(2,3)
proof (induction l arbitrary: fs)
  case (Cons x rest)
  obtain n m where x: "x = (n, m)" by fastforce
  have h: "sm_has (db s SliceResource) n" "sm_has fs n" using Cons.prems(2) x by auto
  obtain p where p: "slice_policy s n = Inr p" using slice_policy_ok [OF assms(1) h(1)] by blast
  let ?fs1 = "sm_put fs n (equalize_factor tot num (dl_bytes m))"
  have k: "map fst ?fs1 = map fst fs" by (rule sm_put_same_keys [OF Cons.prems(1) h(2)])
  have "\<exists>fs'. equalize_loop tot num rest fs s = Inr fs' \<and> sm_wf fs' \<and> map fst fs' = map fst fs"
    by (rule Cons.IH [OF Cons.prems(1)]) (use Cons.prems(2) in auto)
  moreover have "\<exists>fs'. equalize_loop tot num rest ?fs1 s = Inr fs' \<and> sm_wf fs' \<and> map fst fs' = map fst ?fs1"
    by (rule Cons.IH) (use Cons.prems in auto)
  ultimately show ?case using p k by (auto simp: x)
qed auto

section \<open>Applying the factors\<close>

definition share_set :: "app \<Rightarrow> string \<Rightarrow> bool" where
  "share_set s n \<longleftrightarrow> (\<exists>a sl. sm_get (db s SliceResource) n = Some a \<and> heap s a = Some (ObjSlice sl) \<and>
     64 \<le> share (allocation_policy sl) \<and> share (allocation_policy sl) \<le> 1024)"

lemma next_share_fault: "next_share c f = Inl e \<Longrightarrow> e = FloatOutOfRange"
  by (cases f; cases "f32_add (f32_of_int c) (f32_mul (f32_of_int c) f)")
     (auto simp: next_share_def Let_def bind_outcome_Inl_iff split: if_splits)

lemma apply_loop_effect:
  assumes "wf_app s" "distinct (map fst l)" "\<And>n f. (n, f) \<in> set l \<Longrightarrow> sm_has (db s SliceResource) n"
  shows "apply_loop E l s = Inl FloatOutOfRange \<or>
    (\<exists>s'. apply_loop E l s = Inr s' \<and> wf_app s' \<and> only_policies s s' \<and>
       (\<forall>n \<in> fst ` set l. share_set s' n) \<and>
       (\<forall>a. (\<forall>n \<in> fst ` set l. sm_get (db s SliceResource) n \<noteq> Some a) \<longrightarrow> heap s' a = heap s a))"
  using assms
proof (induction l arbitrary: s)
  case (Cons x rest)
  obtain name f where x: "x = (name, f)" by fastforce
  have "sm_has (db s SliceResource) name" using Cons.prems(3) [of name f] x by simp
  then obtain a where a: "sm_get (db s SliceResource) name = Some a" by (auto simp: sm_has_iff)
  from wf_get_slice [OF Cons.prems(1) a] obtain sl where
    sl: "get_slice s a = Inr sl" "heap s a = Some (ObjSlice sl)" "throttling_inv (allocation_policy sl)" .
  define p where "p = allocation_policy sl"
  show ?case
  proof (cases "next_share (share p) f")
    case (Inl e)
    then show ?thesis using x a sl(1) next_share_fault [OF Inl] by (simp add: p_def)
  next
    case (Inr nshare)
    define s1 where "s1 = set_policy a sl (snd (setShare nshare p)) s"
    have p1: "snd (setShare nshare p) = p\<lparr>share := nshare\<rparr>"
      by (simp add: setShare_in_range [OF next_share_ok [OF Inr]])
    have w1: "wf_app s1" unfolding s1_def
      by (rule wf_set_policy [OF Cons.prems(1) a sl(2)]) (simp add: p_def sl(3) throttling_inv_setShare)
    have st1: "only_policies s s1" unfolding s1_def by (rule set_policy_only [OF sl(2)])
    have h1: "heap s1 = (heap s)(a := Some (ObjSlice (sl\<lparr>allocation_policy := p\<lparr>share := nshare\<rparr>\<rparr>)))"
      and d1: "db s1 = db s" by (simp_all add: s1_def p1)
    obtain s2 where s2: "same_store s1 s2" "wf_app s2"
      "apply_loop E (x # rest) s = apply_loop E rest s2"
    proof (cases "share p = nshare")
      case True
      with that [of s1] x a sl(1) Inr w1 show thesis by (simp add: p_def s1_def Let_def)
    next
      case False
      from wf_push [OF w1, of E name "SliceConfigRequest [(name, nshare)]"] obtain s2 where
        s2: "push_bound E name (SliceConfigRequest [(name, nshare)]) (db s1 NodeBResource) s1 = Inr s2"
        "same_store s1 s2" "wf_app s2" .
      with that [of s2] x a sl(1) Inr False show thesis by (simp add: p_def s1_def Let_def)
    qed
    have IH: "apply_loop E rest s2 = Inl FloatOutOfRange \<or>
      (\<exists>s'. apply_loop E rest s2 = Inr s' \<and> wf_app s' \<and> only_policies s2 s' \<and>
         (\<forall>n \<in> fst ` set rest. share_set s' n) \<and>
         (\<forall>a. (\<forall>n \<in> fst ` set rest. sm_get (db s2 SliceResource) n \<noteq> Some a) \<longrightarrow> heap s' a = heap s2 a))"
      by (rule Cons.IH [OF s2(2)]) (use Cons.prems(2,3) s2(1) d1 in \<open>auto simp: same_store_def\<close>)
    have d2: "db s2 = db s" and h2: "heap s2 = heap s1" using s2(1) d1 by (simp_all add: same_store_def)
    have uniq: "sm_get (db s SliceResource) n \<noteq> Some a" if "n \<in> fst ` set rest" for n
    proof
      assume "sm_get (db s SliceResource) n = Some a"
      moreover have "store_ok (db s) (heap s) (next_addr s)" using Cons.prems(1) by (simp add: wf_app_def)
      ultimately have "n = name" using store_ok_inj a by blast
      then show False using that Cons.prems(2) x by simp
    qed
    from IH show ?thesis
    proof
      assume "apply_loop E rest s2 = Inl FloatOutOfRange"
      then show ?thesis using s2(3) by simp
    next
      assume "\<exists>s'. apply_loop E rest s2 = Inr s' \<and> wf_app s' \<and> only_policies s2 s' \<and>
         (\<forall>n \<in> fst ` set rest. share_set s' n) \<and>
         (\<forall>a. (\<forall>n \<in> fst ` set rest. sm_get (db s2 SliceResource) n \<noteq> Some a) \<longrightarrow> heap s' a = heap s2 a)"
      then obtain s' where s': "apply_loop E rest s2 = Inr s'" "wf_app s'" "only_policies s2 s'"
        "\<forall>n \<in> fst ` set rest. share_set s' n"
        "\<And>b. (\<forall>n \<in> fst ` set rest. sm_get (db s2 SliceResource) n \<noteq> Some b) \<Longrightarrow> heap s' b = heap s2 b"
        by blast
      have st: "only_policies s s'"
        by (rule only_policies_trans [OF st1 only_policies_trans [OF only_policies_store [OF s2(1)] s'(3)]])
      have "heap s' a = heap s2 a" using s'(5) [of a] uniq d2 by auto
      then have "heap s' a = Some (ObjSlice (sl\<lparr>allocation_policy := p\<lparr>share := nshare\<rparr>\<rparr>))"
        using h2 h1 by simp
      moreover have "db s' = db s" using st by (simp add: only_policies_def)
      ultimately have "share_set s' name"
        using a next_share_range [OF Inr] by (simp add: share_set_def)
      moreover have "heap s' b = heap s b"
        if "\<forall>n \<in> fst ` set (x # rest). sm_get (db s SliceResource) n \<noteq> Some b" for b
        using s'(5) [of b] that a x d2 h2 h1 by auto
      ultimately show ?thesis using s2(3) s'(1,2,4) st x by auto
    qed
  qed
qed auto

section \<open>The handler\<close>

lemma prb_threshold_fault: "prb_threshold w = Inl e \<Longrightarrow> e = FloatOutOfRange"
  by (cases "f32_mul lit_0_15 (f32_of_int (uint w))")
     (auto simp: prb_threshold_def bind_outcome_Inl_iff split: if_splits)

lemma initial_factors_keys: "map fst (initial_factors s) = map fst (db s SliceResource)"
  by (auto simp: initial_factors_def)

lemma wf_slice_table: "wf_app s \<Longrightarrow> sm_wf (db s SliceResource)"
  by (simp add: wf_app_def store_ok_def)

lemma sm_wf_keys: "map fst m' = map fst m \<Longrightarrow> sm_wf m \<Longrightarrow> sm_wf m'"
  by (simp add: sm_wf_def)

lemma throttle_phase_effect:
  assumes w: "wf_app s"
  shows "\<exists>fs s'. throttle_phase now s = Inr (fs, s') \<and> wf_app s' \<and> only_policies s s' \<and>
    sm_wf fs \<and> map fst fs = map fst (db s SliceResource)"
proof -
  note wt = wf_slice_table [OF w]
  have wi: "sm_wf (initial_factors s)" by (rule sm_wf_keys [OF initial_factors_keys wt])
  have entry: "sm_get (db s SliceResource) n = Some a \<and> sm_has fs n"
    if "(n, a) \<in> set (db s SliceResource)" "map fst fs = map fst (db s SliceResource)" for n a and fs :: factors
    using that wt sm_has_same_keys [OF that(2), of n] by (auto simp: sm_get_in_set sm_has_iff)
  from release_loop_effect [OF w wi, of "db s SliceResource" now] entry initial_factors_keys
  obtain fs1 s1 where 1: "release_loop now (db s SliceResource) (initial_factors s) s = Inr (fs1, s1)"
    "wf_app s1" "only_policies s s1" "sm_wf fs1" "map fst fs1 = map fst (initial_factors s)"
    by blast
  have d1: "db s1 = db s" using 1(3) by (simp add: only_policies_def)
  have k1: "map fst fs1 = map fst (db s SliceResource)" using 1(5) initial_factors_keys by simp
  from throttle_loop_effect [OF 1(2,4), of "db s1 SliceResource" now] entry [OF _ k1] d1
  obtain fs2 s2 where 2: "throttle_loop now (db s1 SliceResource) fs1 s1 = Inr (fs2, s2)"
    "wf_app s2" "only_policies s1 s2" "sm_wf fs2" "map fst fs2 = map fst fs1"
    by metis
  show ?thesis
    using 1(1) 2 k1 only_policies_trans [OF 1(3) 2(3)]
    by (intro exI [of _ fs2] exI [of _ s2]) (simp add: throttle_phase_def)
qed

lemma equalize_phase_effect:
  assumes w: "wf_app s" and fs: "sm_wf fs" "map fst fs = map fst (db s SliceResource)"
  shows "equalize_phase r acc fs s = Inl FloatOutOfRange \<or>
    (\<exists>fs'. equalize_phase r acc fs s = Inr fs' \<and> sm_wf fs' \<and> map fst fs' = map fst fs)"
proof -
  obtain tot num where acc: "acc = (tot, num)" by fastforce
  have rs: "sm_has (db s SliceResource) n \<and> sm_has fs n" if "(n, m) \<in> set (report_slices r s)" for n m
    using that sm_has_same_keys [OF fs(2), of n] by (auto simp: report_slices_def)
  have c: "\<exists>b. candidate_loop tot num fs (report_slices r s) False s = Inr b"
    by (rule candidate_loop_ok [OF w]) (use rs in blast)
  have e: "\<exists>fs'. equalize_loop tot num (report_slices r s) fs s = Inr fs' \<and> sm_wf fs' \<and> map fst fs' = map fst fs"
    by (rule equalize_loop_ok [OF w fs(1)]) (use rs in blast)
  show ?thesis
  proof (cases "prb_threshold (available_prbs_per_slice r num)")
    case (Inl f)
    then show ?thesis using prb_threshold_fault [OF Inl] by (simp add: equalize_phase_def acc Let_def)
  next
    case (Inr t)
    define busy where "busy = (available_prbs_per_slice r num > 0 \<and>
        (\<exists>(n, m) \<in> set (report_slices r s). dl_prbs m > t))"
    obtain b where b: "(if busy then candidate_loop tot num fs (report_slices r s) False s else Inr False) = Inr b"
      using c by (cases busy) auto
    have "equalize_phase r acc fs s =
        (if b then equalize_loop tot num (report_slices r s) fs s else Inr fs)"
      using Inr b by (simp add: equalize_phase_def acc Let_def busy_def)
    then show ?thesis using e fs(1) by (cases b) auto
  qed
qed

lemma handle_kpm_effect:
  assumes w: "wf_app s" and r: "report = Some r"
  shows "handle_kpm E now report s = Inl FloatOutOfRange \<or>
    (\<exists>s'. handle_kpm E now report s = Inr (True, s') \<and> wf_app s' \<and> only_policies s s' \<and>
       (r_slices r \<noteq> [] \<longrightarrow> (\<forall>n. sm_has (db s SliceResource) n \<longrightarrow> share_set s' n)))"
proof (cases "r_slices r = []")
  case True
  then show ?thesis using w r by (simp add: handle_kpm_def)
next
  case False
  from feed_loop_effect [OF w, of now "r_slices r" "(0, 0)"] obtain acc s1 where
    1: "feed_loop now (r_slices r) (0, 0) s = Inr (acc, s1)" "wf_app s1" "only_policies s s1" by blast
  from throttle_phase_effect [OF 1(2), of now] obtain fs s2 where
    2: "throttle_phase now s1 = Inr (fs, s2)" "wf_app s2" "only_policies s1 s2" "sm_wf fs"
    "map fst fs = map fst (db s1 SliceResource)" by blast
  have d: "db s1 = db s" "db s2 = db s" using 1(3) 2(3) by (simp_all add: only_policies_def)
  have k: "map fst fs = map fst (db s2 SliceResource)" using 2(5) d by simp
  from equalize_phase_effect [OF 2(2,4) k, of r acc] show ?thesis
  proof
    assume "equalize_phase r acc fs s2 = Inl FloatOutOfRange"
    then show ?thesis using r False 1(1) 2(1) by (simp add: handle_kpm_def)
  next
    assume "\<exists>fs'. equalize_phase r acc fs s2 = Inr fs' \<and> sm_wf fs' \<and> map fst fs' = map fst fs"
    then obtain fs' where 3: "equalize_phase r acc fs s2 = Inr fs'" "sm_wf fs'" "map fst fs' = map fst fs" by blast
    have keys: "fst ` set fs' = fst ` set (db s SliceResource)"
      using 3(3) k d by (metis list.set_map)
    have mem: "sm_has (db s2 SliceResource) n" if "(n, f) \<in> set fs'" for n f
      using keys d that by (force simp: sm_has_keys)
    from apply_loop_effect [of s2 fs' E, OF 2(2) sm_wf_distinct [OF 3(2)] mem]
    show ?thesis
    proof
      assume "apply_loop E fs' s2 = Inl FloatOutOfRange"
      then show ?thesis using r False 1(1) 2(1) 3(1) by (simp add: handle_kpm_def)
    next
      assume "\<exists>s'. apply_loop E fs' s2 = Inr s' \<and> wf_app s' \<and> only_policies s2 s' \<and>
         (\<forall>n \<in> fst ` set fs'. share_set s' n) \<and>
         (\<forall>a. (\<forall>n \<in> fst ` set fs'. sm_get (db s2 SliceResource) n \<noteq> Some a) \<longrightarrow> heap s' a = heap s2 a)"
      then obtain s' where s': "apply_loop E fs' s2 = Inr s'" "wf_app s'" "only_policies s2 s'"
        "\<forall>n \<in> fst ` set fs'. share_set s' n" by blast
      have "only_policies s s'"
        by (rule only_policies_trans [OF 1(3) only_policies_trans [OF 2(3) s'(3)]])
      then show ?thesis
        using r False 1(1) 2(1) 3(1) s' keys by (auto simp: handle_kpm_def sm_has_keys)
    qed
  qed
qed

section \<open>Received messages\<close>

lemma wf_table_step:
  assumes "wf_app s" "table_step s ev s'"
  shows "wf_app s'"
proof -
  have "e2ap.more s' = e2ap.more s" using table_step_frame [OF assms(2)] by simp
  then have "same_store s s'" by (cases s; cases s') (simp add: same_store_def)
  then show ?thesis using assms table_step_wf [OF assms(2)] wf_same_store by (simp add: wf_app_def)
qed

lemma app_handle_wf:
  assumes "wf_app s" "app_handle E now s ev = Inr (b, s')"
  shows "wf_app s'"
proof (cases ev)
  case (Ev_indication ind)
  with assms(2) obtain i where i: "in_model ind = Some i" by (auto split: option.splits)
  show ?thesis
  proof (cases i)
    case (KpmIndication r)
    with assms(2) i Ev_indication have h: "handle_kpm E now r s = Inr (b, s')" by simp
    then obtain rep where "r = Some rep" by (cases r) (auto simp: handle_kpm_def)
    from handle_kpm_effect [OF assms(1) this, of E now] h show ?thesis by auto
  qed (use assms i Ev_indication in auto)
qed (use assms in auto)

lemma handle_rmr_message_wf:
  assumes "wf_app s" "handle_rmr_message E now msg s = Inr s'"
  shows "wf_app s'"
proof (cases "supported_mtype (rm_mtype msg)")
  case True
  with assms(2) obtain b where "handle_message E now (app_handle E now) s (rm_payload msg) (rm_subid msg)
      (cstr (rm_meid msg)) (case rm_xact msg of None \<Rightarrow> [] | Some x \<Rightarrow> cstr x) = Inr (b, s')"
    by (auto simp: handle_rmr_message_def)
  then obtain ev s1 where "table_step s ev s1" "handle_opt (app_handle E now) s1 ev = Inr (b, s')"
    by (rule handle_message_steps)
  moreover from this have "wf_app s1" using assms(1) wf_table_step by blast
  ultimately show ?thesis using app_handle_wf by (auto simp: handle_opt_def split: option.splits)
qed (use assms in \<open>simp add: handle_rmr_message_def\<close>)

end
