(* ===== verification/Rest_Server.thy ===== *)
theory Rest_Server
  imports Kpm_Safety
begin

text \<open>
  \<open>class RestServer\<close> (\<open>include/restserver.h\<close>, \<open>src/restserver.cc\<close>): the routes of the northbound
  interface and the handler behind each. Pistache and the rapidjson parser are not part of the
  repository: a handler gets the named path parameters and the request body, and a response is a
  status code with the writer calls that produced its text (none for an empty body).
\<close>

section \<open>Responses\<close>

record response =
  status :: int
  body :: "wcall list"

definition respond :: "int \<Rightarrow> wcall list \<Rightarrow> response" where
  "respond st cs = \<lparr>status = st, body = cs\<rparr>"

text \<open>\<open>HANDLE_APP_ERROR(ae, default_code)\<close> on the local \<open>AppError *\<close>.\<close>

definition handle_app_error :: "ae \<Rightarrow> int \<Rightarrow> response" where
  "handle_app_error ae default_code =
     (case ae of
        Some (Some e) \<Rightarrow> respond (http_status e) (error_serialize e)
      | _ \<Rightarrow> respond default_code [])"

text \<open>The address of a local \<open>AppError *ae = NULL\<close>.\<close>

abbreviation fresh_ae :: ae where
  "fresh_ae \<equiv> Some None"

section \<open>Version\<close>

text \<open>The strings the build system supplies.\<close>

record git_version =
  GIT_COMMIT :: string
  GIT_TAG :: string
  GIT_BRANCH :: string
  BUILD_TIMESTAMP :: string

definition buildVersionJson :: "git_version \<Rightarrow> wcall list" where
  "buildVersionJson v =
     [StartObject,
      WString ''version'', WString ''0.1.0'',
      WString ''major'', WUint 0, WString ''minor'', WUint 1, WString ''patch'', WUint 0,
      WString ''commit'', WString (GIT_COMMIT v), WString ''tag'', WString (GIT_TAG v),
      WString ''branch'', WString (GIT_BRANCH v), WString ''buildTimestamp'', WString (BUILD_TIMESTAMP v),
      EndObject]"

section \<open>Handlers\<close>

type_synonym reply = "(response \<times> app) outcome"

definition getVersion :: "git_version \<Rightarrow> app \<Rightarrow> reply" where
  "getVersion v s = Inr (respond 200 (buildVersionJson v), s)"

definition get_all :: "resource_type \<Rightarrow> app \<Rightarrow> reply" where
  "get_all rt s = bind_outcome (app_serialize_all rt s) (\<lambda>cs. Inr (respond 200 cs, s))"

definition get_one :: "resource_type \<Rightarrow> string \<Rightarrow> app \<Rightarrow> reply" where
  "get_one rt name s =
     bind_outcome (app_serialize rt name fresh_ae s) (\<lambda>(ok, cs, ae).
       Inr (if \<not> ok then handle_app_error ae 500 else respond 200 cs, s))"

definition put_one :: "env \<Rightarrow> resource_type \<Rightarrow> string \<Rightarrow> string \<Rightarrow> app \<Rightarrow> reply" where
  "put_one E rt name text s =
     bind_outcome (app_update E rt name (json_parse E text) fresh_ae s) (\<lambda>(ok, ae, s1).
       Inr (if \<not> ok then handle_app_error ae 400 else respond 200 [], s1))"

definition delete_one :: "env \<Rightarrow> resource_type \<Rightarrow> string \<Rightarrow> app \<Rightarrow> reply" where
  "delete_one E rt name s =
     bind_outcome (app_del E rt name fresh_ae s) (\<lambda>(ok, ae, s1).
       Inr (if \<not> ok then handle_app_error ae 500 else respond 200 [], s1))"

text \<open>The remainder of a binding handler.\<close>

definition bind_reply :: "(bool \<times> ae \<times> app) outcome \<Rightarrow> reply" where
  "bind_reply r =
     bind_outcome r (\<lambda>(ok, ae, s1). Inr (if \<not> ok then handle_app_error ae 400 else respond 200 [], s1))"

definition getNodeBs :: "app \<Rightarrow> reply" where "getNodeBs = get_all NodeBResource"
definition getSlices :: "app \<Rightarrow> reply" where "getSlices = get_all SliceResource"
definition getUes :: "app \<Rightarrow> reply" where "getUes = get_all UeResource"
definition getNodeB :: "string \<Rightarrow> app \<Rightarrow> reply" where "getNodeB = get_one NodeBResource"
definition getSlice :: "string \<Rightarrow> app \<Rightarrow> reply" where "getSlice = get_one SliceResource"
definition getUe :: "string \<Rightarrow> app \<Rightarrow> reply" where "getUe = get_one UeResource"
definition putNodeB :: "env \<Rightarrow> string \<Rightarrow> string \<Rightarrow> app \<Rightarrow> reply" where "putNodeB E = put_one E NodeBResource"
definition putSlice :: "env \<Rightarrow> string \<Rightarrow> string \<Rightarrow> app \<Rightarrow> reply" where "putSlice E = put_one E SliceResource"
definition putUe :: "env \<Rightarrow> string \<Rightarrow> string \<Rightarrow> app \<Rightarrow> reply" where "putUe E = put_one E UeResource"
definition deleteNodeB :: "env \<Rightarrow> string \<Rightarrow> app \<Rightarrow> reply" where "deleteNodeB E = delete_one E NodeBResource"
definition deleteSlice :: "env \<Rightarrow> string \<Rightarrow> app \<Rightarrow> reply" where "deleteSlice E = delete_one E SliceResource"
definition deleteUe :: "env \<Rightarrow> string \<Rightarrow> app \<Rightarrow> reply" where "deleteUe E = delete_one E UeResource"

definition postNodeBSliceBinding :: "env \<Rightarrow> string \<Rightarrow> string \<Rightarrow> app \<Rightarrow> reply" where
  "postNodeBSliceBinding E nodeb_name slice_name s =
     bind_reply (bind_slice_nodeb E slice_name nodeb_name fresh_ae s)"

definition deleteNodeBSliceBinding :: "env \<Rightarrow> string \<Rightarrow> string \<Rightarrow> app \<Rightarrow> reply" where
  "deleteNodeBSliceBinding E nodeb_name slice_name s =
     bind_reply (unbind_slice_nodeb E slice_name nodeb_name fresh_ae s)"

definition postSliceUeBinding :: "env \<Rightarrow> string \<Rightarrow> string \<Rightarrow> app \<Rightarrow> reply" where
  "postSliceUeBinding E slice_name ue_imsi s = bind_reply (bind_ue_slice E ue_imsi slice_name fresh_ae s)"

definition deleteSliceUeBinding :: "env \<Rightarrow> string \<Rightarrow> string \<Rightarrow> app \<Rightarrow> reply" where
  "deleteSliceUeBinding E slice_name ue_imsi s = bind_reply (unbind_ue_slice E ue_imsi slice_name fresh_ae s)"

text \<open>
  The POST handlers. \<open>mem\<close> is the byte an uninitialised member of the new object happens to hold. A
  refused NodeB is deleted, a refused slice or subscriber is not: it stays on the heap.
\<close>

definition post_refused :: "resource_type \<Rightarrow> addr \<Rightarrow> app \<Rightarrow> app" where
  "post_refused rt a s = (if rt = NodeBResource then app_free a s else s)"

definition post_obj :: "env \<Rightarrow> resource_type \<Rightarrow> (obj option \<times> ae) outcome \<Rightarrow> app \<Rightarrow> reply" where
  "post_obj E rt created s =
     bind_outcome created (\<lambda>(res, ae).
       case res of
         None \<Rightarrow> Inr (handle_app_error ae 400, s)
       | Some ob \<Rightarrow>
           let (a, s1) = app_alloc ob s in
           bind_outcome (app_add E rt a ae s1) (\<lambda>(ok, cs, ae1, s2).
             if \<not> ok then Inr (handle_app_error ae1 400, post_refused rt a s2)
             else Inr (respond 201 cs, s2)))"

definition map_created :: "('r \<Rightarrow> obj) \<Rightarrow> ('r option \<times> ae) outcome \<Rightarrow> (obj option \<times> ae) outcome" where
  "map_created mk r = bind_outcome r (\<lambda>(res, ae). Inr (map_option mk res, ae))"

definition postNodeB :: "env \<Rightarrow> bool \<Rightarrow> string \<Rightarrow> app \<Rightarrow> reply" where
  "postNodeB E mem text s =
     post_obj E NodeBResource (map_created ObjNodeB (nodeb_create (json_parse E text) fresh_ae mem)) s"

definition postSlice :: "env \<Rightarrow> bool \<Rightarrow> string \<Rightarrow> app \<Rightarrow> reply" where
  "postSlice E mem text s =
     post_obj E SliceResource (map_created ObjSlice (slice_create (json_parse E text) fresh_ae mem)) s"

definition postUe :: "env \<Rightarrow> bool \<Rightarrow> string \<Rightarrow> app \<Rightarrow> reply" where
  "postUe E mem text s =
     post_obj E UeResource (map_created ObjUe (ue_create (json_parse E text) fresh_ae mem)) s"

section \<open>Routes\<close>

text \<open>A request after routing: the handler with its path parameters and, where it reads one, the body.\<close>

datatype request =
    GetVersion
  | GetNodeBs | GetNodeB string | PostNodeB string | PutNodeB string string | DeleteNodeB string
  | PostNodeBSlice string string | DeleteNodeBSlice string string
  | GetSlices | GetSlice string | PostSlice string | PutSlice string string | DeleteSlice string
  | PostSliceUe string string | DeleteSliceUe string string
  | GetUes | GetUe string | PostUe string | PutUe string string | DeleteUe string

text \<open>
  \<open>setupRoutes\<close>: method, pattern and handler; the handler is a function of the parameters in the
  order of the pattern and of the body. \<open>VERSION_PREFIX\<close> ends in a slash and every path begins with
  one.
\<close>

definition version_prefix :: string where
  "version_prefix = ''/v1/''"

definition routes :: "(http_method \<times> string \<times> (string list \<Rightarrow> string \<Rightarrow> request)) list" where
  "routes =
     [(GET, version_prefix @ ''/version'', \<lambda>ps b. GetVersion),
      (GET, version_prefix @ ''/nodebs/:name'', \<lambda>ps b. GetNodeB (ps ! 0)),
      (GET, version_prefix @ ''/nodebs'', \<lambda>ps b. GetNodeBs),
      (POST, version_prefix @ ''/nodebs'', \<lambda>ps b. PostNodeB b),
      (PUT, version_prefix @ ''/nodebs/:name'', \<lambda>ps b. PutNodeB (ps ! 0) b),
      (DELETE, version_prefix @ ''/nodebs/:name'', \<lambda>ps b. DeleteNodeB (ps ! 0)),
      (POST, version_prefix @ ''/nodebs/:nodeb_name/slices/:slice_name'', \<lambda>ps b. PostNodeBSlice (ps ! 0) (ps ! 1)),
      (DELETE, version_prefix @ ''/nodebs/:nodeb_name/slices/:slice_name'', \<lambda>ps b. DeleteNodeBSlice (ps ! 0) (ps ! 1)),
      (GET, version_prefix @ ''/slices/:name'', \<lambda>ps b. GetSlice (ps ! 0)),
      (GET, version_prefix @ ''/slices'', \<lambda>ps b. GetSlices),
      (POST, version_prefix @ ''/slices'', \<lambda>ps b. PostSlice b),
      (PUT, version_prefix @ ''/slices/:name'', \<lambda>ps b. PutSlice (ps ! 0) b),
      (DELETE, version_prefix @ ''/slices/:name'', \<lambda>ps b. DeleteSlice (ps ! 0)),
      (POST, version_prefix @ ''/slices/:slice_name/ues/:imsi'', \<lambda>ps b. PostSliceUe (ps ! 0) (ps ! 1)),
      (DELETE, version_prefix @ ''/slices/:slice_name/ues/:imsi'', \<lambda>ps b. DeleteSliceUe (ps ! 0) (ps ! 1)),
      (GET, version_prefix @ ''/ues/:imsi'', \<lambda>ps b. GetUe (ps ! 0)),
      (GET, version_prefix @ ''/ues'', \<lambda>ps b. GetUes),
      (POST, version_prefix @ ''/ues'', \<lambda>ps b. PostUe b),
      (PUT, version_prefix @ ''/ues/:imsi'', \<lambda>ps b. PutUe (ps ! 0) b),
      (DELETE, version_prefix @ ''/ues/:imsi'', \<lambda>ps b. DeleteUe (ps ! 0))]"

fun serve :: "env \<Rightarrow> git_version \<Rightarrow> bool \<Rightarrow> request \<Rightarrow> app \<Rightarrow> reply" where
  "serve E v mem GetVersion s = getVersion v s"
| "serve E v mem GetNodeBs s = getNodeBs s"
| "serve E v mem (GetNodeB n) s = getNodeB n s"
| "serve E v mem (PostNodeB b) s = postNodeB E mem b s"
| "serve E v mem (PutNodeB n b) s = putNodeB E n b s"
| "serve E v mem (DeleteNodeB n) s = deleteNodeB E n s"
| "serve E v mem (PostNodeBSlice n sl) s = postNodeBSliceBinding E n sl s"
| "serve E v mem (DeleteNodeBSlice n sl) s = deleteNodeBSliceBinding E n sl s"
| "serve E v mem GetSlices s = getSlices s"
| "serve E v mem (GetSlice n) s = getSlice n s"
| "serve E v mem (PostSlice b) s = postSlice E mem b s"
| "serve E v mem (PutSlice n b) s = putSlice E n b s"
| "serve E v mem (DeleteSlice n) s = deleteSlice E n s"
| "serve E v mem (PostSliceUe sl i) s = postSliceUeBinding E sl i s"
| "serve E v mem (DeleteSliceUe sl i) s = deleteSliceUeBinding E sl i s"
| "serve E v mem GetUes s = getUes s"
| "serve E v mem (GetUe n) s = getUe n s"
| "serve E v mem (PostUe b) s = postUe E mem b s"
| "serve E v mem (PutUe n b) s = putUe E n b s"
| "serve E v mem (DeleteUe n) s = deleteUe E n s"

section \<open>What a request does\<close>

text \<open>
  The result of a handler on a well-formed state: it completes in a well-formed state, a refusal
  leaves the resource tables alone, and only the creation or update of an object from a document may
  meet a fault.
\<close>

definition reply_ok :: "app \<Rightarrow> reply \<Rightarrow> bool" where
  "reply_ok s r \<longleftrightarrow>
     (case r of
        Inl f \<Rightarrow> f = JsonTypeMisuse \<or> f = BufferOverflow
      | Inr (resp, s') \<Rightarrow> wf_app s' \<and> (status resp \<notin> {200, 201} \<longrightarrow> db s' = db s))"

lemma serialize_all_ok:
  assumes "\<And>k a. (k, a) \<in> set l \<Longrightarrow> heap s a \<noteq> None"
  shows "serialize_all s l = Inr (concat (map (\<lambda>(k, a). obj_serialize (the (heap s a))) l))"
  using assms
proof (induction l)
  case (Cons x l)
  obtain k a where x: "x = (k, a)" by fastforce
  obtain ob where "heap s a = Some ob" using Cons.prems [of k a] x by auto
  moreover have "serialize_all s l = Inr (concat (map (\<lambda>(k, a). obj_serialize (the (heap s a))) l))"
    by (rule Cons.IH) (use Cons.prems in auto)
  ultimately show ?case by (simp add: x deref_def)
qed simp

lemma wf_entries_live:
  assumes "wf_app s" "(k, a) \<in> set (db s rt)"
  shows "\<exists>ob. heap s a = Some ob \<and> obj_type ob = rt \<and> obj_name ob = k"
proof -
  have ok: "store_ok (db s) (heap s) (next_addr s)" using assms(1) by (simp add: wf_app_def)
  then have "sm_wf (db s rt)" by (simp add: store_ok_def)
  with assms(2) have "sm_get (db s rt) k = Some a" by (simp add: sm_get_in_set)
  from store_ok_entry [OF ok this] show ?thesis by blast
qed

lemma app_serialize_all_ok:
  assumes "wf_app s"
  shows "app_serialize_all rt s =
    Inr ([StartObject, WString (rtype_to_label_plural rt), StartArray] @
         concat (map (\<lambda>(k, a). obj_serialize (the (heap s a))) (db s rt)) @ [EndArray, EndObject])"
  using serialize_all_ok [of "db s rt" s] wf_entries_live [OF assms]
  by (fastforce simp: app_serialize_all_def)

lemma get_all_ok: "wf_app s \<Longrightarrow> reply_ok s (get_all rt s)"
  by (simp add: get_all_def app_serialize_all_ok reply_ok_def)

lemma get_one_ok:
  assumes "wf_app s"
  shows "reply_ok s (get_one rt n s)"
proof (cases "sm_get (db s rt) n")
  case None
  then show ?thesis using assms by (simp add: get_one_def app_serialize_def reply_ok_def)
next
  case (Some a)
  have "store_ok (db s) (heap s) (next_addr s)" using assms by (simp add: wf_app_def)
  from store_ok_entry [OF this Some] obtain ob where "heap s a = Some ob" .
  then show ?thesis using Some assms by (simp add: get_one_def app_serialize_def reply_ok_def deref_def)
qed

lemma put_one_ok: "wf_app s \<Longrightarrow> reply_ok s (put_one E rt n b s)"
  using app_update_effect [of s rt E n "json_parse E b" fresh_ae]
  by (auto simp: put_one_def reply_ok_def)

lemma delete_one_ok: "wf_app s \<Longrightarrow> reply_ok s (delete_one E rt n s)"
  using app_del_effect [of s E rt n fresh_ae]
  by (auto simp: delete_one_def reply_ok_def respond_def split: if_splits)

lemma bind_reply_ok:
  "\<exists>b ae' s'. r = Inr (b, ae', s') \<and> wf_app s' \<and> db s' = db s \<and> (\<not> b \<longrightarrow> s' = s) \<Longrightarrow> reply_ok s (bind_reply r)"
  by (auto simp: bind_reply_def reply_ok_def)

lemma post_obj_ok:
  assumes w: "wf_app s"
    and c: "\<And>ob ae. created = Inr (Some ob, ae) \<Longrightarrow> obj_type ob = rt \<and> fresh_obj ob"
    and f: "\<And>e. created = Inl e \<Longrightarrow> e = JsonTypeMisuse \<or> e = BufferOverflow"
  shows "reply_ok s (post_obj E rt created s)"
proof (cases created)
  case (Inl e)
  with f [of e] show ?thesis by (simp add: post_obj_def reply_ok_def)
next
  case (Inr r)
  obtain res ae where r: "r = (res, ae)" by fastforce
  show ?thesis
  proof (cases res)
    case None
    then show ?thesis using Inr r w by (simp add: post_obj_def reply_ok_def)
  next
    case (Some ob)
    have ob: "obj_type ob = rt" "fresh_obj ob" using c Inr r Some by auto
    define a where "a = next_addr s"
    define s1 where "s1 = snd (app_alloc ob s)"
    have al: "app_alloc ob s = (a, s1)" by (simp add: a_def s1_def app_alloc_def)
    have w1: "wf_app s1" unfolding s1_def by (rule wf_alloc [OF w])
    have h1: "heap s1 a = Some ob" and d1: "db s1 = db s" by (simp_all add: s1_def a_def app_alloc_def)
    from app_add_effect [OF w1 h1 ob, of E ae] obtain s2 where
      s2: "app_add E rt a ae s1 =
        (if sm_has (db s1 rt) (obj_name ob)
         then Inr (False, [], ae_add 403 (rtype_to_label rt @ '' already exists'') ae, s1)
         else Inr (True, obj_serialize ob, ae, s2))"
      "\<not> sm_has (db s1 rt) (obj_name ob) \<Longrightarrow> wf_app s2" by blast
    have "wf_app (post_refused rt a s1)"
      using w1 wf_free [OF w1, of a] wf_fresh_unused [OF w] d1
      by (auto simp: post_refused_def a_def)
    moreover have "db (post_refused rt a s1) = db s" by (simp add: post_refused_def app_free_def d1)
    ultimately show ?thesis
      using Inr r Some al s2
      by (cases "sm_has (db s1 rt) (obj_name ob)") (simp_all add: post_obj_def reply_ok_def respond_def)
  qed
qed

lemma slice_create_fault: "slice_create d ae mem = Inl f \<Longrightarrow> f = JsonTypeMisuse"
proof -
  have g: "get_bool v = Inl f \<Longrightarrow> f = JsonTypeMisuse" "get_int v = Inl f \<Longrightarrow> f = JsonTypeMisuse" for v f
    by (cases v; simp add: get_int_def split: if_splits)+
  then have m: "member_or get_bool v k x = Inl f \<Longrightarrow> f = JsonTypeMisuse"
    "member_or get_int v k y = Inl f \<Longrightarrow> f = JsonTypeMisuse"
    "at_member v k get_int = Inl f \<Longrightarrow> f = JsonTypeMisuse" for v k x y f
    by (auto simp: member_or_def at_member_def split: option.splits)
  have c: "at_member v k get_cstring = Inl f \<Longrightarrow> f = JsonTypeMisuse" for v k f
    by (auto simp: at_member_def get_cstring_fault split: option.splits)
  show "slice_create d ae mem = Inl f \<Longrightarrow> f = JsonTypeMisuse"
    by (auto simp: slice_create_def bind_outcome_Inl_iff dest: m c
        split: if_splits prod.splits bool.splits option.splits)
qed

lemma NodeB_new_fault: "NodeB_new t mcc mnc n l = Inl f \<Longrightarrow> f = BufferOverflow"
  by (auto simp: NodeB_new_def build_name_def bind_outcome_Inl_iff Let_def split: if_splits)

lemma nodeb_create_fault: "nodeb_create d ae mem = Inl f \<Longrightarrow> f = JsonTypeMisuse \<or> f = BufferOverflow"
proof -
  have g: "get_uint v = Inl f \<Longrightarrow> f = JsonTypeMisuse" "get_int v = Inl f \<Longrightarrow> f = JsonTypeMisuse" for v f
    by (cases v; simp add: get_int_def get_uint_def split: if_splits)+
  then have m: "at_member v k get_int = Inl f \<Longrightarrow> f = JsonTypeMisuse" for v k f
    by (auto simp: at_member_def split: option.splits)
  have c: "at_member v k get_cstring = Inl f \<Longrightarrow> f = JsonTypeMisuse" for v k f
    by (auto simp: at_member_def get_cstring_fault split: option.splits)
  show "nodeb_create d ae mem = Inl f \<Longrightarrow> f = JsonTypeMisuse \<or> f = BufferOverflow"
    by (auto simp: nodeb_create_def bind_outcome_Inl_iff dest: m c g NodeB_new_fault
        split: if_splits prod.splits bool.splits option.splits)
qed

lemma ue_create_fresh: "ue_create d ae mem = Inr (Some u, ae') \<Longrightarrow> bound_slice u = []"
  by (auto simp: ue_create_def Ue1_def Ue3_def split: if_splits prod.splits bool.splits option.splits)

lemma nodeb_create_fresh: "nodeb_create d ae mem = Inr (Some nb, ae') \<Longrightarrow> nb_slices nb = []"
  by (cases rule: nodeb_create_cases) (auto simp: NodeB_new_def)

lemma post_ok:
  assumes "wf_app s"
  shows "reply_ok s (postNodeB E mem b s)" "reply_ok s (postSlice E mem b s)" "reply_ok s (postUe E mem b s)"
proof -
  show "reply_ok s (postNodeB E mem b s)"
    unfolding postNodeB_def
    by (rule post_obj_ok [OF assms])
       (auto simp: map_created_def bind_outcome_Inl_iff dest: nodeb_create_fresh nodeb_create_fault)
  show "reply_ok s (postSlice E mem b s)"
    unfolding postSlice_def
    by (rule post_obj_ok [OF assms])
       (auto simp: map_created_def bind_outcome_Inl_iff dest: slice_create_Some slice_create_fault)
  have "faultless (ue_create (json_parse E b) fresh_ae mem)" by (rule ue_create_total)
  then show "reply_ok s (postUe E mem b s)"
    unfolding postUe_def
    by (intro post_obj_ok [OF assms])
       (auto simp: map_created_def bind_outcome_Inl_iff faultless_iff dest: ue_create_fresh)
qed

text \<open>
  Binding a subscriber needs a slice with a name: a path parameter is never empty, but the interface
  of \<open>App\<close> does not require it.
\<close>

fun request_named :: "request \<Rightarrow> bool" where
  "request_named (PostSliceUe sl i) = (sl \<noteq> [])" | "request_named _ = True"

lemma serve_ok:
  assumes "wf_app s" "request_named req"
  shows "reply_ok s (serve E v mem req s)"
  using assms
  by (cases req)
     (simp_all add: getVersion_def getNodeBs_def getSlices_def getUes_def getNodeB_def getSlice_def getUe_def
       putNodeB_def putSlice_def putUe_def deleteNodeB_def deleteSlice_def deleteUe_def
       postNodeBSliceBinding_def deleteNodeBSliceBinding_def postSliceUeBinding_def deleteSliceUeBinding_def
       get_all_ok get_one_ok put_one_ok delete_one_ok post_ok
       bind_reply_ok [OF bind_slice_nodeb_effect] bind_reply_ok [OF unbind_slice_nodeb_effect]
       bind_reply_ok [OF bind_ue_slice_effect] bind_reply_ok [OF unbind_ue_slice_effect]
       reply_ok_def [of s "Inr _"] respond_def)

end
