(* ===== verification/App_Push.thy ===== *)
theory App_Push
  imports Rest_Server
begin

text \<open>
  What reaches the RAN: the abstract view of pushing a control request is the list of NodeBs a slice
  is bound to, each sent one message, in the order of their names, with consecutive instance ids.
\<close>

section \<open>The NodeBs a slice is bound to\<close>

definition bound_names :: "app \<Rightarrow> string \<Rightarrow> string list" where
  "bound_names s slice_name =
     map fst (filter (\<lambda>(k, a). case heap s a of Some (ObjNodeB nb) \<Rightarrow> is_slice_bound nb slice_name | _ \<Rightarrow> False)
       (db s NodeBResource))"

lemma push_bound_fold:
  assumes "\<And>k a. (k, a) \<in> set l \<Longrightarrow> \<exists>nb. heap s a = Some (ObjNodeB nb) \<and> nb_name nb = k" "same_store s t"
  shows "push_bound E name c l t =
    Inr (fold (app_control E c)
      (map fst (filter (\<lambda>(k, a). case heap s a of Some (ObjNodeB nb) \<Rightarrow> is_slice_bound nb name | _ \<Rightarrow> False) l)) t)"
  using assms
proof (induction l arbitrary: t)
  case (Cons x l)
  obtain k a where x: "x = (k, a)" by fastforce
  obtain nb where nb: "heap s a = Some (ObjNodeB nb)" "nb_name nb = k" using Cons.prems(1) [of k a] x by auto
  have g: "get_nodeb t a = Inr nb"
    using nb Cons.prems(2) by (simp add: get_nodeb_heap same_store_def)
  have IH: "same_store s u \<Longrightarrow> push_bound E name c l u =
    Inr (fold (app_control E c)
      (map fst (filter (\<lambda>(k, a). case heap s a of Some (ObjNodeB nb) \<Rightarrow> is_slice_bound nb name | _ \<Rightarrow> False) l)) u)"
    for u using Cons.prems(1) by (intro Cons.IH) auto
  show ?case
    using g nb x IH Cons.prems(2) same_store_trans [OF Cons.prems(2) app_control_store]
    by (cases "is_slice_bound nb name") simp_all
qed simp

lemma push_bound_names:
  assumes "wf_app s"
  shows "push_bound E name c (db s NodeBResource) s = Inr (fold (app_control E c) (bound_names s name) s)"
  unfolding bound_names_def
proof (rule push_bound_fold)
  fix k a assume "(k, a) \<in> set (db s NodeBResource)"
  from wf_entries_live [OF assms this] obtain ob where
    "heap s a = Some ob" "obj_type ob = NodeBResource" "obj_name ob = k" by blast
  then show "\<exists>nb. heap s a = Some (ObjNodeB nb) \<and> nb_name nb = k" by (cases ob) auto
qed simp

lemma bound_names_set:
  assumes "wf_app s"
  shows "n \<in> set (bound_names s slice_name) \<longleftrightarrow>
    (\<exists>a nb. sm_get (db s NodeBResource) n = Some a \<and> heap s a = Some (ObjNodeB nb) \<and> is_slice_bound nb slice_name)"
proof -
  have wf: "sm_wf (db s NodeBResource)" using assms by (simp add: wf_app_def store_ok_def)
  have c: "(case heap s a of Some (ObjNodeB nb) \<Rightarrow> is_slice_bound nb slice_name | _ \<Rightarrow> False) \<longleftrightarrow>
      (\<exists>nb. heap s a = Some (ObjNodeB nb) \<and> is_slice_bound nb slice_name)" for a
    by (auto split: option.splits obj.splits)
  have "n \<in> set (bound_names s slice_name) \<longleftrightarrow> (\<exists>a. (n, a) \<in> set (db s NodeBResource) \<and>
      (case heap s a of Some (ObjNodeB nb) \<Rightarrow> is_slice_bound nb slice_name | _ \<Rightarrow> False))"
    unfolding bound_names_def by (auto simp: image_iff Bex_def)
  then show ?thesis using c sm_get_in_set [OF wf] by simp
qed

lemma bound_names_distinct: "wf_app s \<Longrightarrow> distinct (bound_names s slice_name)"
proof -
  assume "wf_app s"
  then have "distinct (map fst (db s NodeBResource))" by (simp add: wf_app_def store_ok_def sm_wf_distinct)
  then show ?thesis by (simp add: bound_names_def distinct_map_filter)
qed

section \<open>Messages\<close>

definition control_msg :: "env \<Rightarrow> control \<Rightarrow> int \<Rightarrow> string \<Rightarrow> int \<Rightarrow> rmr_msg" where
  "control_msg E c rid meid iid =
     rmr_message E (the (encode_pdu E (control_request_pdu E (ControlRequest rid iid 1 c CONTROL_REQUEST_ACK))))
       RIC_CONTROL_REQ (req_to_subid E rid iid) meid []"

definition encodes :: "env \<Rightarrow> bool" where
  "encodes E \<longleftrightarrow> (\<forall>v. aper_encode E v \<noteq> None)"

lemma control_request_pdu_meid [simp]: "control_request_pdu E (r\<lparr>cr_meid := m\<rparr>) = control_request_pdu E r"
  by (simp add: control_request_pdu_def)

lemma ControlRequest_simps [simp]:
  "cr_instance_id (ControlRequest r i f c a) = i" "cr_requestor_id (ControlRequest r i f c a) = r"
  "cr_ack_request (ControlRequest r i f c a) = a"
  by (simp_all add: ControlRequest_def)

lemma app_control_outbox:
  assumes "tables_wf s" "encodes E"
  shows "map fst (outbox (app_control E c n s)) =
      map fst (outbox s) @ [control_msg E c (requestor_id s) n (next_instance_id s)] \<and>
    next_instance_id (app_control E c n s) = next_instance_id s + 1 \<and>
    requestor_id (app_control E c n s) = requestor_id s"
proof -
  let ?r = "ControlRequest (requestor_id s) (next_instance_id s) 1 c CONTROL_REQUEST_ACK"
  obtain buf where buf: "encode_pdu E (control_request_pdu E ?r) = Some buf"
    using assms(2) by (auto simp: encodes_def encode_pdu_def)
  have fresh: "\<not> sm_has (controls s) (next_instance_id s)"
    using assms(1) by (auto simp: tables_wf_def)
  show ?thesis
    using buf fresh
    by (simp add: app_control_def get_next_instance_id_def send_control_request_def send_message_def
        control_msg_def Let_def)
qed

fun control_msgs :: "env \<Rightarrow> control \<Rightarrow> int \<Rightarrow> int \<Rightarrow> string list \<Rightarrow> rmr_msg list" where
  "control_msgs E c rid iid [] = []"
| "control_msgs E c rid iid (n # ns) = control_msg E c rid n iid # control_msgs E c rid (iid + 1) ns"

lemma fold_app_control_outbox:
  assumes "tables_wf s" "encodes E"
  shows "map fst (outbox (fold (app_control E c) ns s)) =
      map fst (outbox s) @ control_msgs E c (requestor_id s) (next_instance_id s) ns"
  using assms(1)
proof (induction ns arbitrary: s)
  case (Cons n ns)
  show ?case
    using Cons.IH [OF app_control_tables [OF Cons.prems]] app_control_outbox [OF Cons.prems assms(2), of c n]
    by simp
qed simp

lemma control_msgs_meids: "map rm_meid (control_msgs E c rid iid ns) = map cstr ns"
  by (induction ns arbitrary: iid) (simp_all add: control_msg_def rmr_message_def)

end
