(* ===== verification/Reachability.thy ===== *)
theory Reachability
  imports App_Push
begin

text \<open>
  The running application: every state is reached from the initial one by northbound requests and
  received RMR messages, in any order. A request or message that meets a fault has no successor. The
  theory also holds a concrete environment and a concrete scenario, on which the hypotheses of the
  properties are instantiated.
\<close>

section \<open>Steps\<close>

inductive app_step :: "env \<Rightarrow> git_version \<Rightarrow> app \<Rightarrow> app \<Rightarrow> bool" for E v where
  northbound: "request_named req \<Longrightarrow> serve E v mem req s = Inr (resp, s') \<Longrightarrow> app_step E v s s'"
| southbound: "handle_rmr_message E now msg s = Inr s' \<Longrightarrow> app_step E v s s'"

inductive_cases app_step_elim: "app_step E v s s'"

inductive reachable :: "env \<Rightarrow> git_version \<Rightarrow> app \<Rightarrow> bool" for E v where
  start: "reachable E v App"
| step: "reachable E v s \<Longrightarrow> app_step E v s s' \<Longrightarrow> reachable E v s'"

lemma app_step_wf: "app_step E v s s' \<Longrightarrow> wf_app s \<Longrightarrow> wf_app s'"
proof (induction rule: app_step.induct)
  case (northbound req mem s resp s')
  with serve_ok [of s req E v mem] show ?case by (simp add: reply_ok_def)
qed (rule handle_rmr_message_wf)

lemma reachable_wf: "reachable E v s \<Longrightarrow> wf_app s"
  by (induction rule: reachable.induct) (auto intro: wf_App app_step_wf)

section \<open>A scenario\<close>

text \<open>An environment whose codec accepts everything and whose JSON parser knows a few documents.\<close>

definition demo_json :: "string \<Rightarrow> json" where
  "demo_json t =
     (if t = ''n'' then JObject [(''type'', JString ''gNB''), (''id'', JInt 411),
                                 (''mcc'', JString ''001''), (''mnc'', JString ''01'')]
      else if t = ''s'' then JObject [(''name'', JString ''slow'')]
      else if t = ''e'' then JObject [(''name'', JString [])]
      else if t = ''u'' then JObject [(''imsi'', JString ''001010123456789'')]
      else if t = ''p'' then JObject [(''allocation_policy'',
             JObject [(''type'', JString ''proportional''), (''share'', JInt 256)])]
      else JNull)"

definition demo_env :: env where
  "demo_env =
     \<lparr>aper_encode = (\<lambda>_. Some [1]), aper_decode_pdu = (\<lambda>_. None),
      aper_decode_nx_ind_header = (\<lambda>_. True), aper_decode_nx_ind_message = (\<lambda>_. None),
      aper_decode_nx_outcome = (\<lambda>_. None), aper_decode_kpm_header = (\<lambda>_. True),
      aper_decode_kpm_message = (\<lambda>_. Some KpmFormat_other), string_hash = (\<lambda>_. 0),
      rmr_available = (\<lambda>n. n), rmr_send = (\<lambda>_ _. True), json_parse = demo_json\<rparr>"

definition demo_version :: git_version where
  "demo_version = \<lparr>GIT_COMMIT = [], GIT_TAG = [], GIT_BRANCH = [], BUILD_TIMESTAMP = []\<rparr>"

lemma demo_encodes [simp]: "encodes demo_env"
  by (simp add: encodes_def demo_env_def)

text \<open>A sequence of requests; the statuses of the responses and the final state.\<close>

fun run :: "env \<Rightarrow> request list \<Rightarrow> app \<Rightarrow> (int list \<times> app) outcome" where
  "run E [] s = Inr ([], s)"
| "run E (r # rs) s =
     bind_outcome (serve E demo_version False r s) (\<lambda>(resp, s1).
     bind_outcome (run E rs s1) (\<lambda>(sts, s2). Inr (status resp # sts, s2)))"

lemma run_reachable:
  "run E rs s = Inr (sts, s') \<Longrightarrow> list_all request_named rs \<Longrightarrow> reachable E demo_version s \<Longrightarrow>
     reachable E demo_version s'"
proof (induction rs arbitrary: s sts)
  case (Cons r rs)
  then obtain resp s1 sts1 where "serve E demo_version False r s = Inr (resp, s1)" "run E rs s1 = Inr (sts1, s')"
    by (auto split: prod.splits)
  moreover from this Cons.prems have "reachable E demo_version s1"
    by (auto intro: reachable.step app_step.northbound)
  ultimately show ?case using Cons.IH Cons.prems(2) by auto
qed simp

definition demo_requests :: "request list" where
  "demo_requests =
     [PostNodeB ''n'', PostSlice ''s'', PostUe ''u'', PostNodeBSlice ''gnB_001_001_00019b'' ''slow'',
      PostSliceUe ''slow'' ''001010123456789'']"

definition demo_run :: "(int list \<times> app) outcome" where
  "demo_run = run demo_env demo_requests App"

definition demo_state :: app where
  "demo_state = (case demo_run of Inr (_, s) \<Rightarrow> s | Inl _ \<Rightarrow> App)"

text \<open>The state before the two bindings.\<close>

definition demo_unbound :: app where
  "demo_unbound = (case run demo_env (take 3 demo_requests) App of Inr (_, s) \<Rightarrow> s | Inl _ \<Rightarrow> App)"

lemma demo_unbound_statuses:
  "case run demo_env (take 3 demo_requests) App of Inl _ \<Rightarrow> False | Inr (sts, _) \<Rightarrow> sts = [201, 201, 201]"
  by code_simp

lemma demo_unbound_reachable: "reachable demo_env demo_version demo_unbound"
proof -
  obtain sts s where r: "run demo_env (take 3 demo_requests) App = Inr (sts, s)"
    using demo_unbound_statuses by (auto split: sum.splits)
  have "list_all request_named (take 3 demo_requests)" by (simp add: demo_requests_def)
  from run_reachable [OF r this reachable.start] show ?thesis
    by (simp add: demo_unbound_def r)
qed

lemma demo_statuses: "case demo_run of Inl _ \<Rightarrow> False | Inr (sts, _) \<Rightarrow> sts = [201, 201, 201, 200, 200]"
  by code_simp

lemma demo_reachable: "reachable demo_env demo_version demo_state"
proof -
  obtain sts s where r: "run demo_env demo_requests App = Inr (sts, s)"
    using demo_statuses by (auto simp: demo_run_def split: sum.splits)
  have "list_all request_named demo_requests" by (simp add: demo_requests_def)
  from run_reachable [OF r this reachable.start] show ?thesis
    by (simp add: demo_state_def demo_run_def r)
qed

lemma demo_wf: "wf_app demo_state"
  by (rule reachable_wf [OF demo_reachable])

text \<open>The addresses the scenario's objects got: the NodeB, the slice and the subscriber.\<close>

lemma demo_entries:
  "sm_get (db demo_state NodeBResource) ''gnB_001_001_00019b'' = Some 0"
  "sm_get (db demo_state SliceResource) ''slow'' = Some 1"
  "sm_get (db demo_state UeResource) ''001010123456789'' = Some 2"
  by code_simp+

end
