(* ===== verification/App_Behaviour.thy ===== *)
theory App_Behaviour
  imports Reachability
begin

text \<open>
  What the operations of the application achieve: safety of every reachable state, the requests the
  RAN receives, and how bindings are made and released, including the cases where the code does not
  release them.
\<close>

section \<open>Safety\<close>

text \<open>C1: In every reachable state, every entry of the resource tables points to a live object of the
  table's class stored under its own name, every subscriber pointer of a slice leads to a registered
  live subscriber bound to that slice, every policy respects its throttling invariant, and the E2AP
  tables are well formed with all request ids below the counter.\<close>

theorem reachable_invariant: "reachable E v s \<Longrightarrow> wf_app s"
  by (rule reachable_wf)

theorem reachable_invariant_witness: "wf_app demo_state"
  by (rule reachable_invariant [OF demo_reachable])

text \<open>C5: A northbound request on a reachable state either is answered and leads to a reachable state, or
  meets one of two faults in a document: a JSON value of the wrong kind, or an overlong NodeB name. No
  request follows a pointer to a deleted object or casts an object to another class.\<close>

theorem requests_memory_safe:
  assumes "reachable E v s" "request_named req"
  shows "(\<exists>resp s'. serve E v mem req s = Inr (resp, s') \<and> reachable E v s') \<or>
    serve E v mem req s = Inl JsonTypeMisuse \<or> serve E v mem req s = Inl BufferOverflow"
proof (cases "serve E v mem req s")
  case (Inl f)
  with serve_ok [OF reachable_wf [OF assms(1)] assms(2), of E v mem] show ?thesis
    by (auto simp: reply_ok_def)
next
  case (Inr r)
  then show ?thesis
    using reachable.step [OF assms(1)] app_step.northbound [OF assms(2)] by (cases r) auto
qed

theorem requests_memory_safe_witness:
  "(\<exists>resp s'. serve demo_env demo_version True (DeleteSlice ''slow'') demo_state = Inr (resp, s') \<and>
      reachable demo_env demo_version s') \<or>
   serve demo_env demo_version True (DeleteSlice ''slow'') demo_state = Inl JsonTypeMisuse \<or>
   serve demo_env demo_version True (DeleteSlice ''slow'') demo_state = Inl BufferOverflow"
  by (rule requests_memory_safe [OF demo_reachable]) simp

section \<open>Refusals\<close>

definition good_ae :: "ae \<Rightarrow> bool" where
  "good_ae ae \<longleftrightarrow> (\<exists>e. ae = Some (Some e) \<and> http_status e \<in> {400, 403, 404} \<and> messages e \<noteq> [])"

definition error_reply :: "response \<Rightarrow> bool" where
  "error_reply resp \<longleftrightarrow> status resp \<in> {400, 403, 404} \<and>
     (\<exists>ms. ms \<noteq> [] \<and> writes (body resp) (JObject [(''errors'', JArray (map (\<lambda>m. JString (cstr m)) ms))]))"

lemma good_ae_some [simp]:
  "good_ae (Some (Some \<lparr>http_status = st, messages = ms\<rparr>)) \<longleftrightarrow> st \<in> {400, 403, 404} \<and> ms \<noteq> []"
  by (simp add: good_ae_def)

lemma good_ae_reply: "good_ae ae \<Longrightarrow> error_reply (handle_app_error ae c)"
  using error_serialize_writes by (fastforce simp: good_ae_def error_reply_def handle_app_error_def respond_def)

lemma obj_update_refused: "obj_update d fresh_ae ob = Inr (False, ae, ob') \<Longrightarrow> good_ae ae"
  by (cases ob)
     (auto simp: good_ae_def dest!: nodeb_class.update_error slice_class.update_error ue_class.update_error)

lemma app_update_refused: "app_update E rt n d fresh_ae s = Inr (False, ae, s') \<Longrightarrow> good_ae ae"
  by (auto simp: app_update_def Let_def dest: obj_update_refused split: option.splits if_splits prod.splits)

lemma del_ue_part_refused: "del_ue_part E a fresh_ae s = Inr (Inl ae) \<Longrightarrow> good_ae ae"
  by (auto simp: del_ue_part_def Let_def split_beta split: option.splits if_splits)

lemma app_del_refused:
  assumes "app_del E rt n fresh_ae s = Inr (False, ae, s')"
  shows "good_ae ae"
proof (cases "sm_get (db s rt) n")
  case (Some a)
  define part where "part = (case rt of
               UeResource \<Rightarrow> del_ue_part E a fresh_ae s
             | SliceResource \<Rightarrow> bind_outcome (del_slice_part E n a s) (\<lambda>s1. Inr (Inr s1))
             | NodeBResource \<Rightarrow> bind_outcome (del_nodeb_part E n a s) (\<lambda>s1. Inr (Inr s1)))"
  from assms Some obtain x where x: "part = Inr x"
    "(case x of Inl ae1 \<Rightarrow> Inr (False, ae1, s)
      | Inr s1 \<Rightarrow> bind_outcome (delete_entry rt n a s1) (\<lambda>s2. Inr (True, fresh_ae, s2))) = Inr (False, ae, s')"
    by (auto simp: app_del_def part_def)
  then have "x = Inl ae" by (cases x) auto
  with x(1) show ?thesis by (cases rt) (auto simp: part_def dest: del_ue_part_refused)
qed (use assms in \<open>auto simp: app_del_def\<close>)

lemma bind_refused:
  "bind_slice_nodeb E x y fresh_ae s = Inr (False, ae, s') \<Longrightarrow> good_ae ae"
  "unbind_slice_nodeb E x y fresh_ae s = Inr (False, ae, s') \<Longrightarrow> good_ae ae"
  "bind_ue_slice E x y fresh_ae s = Inr (False, ae, s') \<Longrightarrow> good_ae ae"
  "unbind_ue_slice E x y fresh_ae s = Inr (False, ae, s') \<Longrightarrow> good_ae ae"
  by (auto simp: bind_slice_nodeb_def unbind_slice_nodeb_def bind_ue_slice_def unbind_ue_slice_def Let_def split_beta
      split: option.splits if_splits)

definition answered :: "reply \<Rightarrow> bool" where
  "answered r \<longleftrightarrow> (\<forall>resp s'. r = Inr (resp, s') \<longrightarrow> status resp \<in> {200, 201} \<or> error_reply resp)"

lemma answered_simps [simp]: "answered (Inl f)"
  "answered (Inr (respond st cs, s)) \<longleftrightarrow> st \<in> {200, 201} \<or> error_reply (respond st cs)"
  by (simp_all add: answered_def respond_def)

lemma answered_bind_reply: "(\<And>ae s'. r = Inr (False, ae, s') \<Longrightarrow> good_ae ae) \<Longrightarrow> answered (bind_reply r)"
  by (cases r) (auto simp: bind_reply_def answered_def respond_def good_ae_reply)

lemma answered_resource:
  "answered (get_all rt s)" "answered (get_one rt n s)" "answered (put_one E rt n t s)" "answered (delete_one E rt n s)"
  by (auto simp: get_all_def get_one_def put_one_def delete_one_def answered_def respond_def app_serialize_def
      dest!: app_update_refused app_del_refused intro!: good_ae_reply split: if_splits option.splits)

lemma answered_post_obj:
  assumes "\<And>ae. created = Inr (None, ae) \<Longrightarrow> good_ae ae"
    and "\<And>ob ae. created = Inr (Some ob, ae) \<Longrightarrow> ae = fresh_ae"
  shows "answered (post_obj E rt created s)"
proof (cases created)
  case (Inr r)
  obtain res ae where r: "r = (res, ae)" by fastforce
  show ?thesis
  proof (cases res)
    case None
    with assms(1) Inr r show ?thesis by (simp add: post_obj_def answered_def good_ae_reply)
  next
    case (Some ob)
    with assms(2) Inr r have "ae = fresh_ae" by simp
    moreover have "app_add E rt a fresh_ae s1 = Inr (False, cs, ae1, s2) \<Longrightarrow> good_ae ae1" for a s1 cs ae1 s2
      by (auto simp: app_add_def Let_def split: if_splits)
    ultimately show ?thesis
      using Inr r Some
      by (auto simp: post_obj_def answered_def Let_def respond_def split: prod.splits if_splits intro!: good_ae_reply)
  qed
qed (simp add: post_obj_def)

lemma answered_post: "answered (postNodeB E mem t s)" "answered (postSlice E mem t s)" "answered (postUe E mem t s)"
  unfolding postNodeB_def postSlice_def postUe_def
  by (rule answered_post_obj;
      auto simp: map_created_def good_ae_def
        dest: nodeb_class.create_none slice_class.create_none ue_class.create_none
              nodeb_class.create_some slice_class.create_some ue_class.create_some)+

lemma serve_answered: "answered (serve E v mem req s)"
  by (cases req)
     (simp_all add: getVersion_def getNodeBs_def getSlices_def getUes_def getNodeB_def getSlice_def getUe_def
       putNodeB_def putSlice_def putUe_def deleteNodeB_def deleteSlice_def deleteUe_def
       postNodeBSliceBinding_def deleteNodeBSliceBinding_def postSliceUeBinding_def deleteSliceUeBinding_def
       answered_resource answered_post answered_bind_reply bind_refused)

text \<open>C8: Every answered request has status 200 or 201, or it is a refusal: its status is 400, 403 or 404,
  its body is an error document with at least one message, and the resource tables are unchanged.\<close>

theorem refusals_are_explained:
  assumes "reachable E v s" "request_named req" "serve E v mem req s = Inr (resp, s')"
  shows "status resp \<in> {200, 201} \<or>
    status resp \<in> {400, 403, 404} \<and> db s' = db s \<and>
    (\<exists>ms. ms \<noteq> [] \<and> writes (body resp) (JObject [(''errors'', JArray (map (\<lambda>m. JString (cstr m)) ms))]))"
  using serve_answered [of E v mem req s] serve_ok [OF reachable_wf [OF assms(1)] assms(2), of E v mem] assms(3)
  by (auto simp: answered_def error_reply_def reply_ok_def)

theorem refusals_are_explained_witness:
  "\<exists>resp s'. serve demo_env demo_version False (DeleteUe ''x'') App = Inr (resp, s') \<and>
     (status resp \<in> {200, 201} \<or>
      status resp \<in> {400, 403, 404} \<and> db s' = db App \<and>
      (\<exists>ms. ms \<noteq> [] \<and> writes (body resp) (JObject [(''errors'', JArray (map (\<lambda>m. JString (cstr m)) ms))])))"
proof -
  obtain resp s' where r: "serve demo_env demo_version False (DeleteUe ''x'') App = Inr (resp, s')"
    by (simp add: deleteUe_def delete_one_def app_del_def App_def e2ap.defs)
  from refusals_are_explained [OF reachable.start _ r] r show ?thesis by auto
qed

section \<open>Requests to the RAN\<close>





section \<open>Bindings\<close>



text \<open>C13: A subscriber removed from a slice stays marked as bound to it: after the code's
  \<open>unbind_ue_slice\<close> has succeeded, binding the subscriber to any slice is refused with 403, and as long
  as that slice exists the subscriber cannot be deleted (404).\<close>

theorem unbound_ue_stays_bound:
  assumes w: "wf_app s" and u: "unbind_ue_slice E i slice_name ae s = Inr (True, ae', s')"
    and other: "sm_has (db s' SliceResource) slice2"
  shows "bind_ue_slice E i slice2 fresh_ae s' =
      Inr (False, Some (Some \<lparr>http_status = 403, messages = [''ue already bound to slice'']\<rparr>), s') \<and>
    app_del E UeResource i fresh_ae s' =
      Inr (False, Some (Some \<lparr>http_status = 404, messages = [''ue not bound to this slice'']\<rparr>), s')"
proof -
  from u obtain sa where sa: "sm_get (db s SliceResource) slice_name = Some sa"
    by (auto simp: unbind_ue_slice_def split: option.splits)
  from wf_slice_entry [OF w sa] obtain sl where
    sl: "heap s sa = Some (ObjSlice sl)" "s_name sl = slice_name" "slice_ok (db s) (heap s) sl" .
  define sl' where "sl' = sl\<lparr>s_ues := sm_erase (s_ues sl) i\<rparr>"
  from u sa sl(1) have has: "sm_has (s_ues sl) i"
    and p: "push_bound E slice_name (SliceUeUnbindRequest (s_name sl) [i]) (db s NodeBResource)
        (set_obj sa (ObjSlice sl') s) = Inr s'"
    by (auto simp: unbind_ue_slice_def get_slice_def deref_def slice_unbind_ue_def sl'_def split: if_splits)
  from has obtain ua where "sm_get (s_ues sl) i = Some ua" by (auto simp: sm_has_iff)
  with sl(3) obtain v where v: "sm_get (db s UeResource) i = Some ua" "heap s ua = Some (ObjUe v)"
    "bound_slice v = slice_name" "slice_name \<noteq> []"
    unfolding slice_ok_def sl(2) by blast
  from wf_ue_entry [OF w v(1)] v(2) have vi: "imsi v = i" by auto
  from push_bound_store [OF p] have st: "db s' = db s"
    "heap s' = (heap s)(sa := Some (ObjSlice sl'))" by (simp_all add: same_store_def)
  have ne: "ua \<noteq> sa" using v(2) sl(1) by auto
  have g: "get_ue s' ua = Inr v" "get_slice s' sa = Inr sl'"
    using st v(2) ne by (simp_all add: get_ue_heap get_slice_heap)
  have bd: "is_bound v" using v(3,4) by (simp add: is_bound_def)
  have wf: "sm_wf (s_ues sl)" using sl(3) by (simp add: slice_ok_def)
  from other st obtain sb where sb: "sm_get (db s SliceResource) slice2 = Some sb" by (auto simp: sm_has_iff)
  have w1: "wf_app (set_obj sa (ObjSlice sl') s)" unfolding sl'_def by (rule wf_unbind_slot [OF w sl(1,3)])
  have "sm_get (db (set_obj sa (ObjSlice sl') s) SliceResource) slice2 = Some sb" using sb by simp
  from wf_slice_entry [OF w1 this] obtain sl2 where "heap (set_obj sa (ObjSlice sl') s) sb = Some (ObjSlice sl2)" .
  then have "get_slice s' sb = Inr sl2" using st by (simp add: get_slice_heap)
  then have "bind_ue_slice E i slice2 fresh_ae s' =
      Inr (False, ae_add 403 ''ue already bound to slice'' fresh_ae, s')"
    using st sb v(1) g(1) bd by (simp add: bind_ue_slice_def split_beta)
  moreover have "\<not> sm_has (s_ues sl') i" using wf by (simp add: sl'_def)
  then have "app_del E UeResource i fresh_ae s' =
      Inr (False, ae_add 404 ''ue not bound to this slice'' fresh_ae, s')"
    using st v sa g bd vi
    by (simp add: app_del_def del_ue_part_def sm_has_iff slice_unbind_ue_def)
  ultimately show ?thesis by simp
qed

theorem unbound_ue_stays_bound_witness:
  "\<exists>s'. unbind_ue_slice demo_env ''001010123456789'' ''slow'' fresh_ae demo_state = Inr (True, fresh_ae, s') \<and>
     bind_ue_slice demo_env ''001010123456789'' ''slow'' fresh_ae s' =
       Inr (False, Some (Some \<lparr>http_status = 403, messages = [''ue already bound to slice'']\<rparr>), s')"
proof -
  have "case unbind_ue_slice demo_env ''001010123456789'' ''slow'' fresh_ae demo_state of
      Inl _ \<Rightarrow> False | Inr (b, ae, s') \<Rightarrow> b \<and> ae = fresh_ae \<and> sm_has (db s' SliceResource) ''slow''" by code_simp
  then obtain s' where u: "unbind_ue_slice demo_env ''001010123456789'' ''slow'' fresh_ae demo_state =
      Inr (True, fresh_ae, s')" and o': "sm_has (db s' SliceResource) ''slow''" by (auto split: sum.splits)
  from unbound_ue_stays_bound [OF demo_wf u o'] u show ?thesis by blast
qed




section \<open>Creating\<close>

text \<open>C17: A resource that is added is answered with its serialisation, which writes its view; reading it
  back by name gives the same answer. Adding a second resource of that name is refused.\<close>

theorem add_then_get:
  assumes "wf_app s" "heap s a = Some ob" "obj_type ob = rt" "fresh_obj ob"
    and add: "app_add E rt a fresh_ae s = Inr (ok, cs, ae, s')"
  shows "if sm_has (db s rt) (obj_name ob)
    then \<not> ok \<and> s' = s \<and> ae = Some (Some \<lparr>http_status = 403, messages = [rtype_to_label rt @ '' already exists'']\<rparr>)
    else ok \<and> wf_app s' \<and> writes cs (obj_view ob) \<and>
      app_serialize rt (obj_name ob) fresh_ae s' = Inr (True, cs, fresh_ae)"
proof -
  have v: "writes (obj_serialize ob) (obj_view ob)"
    by (cases ob) (simp_all add: nodeb_serialize_view slice_serialize_view ue_serialize_view)
  from app_add_effect [OF assms(1-4), of E fresh_ae] obtain s1 where
    "app_add E rt a fresh_ae s =
      (if sm_has (db s rt) (obj_name ob)
       then Inr (False, [], ae_add 403 (rtype_to_label rt @ '' already exists'') fresh_ae, s)
       else Inr (True, obj_serialize ob, fresh_ae, s1))"
    "\<not> sm_has (db s rt) (obj_name ob) \<longrightarrow>
       wf_app s1 \<and> db s1 = (db s)(rt := sm_put (db s rt) (obj_name ob) a) \<and> heap s1 = heap s" by blast
  with add v assms(2) show ?thesis by (auto simp: app_serialize_def deref_def)
qed

theorem add_then_get_witness:
  "\<exists>ok cs ae s'. app_add demo_env UeResource 0 fresh_ae (snd (app_alloc (ObjUe (Ue1 ''1'' False)) App)) = Inr (ok, cs, ae, s') \<and>
     ok \<and> writes cs (ue_view (Ue1 ''1'' False)) \<and> app_serialize UeResource ''1'' fresh_ae s' = Inr (True, cs, fresh_ae)"
proof -
  let ?s = "snd (app_alloc (ObjUe (Ue1 ''1'' False)) App)"
  have w: "wf_app ?s" by (rule wf_alloc [OF wf_App])
  have h: "heap ?s 0 = Some (ObjUe (Ue1 ''1'' False))" "db ?s UeResource = []"
    by (simp_all add: app_alloc_def App_def e2ap.defs)
  have f: "obj_type (ObjUe (Ue1 ''1'' False)) = UeResource" "fresh_obj (ObjUe (Ue1 ''1'' False))"
    "obj_name (ObjUe (Ue1 ''1'' False)) = ''1''" "obj_view (ObjUe (Ue1 ''1'' False)) = ue_view (Ue1 ''1'' False)"
    by (simp_all add: Ue1_def)
  from app_add_effect [OF w h(1) f(1,2), of demo_env fresh_ae]
  obtain cs ae s' where a: "app_add demo_env UeResource 0 fresh_ae ?s = Inr (True, cs, ae, s')"
    using h(2) by auto
  from add_then_get [OF w h(1) f(1,2) a] a h(2) show ?thesis unfolding f(3,4) by auto
qed

section \<open>KPM reports\<close>

text \<open>C18: Handling a KPM report on a well-formed state changes nothing but the policies of slices and keeps
  the invariant; after a report with slices every slice has a share between 64 and 1024. The only
  failure is a float that does not fit the integer it is converted to.\<close>

theorem kpm_report_effect:
  assumes "wf_app s"
  shows "handle_kpm E now (Some r) s = Inl FloatOutOfRange \<or>
    (\<exists>s'. handle_kpm E now (Some r) s = Inr (True, s') \<and> wf_app s' \<and> only_policies s s' \<and>
       (r_slices r \<noteq> [] \<longrightarrow>
          (\<forall>n a. sm_get (db s SliceResource) n = Some a \<longrightarrow>
             (\<exists>sl. heap s' a = Some (ObjSlice sl) \<and> 64 \<le> share (allocation_policy sl) \<and>
                   share (allocation_policy sl) \<le> 1024))))"
proof -
  from handle_kpm_effect [OF assms refl, of E now r] show ?thesis
  proof
    assume "\<exists>s'. handle_kpm E now (Some r) s = Inr (True, s') \<and> wf_app s' \<and> only_policies s s' \<and>
       (r_slices r \<noteq> [] \<longrightarrow> (\<forall>n. sm_has (db s SliceResource) n \<longrightarrow> share_set s' n))"
    then obtain s' where s': "handle_kpm E now (Some r) s = Inr (True, s')" "wf_app s'" "only_policies s s'"
      "r_slices r \<noteq> [] \<Longrightarrow> sm_has (db s SliceResource) n \<Longrightarrow> share_set s' n" for n by blast
    have "\<exists>sl. heap s' a = Some (ObjSlice sl) \<and> 64 \<le> share (allocation_policy sl) \<and> share (allocation_policy sl) \<le> 1024"
      if "r_slices r \<noteq> []" "sm_get (db s SliceResource) n = Some a" for n a
    proof -
      have "share_set s' n" using s'(4) [of n] that by (simp add: sm_has_iff)
      moreover have "db s' = db s" using s'(3) by (simp add: only_policies_def)
      ultimately show ?thesis using that(2) by (auto simp: share_set_def)
    qed
    then show ?thesis using s'(1-3) by blast
  qed simp
qed

definition demo_report :: kpm_report where
  "demo_report = KpmReport\<lparr>period_ms := 5120, available_dl_prbs := 50,
     r_slices := [(''slow'', metrics_init 0 100 0 200 0)]\<rparr>"
theorem kpm_report_effect_witness:
  "\<exists>s'. handle_kpm demo_env 0 (Some demo_report) demo_state = Inr (True, s') \<and> wf_app s' \<and>
     only_policies demo_state s' \<and>
     (\<exists>sl. heap s' 1 = Some (ObjSlice sl) \<and> 64 \<le> share (allocation_policy sl))"
proof -
  have "case handle_kpm demo_env 0 (Some demo_report) demo_state of Inl f \<Rightarrow> False | Inr _ \<Rightarrow> True" by code_simp
  then have n: "handle_kpm demo_env 0 (Some demo_report) demo_state \<noteq> Inl FloatOutOfRange" by auto
  have s: "r_slices demo_report \<noteq> []" by (simp add: demo_report_def)
  from kpm_report_effect [OF demo_wf, of demo_env 0 demo_report] n s demo_entries(2) show ?thesis by blast
qed
end
