(* ===== verification/Protocol_Behaviour.thy ===== *)
theory Protocol_Behaviour
  imports Reachability
begin

text \<open>
  What the E2AP library achieves with the application as its agent: how requests are remembered and
  responses matched, which messages change nothing, and where a message is mishandled.
\<close>

section \<open>Sending\<close>

text \<open>C19: A control request with a fresh instance id is never taken for a duplicate: it is handed to RMR
  whenever it can be encoded, it is remembered exactly when RMR accepted it, and no other table or
  resource changes.\<close>

theorem control_request_remembered:
  assumes w: "tables_wf s" and i: "get_next_instance_id s = (iid, s1)"
    and r: "req = ControlRequest (requestor_id s) iid fid c CONTROL_REQUEST_ACK"
    and b: "encode_pdu E (control_request_pdu E req) = Some buf"
  shows "\<exists>ok s'. send_control_request E (send_message E) s1 req meid = (ok, s') \<and>
    ok = rmr_send E (map fst (outbox s)) (rmr_message E buf RIC_CONTROL_REQ (req_to_subid E (requestor_id s) iid) meid []) \<and>
    controls s' = (if ok then sm_put (controls s) iid req else controls s) \<and>
    map fst (outbox s') = map fst (outbox s) @
      [rmr_message E buf RIC_CONTROL_REQ (req_to_subid E (requestor_id s) iid) meid []] \<and>
    same_store s s' \<and> pending_subscriptions s' = pending_subscriptions s \<and>
    subscriptions s' = subscriptions s \<and> pending_deletes s' = pending_deletes s"
proof -
  obtain ok s' where c: "send_control_request E (send_message E) s1 req meid = (ok, s')" by fastforce
  from fresh_id [OF w i] have w1: "tables_wf s1" and new: "\<not> sm_has (controls s1) iid" by auto
  have ack: "cr_ack_request req = CONTROL_REQUEST_ACK" by (simp add: r)
  have s1: "s1 = s\<lparr>next_instance_id := next_instance_id s + 1\<rparr>" using i by (auto simp: get_next_instance_id_def)
  from app_agent.control_effect [OF w1 c ack] have e: "controls s' = (if ok then sm_put (controls s) iid req else controls s)"
    "pending_subscriptions s' = pending_subscriptions s" "subscriptions s' = subscriptions s"
    "pending_deletes s' = pending_deletes s"
    by (simp_all add: r s1)
  have "ok = rmr_send E (map fst (outbox s)) (rmr_message E buf RIC_CONTROL_REQ (req_to_subid E (requestor_id s) iid) meid []) \<and>
    map fst (outbox s') = map fst (outbox s) @
      [rmr_message E buf RIC_CONTROL_REQ (req_to_subid E (requestor_id s) iid) meid []]"
    using c b new ack
    by (auto simp: send_control_request_def send_message_def Let_def r s1 split: if_splits)
  moreover have "same_store s s'"
    using send_control_store [of s1 E req meid] c by (simp add: s1 same_store_def)
  ultimately show ?thesis using c e by blast
qed

theorem control_request_remembered_witness:
  "\<exists>ok s'. send_control_request demo_env (send_message demo_env) (App\<lparr>next_instance_id := 2\<rparr>)
      (ControlRequest 123 1 1 (SliceStatusRequest []) CONTROL_REQUEST_ACK) ''n'' = (ok, s') \<and> ok \<and>
    controls s' = [(1, ControlRequest 123 1 1 (SliceStatusRequest []) CONTROL_REQUEST_ACK)]"
proof -
  have a: "tables_wf App" using wf_App by (simp add: wf_app_def)
  have f: "requestor_id App = 123" "next_instance_id App = 1" "controls App = []"
    by (simp_all add: App_def E2AP_def e2ap.defs)
  have i: "get_next_instance_id App = (1, App\<lparr>next_instance_id := 2\<rparr>)"
    by (simp add: get_next_instance_id_def f)
  have b: "encode_pdu demo_env (control_request_pdu demo_env
      (ControlRequest (requestor_id App) 1 1 (SliceStatusRequest []) CONTROL_REQUEST_ACK)) = Some [1]"
    by (simp add: encode_pdu_def demo_env_def)
  from control_request_remembered [OF a i refl b, of "''n''"] f
  show ?thesis by (auto simp: demo_env_def)
qed

text \<open>Transaction ids identify requests: two requests have the same id only if requestor and instance
  agree.\<close>

theorem xid_identifies_request: "req_to_xid r i = req_to_xid r' i' \<longleftrightarrow> r = r' \<and> i = i'"
  by (rule req_to_xid_inject)



section \<open>Receiving\<close>



text \<open>C22: A subscription response with a pending transaction id is recorded under the RMR subscription id
  with its request and is no longer pending; everything else stays, and the same response received
  again is ignored.\<close>

theorem subscription_response_recorded:
  assumes w: "tables_wf s" and d: "decode_pdu E buf = Some (SuccessfulOutcome RICsubscription c ies)"
    and p: "lookup_pending_subscription s xid = Some req"
  shows "\<exists>s' resp. handle_message E now (app_handle E now) s buf subid meid xid = Inr (False, s') \<and>
    lookup_subscription s' subid = Some resp \<and> sp_req resp = req \<and>
    lookup_pending_subscription s' xid = None \<and>
    (\<forall>i. i \<noteq> subid \<longrightarrow> lookup_subscription s' i = lookup_subscription s i) \<and>
    (\<forall>x. x \<noteq> xid \<longrightarrow> lookup_pending_subscription s' x = lookup_pending_subscription s x) \<and>
    same_store s s' \<and> controls s' = controls s \<and>
    handle_message E now (app_handle E now) s' buf subid meid xid = Inr (False, s')"
proof -
  obtain resp where r: "decode_subscription_response s ies xid = Some resp"
    using p by (simp add: decode_subscription_response_def)
  with decode_subscription_response_req [OF r] p have q: "sp_req resp = req" by simp
  define s' where "s' = s\<lparr>subscriptions := sm_put (subscriptions s) subid resp,
      pending_subscriptions := sm_erase (pending_subscriptions s) xid\<rparr>"
  have wf: "sm_wf (pending_subscriptions s)" using w by (simp add: tables_wf_def)
  have one: "handle_message E now (app_handle E now) s buf subid meid xid = Inr (False, s')"
    using d r by (simp add: handle_message_def s'_def)
  have gone: "lookup_pending_subscription s' xid = None"
    using wf by (simp add: lookup_pending_subscription_def s'_def)
  have two: "handle_message E now (app_handle E now) s' buf subid meid xid = Inr (False, s')"
    using d gone by (simp add: handle_message_def decode_subscription_response_def)
  show ?thesis
    using one two gone q wf
    by (intro exI [of _ s'] exI [of _ resp])
       (simp add: lookup_subscription_def lookup_pending_subscription_def s'_def same_store_def)
qed

definition demo_subscription :: subscription_request where
  "demo_subscription = SubscriptionRequest 123 2 0 (Some kpm_trigger_default) []"

theorem subscription_response_recorded_witness:
  "\<exists>s' resp. handle_message (demo_env\<lparr>aper_decode_pdu := (\<lambda>_. Some (SuccessfulOutcome RICsubscription Reject []))\<rparr>) 0
      (app_handle (demo_env\<lparr>aper_decode_pdu := (\<lambda>_. Some (SuccessfulOutcome RICsubscription Reject []))\<rparr>) 0)
      (App\<lparr>next_instance_id := 3, pending_subscriptions := [(req_to_xid 123 2, demo_subscription)]\<rparr>)
      [] 7 [] (req_to_xid 123 2) = Inr (False, s') \<and>
    lookup_subscription s' 7 = Some resp \<and> sp_req resp = demo_subscription"
proof -
  let ?E = "demo_env\<lparr>aper_decode_pdu := (\<lambda>_. Some (SuccessfulOutcome RICsubscription Reject []))\<rparr>"
  let ?s = "App\<lparr>next_instance_id := 3, pending_subscriptions := [(req_to_xid 123 2, demo_subscription)]\<rparr>"
  have d: "decode_pdu ?E [] = Some (SuccessfulOutcome RICsubscription Reject [])"
    by (simp add: decode_pdu_def)
  have f: "requestor_id App = 123" "controls App = []" "subscriptions App = []" "pending_deletes App = []"
    by (simp_all add: App_def E2AP_def e2ap.defs)
  have w: "tables_wf ?s"
    by (auto simp: tables_wf_def f sm_wf_def sm_has_def intro: exI [of _ 2])
  have p: "lookup_pending_subscription ?s (req_to_xid 123 2) = Some demo_subscription"
    by (simp add: lookup_pending_subscription_def sm_get_def)
  show ?thesis using subscription_response_recorded [OF w d p, of 0 7 "[]"] by blast
qed

section \<open>Faults and messages without effect\<close>

definition message_fault :: "fault \<Rightarrow> bool" where
  "message_fault f \<longleftrightarrow> f \<in> {IndeterminateRead, NullDeref, FloatOutOfRange}"

lemma app_handle_fault:
  assumes "wf_app s" "app_handle E now s ev = Inl f"
  shows "message_fault f"
proof (cases ev)
  case (Ev_indication ind)
  show ?thesis
  proof (cases "in_model ind")
    case None
    then show ?thesis using Ev_indication assms(2) by (simp add: message_fault_def)
  next
    case (Some i)
    show ?thesis
    proof (cases i)
      case (KpmIndication r)
      then have h: "handle_kpm E now r s = Inl f" using Ev_indication Some assms(2) by simp
      show ?thesis
      proof (cases r)
        case None
        then show ?thesis using h by (simp add: handle_kpm_def message_fault_def)
      next
        case r: (Some k)
        from handle_kpm_effect [OF assms(1) r, of E now] h show ?thesis by (auto simp: message_fault_def)
      qed
    qed (use Ev_indication Some assms(2) in simp)
  qed
qed (use assms(2) in simp_all)

lemma decode_indication_fault:
  "decode_indication E now s ies subid = Inl f \<Longrightarrow> message_fault f"
  by (auto simp: decode_indication_def model_decode_indication_def kpm_decode_fault_iff bind_outcome_Inl_iff
      message_fault_def Let_def split: prod.splits if_splits option.splits event_trigger.splits)

lemma handle_message_fault:
  assumes w: "wf_app s" and m: "handle_message E now (app_handle E now) s buf subid meid xid = Inl f"
  shows "message_fault f"
proof -
  have ev: "message_fault f" if "table_step s ev s1" "handle_opt (app_handle E now) s1 ev = Inl f" for ev s1
    using that app_handle_fault [OF wf_table_step [OF w that(1)]]
    by (auto simp: handle_opt_def split: option.splits)
  obtain p where p: "decode_pdu E buf = Some p"
    using m by (auto simp: handle_message_def split: option.splits)
  show ?thesis
  proof (cases p)
    case (InitiatingMessage q c ies)
    then have h: "handle_initiating E now (app_handle E now) s q ies subid = Inl f"
      using m p by (simp add: handle_message_def)
    show ?thesis
    proof (cases "\<exists>f. q = RICindication \<and> decode_indication E now s ies subid = Inl f")
      case True
      then show ?thesis using h decode_indication_fault by auto
    next
      case False
      then have "\<exists>ev. handle_initiating E now (app_handle E now) s q ies subid = handle_opt (app_handle E now) s ev"
      proof (cases "q = RICindication")
        case True
        with False obtain r where "decode_indication E now s ies subid = Inr r"
          by (cases "decode_indication E now s ies subid") auto
        with True show ?thesis
          by (intro exI [of _ "map_option Ev_indication r"]) (cases r; simp add: handle_opt_def)
      next
        case False
        then show ?thesis
          by (cases q) (auto simp: handle_opt_def intro: exI [of _ None] exI [of _ "Some e" for e])
      qed
      then show ?thesis using h app_handle_fault [OF w] by (auto simp: handle_opt_def split: option.splits)
    qed
  next
    case (SuccessfulOutcome q c ies)
    then show ?thesis using m p handle_successful_steps [of s E "app_handle E now" q ies subid xid] ev
      by (auto simp: handle_message_def)
  next
    case (UnsuccessfulOutcome q c ies)
    then show ?thesis using m p handle_unsuccessful_steps [of s E "app_handle E now" q ies xid] ev
      by (auto simp: handle_message_def)
  qed (use m p in \<open>simp add: handle_message_def\<close>)
qed

text \<open>C6: A received message leads from a reachable state to a reachable state, or meets one of three faults: a
  member that was never initialised, the null report of a KPM message of another format, a share that is
  no number. It never follows a dangling pointer.\<close>

theorem messages_memory_safe:
  assumes "reachable E v s"
  shows "(\<exists>s'. handle_rmr_message E now msg s = Inr s' \<and> reachable E v s') \<or>
    (\<exists>f. handle_rmr_message E now msg s = Inl f \<and> f \<in> {IndeterminateRead, NullDeref, FloatOutOfRange})"
proof (cases "handle_rmr_message E now msg s")
  case (Inl f)
  then have "message_fault f"
    using handle_message_fault [OF reachable_wf [OF assms]]
    by (auto simp: handle_rmr_message_def bind_outcome_Inl_iff split: if_splits)
  with Inl show ?thesis by (simp add: message_fault_def)
next
  case (Inr s')
  then show ?thesis using reachable.step [OF assms] app_step.southbound [of E now msg s s' v] by blast
qed

definition demo_msg :: "mtype \<Rightarrow> rmr_msg" where
  "demo_msg t = \<lparr>rm_mtype = t, rm_subid = 7, rm_len = 0, rm_payload = [], rm_meid = [], rm_xact = None\<rparr>"

theorem messages_memory_safe_witness:
  "\<exists>s'. handle_rmr_message demo_env 0 (demo_msg RIC_INDICATION) demo_state = Inr s' \<and> reachable demo_env demo_version s'"
proof -
  have "handle_rmr_message demo_env 0 (demo_msg RIC_INDICATION) demo_state \<noteq> Inl f" for f
    by (simp add: handle_rmr_message_def handle_message_def decode_pdu_def demo_env_def demo_msg_def)
  with messages_memory_safe [OF demo_reachable, of 0 "demo_msg RIC_INDICATION"] show ?thesis by auto
qed

text \<open>C23: The answers to control requests and all unsuccessful outcomes change nothing: a control request stays
  remembered after its acknowledgement or failure, and a subscription or a deletion that failed stays
  pending.\<close>

theorem answers_without_effect:
  assumes "decode_pdu E buf = Some p"
    and "(\<exists>c ies. p = SuccessfulOutcome RICcontrol c ies) \<or> (\<exists>q c ies. p = UnsuccessfulOutcome q c ies)"
  shows "handle_message E now (app_handle E now) s buf subid meid xid = Inr (False, s)"
  using assms(2)
proof (elim disjE exE)
  fix c ies assume p: "p = SuccessfulOutcome RICcontrol c ies"
  show ?thesis
    using assms(1) p decode_control_ack_req [of E s ies] by (cases "decode_control_ack E s ies") (auto simp: handle_message_def)
next
  fix q c ies assume p: "p = UnsuccessfulOutcome q c ies"
  show ?thesis
    using assms(1) p decode_control_failure_req [of E s ies]
    by (cases q; cases "decode_control_failure E s ies"; cases "decode_subscription_failure s ies xid";
        cases "decode_subscription_delete_failure s ies xid") (auto simp: handle_message_def)
qed

theorem answers_without_effect_witness:
  "handle_message (demo_env\<lparr>aper_decode_pdu := (\<lambda>_. Some (SuccessfulOutcome RICcontrol Reject [(Reject, RICrequestID 123 1)]))\<rparr>) 0
     (app_handle (demo_env\<lparr>aper_decode_pdu := (\<lambda>_. Some (SuccessfulOutcome RICcontrol Reject [(Reject, RICrequestID 123 1)]))\<rparr>) 0)
     demo_state [] 0 [] [] = Inr (False, demo_state) \<and> sm_has (controls demo_state) 1"
proof
  show "sm_has (controls demo_state) 1" by code_simp
qed (rule answers_without_effect, auto simp: decode_pdu_def)

end
