(* ===== verification/Data_Behaviour.thy ===== *)
theory Data_Behaviour
  imports Reachability
begin

text \<open>
  What the data classes guarantee on their own: validation and serialisation of documents, the names
  of NodeBs, the metrics window and the throttling state machine, and the messages of the service
  models.
\<close>

section \<open>Documents\<close>

text \<open>C37: Validation accepts exactly the documents that conform to the schema of the class. A refused
  document gets status 400 and the list of all its violations in the order of the four loops, or only
  the first of them in a class that asks for an immediate abort; an accepted one gets no error.\<close>

theorem validation_decides_conformance:
  "validate_json T m obj (Some None) =
     (if conforms T m obj then (True, Some None)
      else (False, Some (Some \<lparr>http_status = 400,
              messages = (if propertyErrorImmediateAbort T then take 1 (violations T m obj)
                          else violations T m obj)\<rparr>)))"
proof (cases "propertyErrorImmediateAbort T")
  case True
  then show ?thesis
    by (cases "violations T m obj") (auto simp: validate_json_aborts simp flip: violations_conforms)
next
  case False
  then show ?thesis
    by (auto simp: validate_json_collects ae_adds_fresh simp flip: violations_conforms)
qed

text \<open>C38: A slice without subscribers that is read from the interface can be posted back: the document
  its serialisation writes is accepted and creates a slice with the same view.\<close>

theorem slice_view_recreates:
  assumes "throttling_inv (allocation_policy s)" "s_ues s = []"
    and "int32_range (throttle_threshold (allocation_policy s))"
    and "int32_range (throttle_period (allocation_policy s))"
    and "int32_range (throttle_share (allocation_policy s))"
  shows "\<exists>s'. slice_create (slice_view s) (Some None) mem = Inr (Some s', Some None) \<and>
    writes (slice_serialize s') (slice_view s) \<and> slice_view s' = slice_view s"
proof -
  let ?p = "allocation_policy s" and ?d = "slice_view s"
  have m: "json_member ?d ''name'' = Some (JString (cstr (s_name s)))"
    "json_member ?d ''allocation_policy'' = Some (policy_view ?p)"
    by (simp_all add: slice_view_def json_member_def)
  then have "conforms Slice_schema POST ?d" by (simp add: slice_post_conforms)
  then have v: "validate_json Slice_schema POST ?d (Some None) = (True, Some None)"
    by (simp add: validate_json_True)
  have sh: "0 \<le> share ?p" "share ?p \<le> 1024" using assms(1) by (simp_all add: throttling_inv_def share_ok_def)
  then have r: "int32_range (share ?p)" by (simp add: int32_range_def)
  have pm: "json_member (policy_view ?p) ''type'' = Some (JString ''proportional'')"
    "json_member (policy_view ?p) ''share'' = Some (JInt (share ?p))"
    "json_member (policy_view ?p) ''auto_equalize'' = Some (JBool (auto_equalize ?p))"
    "json_member (policy_view ?p) ''throttle'' = Some (JBool (throttle ?p))"
    "json_member (policy_view ?p) ''throttle_threshold'' = Some (JInt (throttle_threshold ?p))"
    "json_member (policy_view ?p) ''throttle_period'' = Some (JInt (throttle_period ?p))"
    "json_member (policy_view ?p) ''throttle_share'' = Some (JInt (throttle_share ?p))"
    by (simp_all add: policy_view_def json_member_def)
  have o: "is_object ?d" "is_object (policy_view ?p)" by (simp_all add: slice_view_def policy_view_def)
  have c: "cstr ''proportional'' = ''proportional''" by (simp add: no_nul_def)
  define s' where "s' = Slice2 (cstr (s_name s)) (ProportionalAllocationPolicy (share ?p) (auto_equalize ?p)
      (throttle ?p) (throttle_threshold ?p) (throttle_period ?p) (throttle_share ?p))"
  have "slice_create ?d (Some None) mem = Inr (Some s', Some None)"
    using m v o pm c sh r assms(3-5)
    by (simp add: slice_create_def member_is_text_def member_in_range_def member_not_bool_def member_or_def
        at_member_def get_int_def s'_def)
  moreover have "slice_view s' = slice_view s"
    using assms(2) by (simp add: s'_def slice_view_def policy_view_def Slice2_def ProportionalAllocationPolicy_def)
  ultimately show ?thesis using slice_serialize_view [of s'] by metis
qed

theorem slice_view_recreates_witness:
  "\<exists>s'. slice_create (slice_view (Slice1 ''fast'')) (Some None) True = Inr (Some s', Some None) \<and>
     slice_view s' = slice_view (Slice1 ''fast'')"
proof -
  have "throttling_inv (allocation_policy (Slice1 ''fast''))" "s_ues (Slice1 ''fast'') = []"
    "int32_range (throttle_threshold (allocation_policy (Slice1 ''fast'')))"
    "int32_range (throttle_period (allocation_policy (Slice1 ''fast'')))"
    "int32_range (throttle_share (allocation_policy (Slice1 ''fast'')))"
    by (simp_all add: Slice1_def Slice2_def default_policy_def throttling_inv_new share_ok_def)
       (simp_all add: ProportionalAllocationPolicy_def int32_range_def)
  from slice_view_recreates [OF this, of True] show ?thesis by blast
qed

text \<open>A successful update of a policy changes the share and the two flags at most: the threshold,
  period and share of throttling keep their values, whatever the document says about them.\<close>

theorem policy_update_keeps_throttle_settings:
  assumes "policy_update d ae p = Inr (True, ae', p')"
  shows "\<exists>n eq th. p' = p\<lparr>share := n, auto_equalize := eq, throttle := th\<rparr> \<and>
    json_member d ''share'' = Some (JInt n) \<and> 0 \<le> n \<and> n \<le> 1024 \<and>
    (case json_member d ''auto_equalize'' of None \<Rightarrow> eq = auto_equalize p | Some v \<Rightarrow> v = JBool eq) \<and>
    (case json_member d ''throttle'' of None \<Rightarrow> th = throttle p | Some v \<Rightarrow> v = JBool th)"
proof -
  have b: "get_bool v = Inr x \<longleftrightarrow> v = JBool x" for v x by (cases v) auto
  have i: "get_int v = Inr x \<longleftrightarrow> v = JInt x \<and> int32_range x" for v x
    by (auto simp: get_int_def split: json.splits)
  from assms have r: "member_in_range d ''share'' 0 1024" by (auto simp: policy_update_def split: if_splits)
  from assms obtain n eq th where s: "at_member d ''share'' get_int = Inr n"
    and e: "member_or get_bool d ''auto_equalize'' (auto_equalize p) = Inr eq"
    and t: "member_or get_bool d ''throttle'' (throttle p) = Inr th"
    and p: "p' = p\<lparr>share := n, auto_equalize := eq, throttle := th\<rparr>"
    by (auto simp: policy_update_def split: if_splits)
  have "json_member d ''share'' = Some (JInt n)"
    using s by (auto simp: at_member_def i split: option.splits)
  moreover from this r have "0 \<le> n \<and> n \<le> 1024" by (simp add: member_in_range_def)
  moreover have "case json_member d ''auto_equalize'' of None \<Rightarrow> eq = auto_equalize p | Some v \<Rightarrow> v = JBool eq"
    using e by (auto simp: member_or_def b split: option.splits)
  moreover have "case json_member d ''throttle'' of None \<Rightarrow> th = throttle p | Some v \<Rightarrow> v = JBool th"
    using t by (auto simp: member_or_def b split: option.splits)
  ultimately show ?thesis using p by blast
qed

theorem policy_update_keeps_throttle_settings_witness:
  "\<exists>p'. policy_update (JObject [(''type'', JString ''proportional''), (''share'', JInt 7), (''throttle_period'', JInt 1)])
      (Some None) (default_policy 512) = Inr (True, Some None, p') \<and> share p' = 7 \<and> throttle_period p' = 1800"
proof -
  let ?d = "JObject [(''type'', JString ''proportional''), (''share'', JInt 7), (''throttle_period'', JInt 1)]"
  obtain p' where u: "policy_update ?d (Some None) (default_policy 512) = Inr (True, Some None, p')"
    by (simp add: policy_update_def member_is_text_def member_in_range_def member_not_bool_def member_or_def
        at_member_def json_member_def get_int_def int32_range_def no_nul_def)
  from policy_update_keeps_throttle_settings [OF u] u show ?thesis
    by (auto simp: json_member_def default_policy_def ProportionalAllocationPolicy_def)
qed

text \<open>A document whose policy has a setting of throttling of the wrong kind passes all tests of
  \<open>Slice::create\<close>, and the getter is applied to it.\<close>

theorem untyped_throttle_setting_faults:
  assumes "json_member d ''name'' = Some (JString n)" "json_member d ''allocation_policy'' = Some ap"
    and "is_object d" "is_object ap" "member_is_text ap ''type'' ''proportional''" "member_in_range ap ''share'' 0 1024"
    and "\<not> member_not_bool ap ''auto_equalize''" "json_member ap ''throttle'' = Some v" "\<not> is_bool v"
  shows "slice_create d ae mem = Inl JsonTypeMisuse"
proof -
  have "validate_json Slice_schema POST d ae = (True, ae)"
    using assms(1) by (simp add: validate_json_True slice_post_conforms)
  moreover have "get_bool v = Inl JsonTypeMisuse" using assms(9) by (cases v) simp_all
  moreover obtain b where "member_or get_bool ap ''auto_equalize'' False = Inr b"
    using member_or_bool [OF assms(7)] by blast
  moreover have "member_or get_bool ap ''throttle'' False = Inl JsonTypeMisuse"
    using assms(8) calculation(2) by (simp add: member_or_def)
  ultimately show ?thesis using assms by (simp add: slice_create_def)
qed

theorem untyped_throttle_setting_faults_witness:
  "slice_create (JObject [(''name'', JString ''a''), (''allocation_policy'',
       JObject [(''type'', JString ''proportional''), (''share'', JInt 7), (''throttle'', JInt 1)])]) (Some None) False =
     Inl JsonTypeMisuse"
  by (rule untyped_throttle_setting_faults [where n = "''a''" and v = "JInt 1"
        and ap = "JObject [(''type'', JString ''proportional''), (''share'', JInt 7), (''throttle'', JInt 1)]"])
     (simp_all add: json_member_def member_is_text_def member_in_range_def member_not_bool_def int32_range_def no_nul_def)

section \<open>Names of NodeBs\<close>

text \<open>The name built for a NodeB identifies its country code, padded network code and id among the
  NodeBs with the same prefix, if neither code contains an underscore.\<close>

theorem name_identifies_nodeb:
  assumes "build_name t mcc mnc n l = Inr name" "build_name t' mcc' mnc' n' l' = Inr name"
    and "get_name_prefix t l = get_name_prefix t' l'" "int32_range n" "int32_range n'"
    and "CHR ''_'' \<notin> set mcc \<union> set mcc' \<union> set mnc \<union> set mnc'"
  shows "mcc = mcc' \<and> mnc_padded mnc = mnc_padded mnc' \<and> n = n'"
proof -
  have "name_text t mcc mnc n l = name_text t' mcc' mnc' n' l'"
    using assms(1,2) by (auto simp: build_name_def Let_def split: if_splits)
  then show ?thesis using name_text_inject [of mcc mcc' mnc mnc' t l t' l' n n'] assms(3-6) by simp
qed

theorem name_identifies_nodeb_witness:
  "build_name GNB ''001'' ''01'' 411 20 = Inr ''gnB_001_001_00019b'' \<and>
   build_name GNB_DU ''001'' ''1'' 411 20 = Inr ''gnB_001_001_00019b'' \<and> mnc_padded ''1'' = mnc_padded ''01''"
proof -
  have b: "build_name GNB ''001'' ''01'' 411 20 = Inr ''gnB_001_001_00019b''"
    "build_name GNB_DU ''001'' ''1'' 411 20 = Inr ''gnB_001_001_00019b''" by code_simp+
  have "get_name_prefix GNB_DU 20 = get_name_prefix GNB 20" "int32_range 411"
    by (simp_all add: get_name_prefix_def less_eq_nb_type_def int32_range_def)
  with name_identifies_nodeb [OF b(2,1)] b show ?thesis by simp
qed

text \<open>A gNB, a gNB-CU-UP and a gNB-DU of the same network with the same id get the same name, so at
  most one of them can be added; the id length plays no part either. One- and two-digit network
  codes share the name of the padded code.\<close>

theorem nodeb_names_collide:
  "build_name GNB mcc mnc n l = build_name GNB_DU mcc mnc n l' \<and>
   build_name GNB mcc mnc n l = build_name GNB_CU_UP mcc mnc n l' \<and>
   build_name t mcc [c] n l = build_name t mcc (CHR ''0'' # CHR ''0'' # [c]) n l"
  by (simp add: build_name_def name_text_def get_name_prefix_def less_eq_nb_type_def mnc_padded_def)

text \<open>The buffer of \<open>build_name\<close> holds every name whose codes have at most 96 characters together, and
  overflows whenever they have 128 or more.\<close>

theorem name_buffer_bound:
  "(length mcc + length mnc \<le> 96 \<longrightarrow> build_name t mcc mnc n l = Inr (name_text t mcc mnc n l)) \<and>
   (128 \<le> length mcc + length mnc \<longrightarrow> build_name t mcc mnc n l = Inl BufferOverflow)"
  using build_name_fits build_name_overflow by blast

theorem name_buffer_bound_witness:
  "build_name ENB ''310'' ''410'' 7 18 = Inr (name_text ENB ''310'' ''410'' 7 18) \<and>
   build_name ENB (replicate 128 (CHR ''1'')) [] 7 18 = Inl BufferOverflow"
  using name_buffer_bound [of "''310''" "''410''" ENB 7 18] name_buffer_bound [of "replicate 128 (CHR ''1'')" "[]" ENB 7 18]
  by simp

text \<open>The type strings the interface shows are read back as the same type, and every other string as
  the end marker.\<close>

theorem type_strings_roundtrip:
  "(if t < NB_END then type_string_to_type (type_to_type_string t) = t
    else type_to_type_string t = ''invalid'') \<and>
   (if ts \<in> set type_string_map then type_to_type_string (type_string_to_type ts) = ts
    else type_string_to_type ts = NB_END)"
proof -
  have "type_to_type_string (type_string_to_type ts) = ts" if "ts \<in> set type_string_map"
    using that by (auto simp: type_string_map_def type_string_to_type_def nb_type_of_def
        type_to_type_string_def less_nb_type_def less_eq_nb_type_def)
  then show ?thesis
    by (auto simp: type_string_roundtrip type_string_to_type_unknown)
       (auto simp: type_to_type_string_def)
qed

section \<open>Control requests\<close>

text \<open>C39: The header of an encoded control request announces the kind of the message that follows, and
  requests that differ are encoded from messages that differ, as long as no text contains a NUL.\<close>

theorem control_requests_distinguished:
  assumes "list_all no_nul (control_texts c)" "list_all no_nul (control_texts d)"
  shows "control_encode E c = encode_parts E (control_header c) (control_message c) \<and>
    announces (control_header c) (control_message c) \<and>
    (control_message c = control_message d \<longleftrightarrow> c = d)"
  using control_encode_parts control_announced control_message_inject [OF assms] by blast

theorem control_requests_distinguished_witness:
  "control_message (SliceDeleteRequest [''a'']) = control_message (SliceDeleteRequest [''b'']) \<longleftrightarrow>
     SliceDeleteRequest [''a''] = SliceDeleteRequest [''b'']"
  using control_requests_distinguished [of "SliceDeleteRequest [''a'']" "SliceDeleteRequest [''b'']"]
  by (simp add: no_nul_def)

text \<open>When the encoder fails on the header or the message, \<open>encode\<close> still returns true, and the PDU of
  the control request is built with an empty header and an empty message.\<close>

theorem failed_encoding_is_sent_empty:
  assumes "aper_encode E (NxControlHeader (control_header c)) = None \<or>
    aper_encode E (NxControlMessage (control_message c)) = None"
  shows "fst (control_encode E c) \<and>
    control_request_pdu E (ControlRequest rid iid fid c ack) =
      InitiatingMessage RICcontrol Reject
        [(Reject, RICrequestID rid iid), (Reject, RANfunctionID fid), (Reject, RICcontrolHeader []),
         (Reject, RICcontrolMessage []), (Reject, RICcontrolAckRequest (ack_code ack))]"
  using control_encode_failed [OF assms] control_encode_returns_true [of E c]
  by (simp add: control_request_pdu_def ControlRequest_def get_call_process_id_def)

theorem failed_encoding_is_sent_empty_witness:
  "fst (control_encode (demo_env\<lparr>aper_encode := (\<lambda>_. None)\<rparr>) (SliceStatusRequest []))"
  by (rule failed_encoding_is_sent_empty [THEN conjunct1]) simp

section \<open>KPM reports\<close>

text \<open>C35: The entry of a slice in a decoded report is determined by the last radio note and the last byte
  note for that slice, in any container, cell or PLMN of the message; a slice without notes has no
  entry.\<close>

theorem report_merges_notes:
  assumes "decode_kpm_indication now (KpmFormat1 cs) = Some r"
  shows "sm_get (r_slices r) s =
    (let notes = filter (\<lambda>n. note_name n = s) (concat (map container_notes cs)) in
     if notes = [] then None
     else Some (merged_entry now (last_opt (List.map_filter (radio_of s) notes))
                                 (last_opt (List.map_filter (bytes_of s) notes))))"
proof -
  have f: "List.map_filter (radio_of s) (filter (\<lambda>n. note_name n = s) ns) = List.map_filter (radio_of s) ns"
    "List.map_filter (bytes_of s) (filter (\<lambda>n. note_name n = s) ns) = List.map_filter (bytes_of s) ns" for ns
  proof (induction ns)
    case (Cons n ns)
    { case 1 show ?case using Cons.IH by (cases n) (auto simp: map_filter_Cons) }
    { case 2 show ?case using Cons.IH by (cases n) (auto simp: map_filter_Cons) }
  qed simp_all
  show ?thesis
    using notes_merged [of now "concat (map container_notes cs)" s] decode_notes [OF assms]
    by (simp add: Let_def f filter_empty_conv del: set_concat)
qed

theorem report_merges_notes_witness:
  "\<exists>r. decode_kpm_indication 9 (KpmFormat1 [Some (OCU_UP [[Some \<lparr>perUEReportList = None, perSliceReportList =
        Some [(''a'', \<lparr>bi_bytesDL = Some 5, bi_bytesUL = None\<rparr>), (''a'', \<lparr>bi_bytesDL = Some 7, bi_bytesUL = Some 1\<rparr>)]\<rparr>]])]) = Some r \<and>
     sm_get (r_slices r) ''a'' = Some (metrics_init 9 7 1 0 0) \<and> sm_get (r_slices r) ''b'' = None"
proof -
  let ?cs = "[Some (OCU_UP [[Some \<lparr>perUEReportList = None, perSliceReportList =
        Some [(''a'', \<lparr>bi_bytesDL = Some 5, bi_bytesUL = None\<rparr>), (''a'', \<lparr>bi_bytesDL = Some 7, bi_bytesUL = Some 1\<rparr>)]\<rparr>]])]"
  obtain r where r: "decode_kpm_indication 9 (KpmFormat1 ?cs) = Some r" by simp
  from report_merges_notes [OF r, of "''a''"] report_merges_notes [OF r, of "''b''"] r show ?thesis
    by (auto simp: plmn_notes_def map_filter_Cons map_filter_simps(2) merged_entry_def asn_ulong_def last_opt_def)
qed

text \<open>C36: A decoded report has sorted tables without repeated keys, entries for connected UEs
  (\<open>rnti \<ge> 1\<close>) and named slices only, and every entry carries the time of decoding.\<close>

theorem report_well_formed:
  assumes "decode_kpm_indication now m = Some r"
  shows "sm_wf (r_ues r) \<and> sm_wf (r_slices r) \<and>
    (\<forall>k e. sm_get (r_ues r) k = Some e \<longrightarrow> 1 \<le> k \<and> m_time e = now) \<and>
    (\<forall>k e. sm_get (r_slices r) k = Some e \<longrightarrow> k \<noteq> [] \<and> m_time e = now)"
  using decode_report_ok [OF assms] by (simp add: report_ok_def)

theorem report_well_formed_witness:
  "\<exists>r. decode_kpm_indication 9 (KpmFormat1 [None, Some (OCU_CP (Some 3))]) = Some r \<and>
     sm_wf (r_slices r) \<and> active_ues r = 3"
proof -
  obtain r where r: "decode_kpm_indication 9 (KpmFormat1 [None, Some (OCU_CP (Some 3))]) = Some r" by simp
  from report_well_formed [OF r] r show ?thesis by auto
qed

text \<open>\<open>KpmModel::decode\<close> fails in one case only: a header and message that decode, the message of
  another format than 1, under a subscription with a KPM trigger. The null report is then written to.\<close>

theorem kpm_decode_faults:
  "kpm_decode_indication E now trigger h m = Inl f \<longleftrightarrow>
     f = NullDeref \<and> (\<exists>p. trigger = Some (Trigger_kpm p)) \<and> h \<noteq> [] \<and> m \<noteq> [] \<and>
     aper_decode_kpm_header E h \<and> aper_decode_kpm_message E m = Some KpmFormat_other"
  by (rule kpm_decode_fault_iff)

section \<open>The metrics window\<close>

definition feed_history :: "int \<Rightarrow> (int \<times> entity_metrics) list \<Rightarrow> metrics_index" where
  "feed_history period h = foldl (\<lambda>mi (now, m). mi_add now m mi) (MetricsIndex period) h"

lemma feed_history_snoc: "feed_history p (h @ [(now, m)]) = mi_add now m (feed_history p h)"
  by (simp add: feed_history_def)

lemma feed_history_window:
  assumes "sorted (map fst h)" "chronological (map snd h)" "h \<noteq> []"
  shows "mi_period (feed_history p h) = p \<and> mi_inv (feed_history p h) \<and>
    mi_queue (feed_history p h) = filter (\<lambda>m. fst (last h) - p \<le> m_time m) (map snd h)"
  using assms
proof (induction h rule: rev_induct)
  case (snoc x h)
  obtain now m where x: "x = (now, m)" by fastforce
  let ?mi = "feed_history p h"
  have base: "mi_period ?mi = p \<and> mi_inv ?mi \<and> chronological (mi_queue ?mi) \<and> set (mi_queue ?mi) \<subseteq> set (map snd h) \<and>
      filter (\<lambda>m. now - p \<le> m_time m) (mi_queue ?mi) = filter (\<lambda>m. now - p \<le> m_time m) (map snd h)"
  proof (cases "h = []")
    case True
    then show ?thesis by (simp add: feed_history_def MetricsIndex_def chronological_def mi_inv_new [unfolded MetricsIndex_def])
  next
    case False
    have s: "sorted (map fst h)" "chronological (map snd h)" "fst (last h) \<le> now"
      using snoc.prems False x by (auto simp: sorted_append chronological_def)
    from snoc.IH [OF s(1,2) False] have q: "mi_period ?mi = p" "mi_inv ?mi"
      "mi_queue ?mi = filter (\<lambda>m. fst (last h) - p \<le> m_time m) (map snd h)" by auto
    have "filter (\<lambda>m. now - p \<le> m_time m) (mi_queue ?mi) = filter (\<lambda>m. now - p \<le> m_time m) (map snd h)"
      unfolding q(3) filter_filter by (rule filter_cong) (use s(3) in auto)
    moreover have "chronological (mi_queue ?mi)"
      using s(2) by (simp add: q(3) chronological_def sorted_filter)
    ultimately show ?thesis using q by auto
  qed
  have "\<forall>y \<in> set (mi_queue ?mi). m_time y \<le> m_time m"
    using snoc.prems(2) base x by (auto simp: chronological_def sorted_append)
  with mi_add_window(1) [of ?mi m now] base
  have "mi_queue (mi_add now m ?mi) = filter (\<lambda>x. now - p \<le> m_time x) (mi_queue ?mi @ [m])" by simp
  also have "\<dots> = filter (\<lambda>x. now - p \<le> m_time x) (map snd (h @ [x]))"
    using base x by simp
  finally have "mi_queue (mi_add now m ?mi) = filter (\<lambda>x. now - p \<le> m_time x) (map snd (h @ [x]))" .
  moreover have "mi_period (mi_add now m ?mi) = p" using base by (simp add: mi_add_def)
  moreover have "mi_inv (mi_add now m ?mi)" using base by (intro mi_inv_add) blast
  ultimately show ?case using x by (simp add: feed_history_snoc)
qed simp

text \<open>C34: The loop that flushes the window ends, whatever the queue, the period and the time are, and leaves
  what the recursive definition the other theories use computes.\<close>

theorem flush_terminates:
  "flush_while now mi = Some (mi_flush now mi)"
  unfolding flush_while_def flush_while_loop by (simp add: mi_flush_def split_beta)

text \<open>C33: After any chronological history of reports the queue holds exactly the reports of the last
  period, and the byte total that throttling looks at is their sum.\<close>

theorem window_holds_last_period:
  assumes "sorted (map fst h)" "chronological (map snd h)" "h \<noteq> []"
  shows "mi_queue (feed_history p h) = filter (\<lambda>m. fst (last h) - p \<le> m_time m) (map snd h) \<and>
    get_total_bytes (feed_history p h) =
      (\<Sum>m \<leftarrow> filter (\<lambda>m. fst (last h) - p \<le> m_time m) (map snd h). dl_bytes m + ul_bytes m)"
  using feed_history_window [OF assms, of p] total_bytes_window [of "feed_history p h"] by simp

theorem window_holds_last_period_witness:
  "get_total_bytes (feed_history 10 [(0, metrics_init 0 5 1 0 0), (8, metrics_init 8 7 0 0 0), (15, metrics_init 15 1 1 0 0)]) = 9"
  using window_holds_last_period [of "[(0, metrics_init 0 5 1 0 0), (8, metrics_init 8 7 0 0 0), (15, metrics_init 15 1 1 0 0)]" 10]
  by (simp add: chronological_def) (simp add: metrics_init_def)

section \<open>Throttling\<close>

text \<open>C29: A policy that starts to be throttled asks for the throttled share, is throttled for its period,
  and then gives back the share it had and is as it was before, as long as nothing else changed it.\<close>

theorem throttling_roundtrip:
  assumes "throttling_inv p" "throttle p" "\<not> is_throttling p"
    and "word_of_int (throttle_threshold p) \<le> get_total_bytes (metrics p)"
  shows "\<exists>q. maybeStartThrottling t p = (throttle_share p, q) \<and> is_throttling q \<and> throttling_inv q \<and>
    (\<forall>t' < t + throttle_period p. maybeEndThrottling t' q = (-1, q)) \<and>
    (\<forall>t' \<ge> t + throttle_period p. \<forall>s. share_ok s \<longrightarrow>
       maybeEndThrottling t' (snd (setShare s q)) = (share p, p\<lparr>share := s\<rparr>))"
proof -
  define q where "q = p\<lparr>throttle_saved_share := share p, is_throttling := True, throttle_end := t + throttle_period p\<rparr>"
  have s: "maybeStartThrottling t p = (throttle_share p, q)"
    using assms(2-4) by (auto simp: maybeStartThrottling_def q_def)
  have i: "throttling_inv q" using throttling_inv_start [OF assms(1), of t] s by simp
  have idle: "throttle_end p = 0" "throttle_saved_share p = -1"
    using assms(1,3) by (simp_all add: throttling_inv_def)
  have "p\<lparr>share := s, throttle_saved_share := -1, is_throttling := False, throttle_end := 0\<rparr> = p\<lparr>share := s\<rparr>" for s
    using idle assms(3) by (cases p) simp
  then have e: "maybeEndThrottling t' (snd (setShare s q)) = (share p, p\<lparr>share := s\<rparr>)"
    if "t' \<ge> t + throttle_period p" "share_ok s" for t' s
    using that idle assms(3) by (cases p) (simp add: setShare_in_range maybeEndThrottling_def q_def)
  have "maybeEndThrottling t' q = (-1, q)" if "t' < t + throttle_period p" for t'
    using that assms(2) by (simp add: maybeEndThrottling_def q_def)
  then show ?thesis using s i e by (intro exI [of _ q]) (simp add: q_def)
qed

theorem throttling_roundtrip_witness:
  "\<exists>q. maybeStartThrottling 50 (ProportionalAllocationPolicy 512 False True 0 1800 128) = (128, q) \<and> is_throttling q \<and>
     maybeEndThrottling 1849 q = (-1, q) \<and>
     fst (maybeEndThrottling 1850 (snd (setShare 128 q))) = 512"
proof -
  let ?p = "ProportionalAllocationPolicy 512 False True 0 1800 128"
  have f: "throttle ?p" "\<not> is_throttling ?p" "throttle_threshold ?p = 0" "throttle_period ?p = 1800"
    "throttle_share ?p = 128" "share ?p = 512" by (simp_all add: ProportionalAllocationPolicy_def)
  have "throttling_inv ?p" by (simp add: throttling_inv_new share_ok_def)
  from throttling_roundtrip [OF this f(1,2), of 50] f show ?thesis by (auto simp: share_ok_def)
qed

text \<open>A negative threshold, the default, is compared as a huge unsigned number: throttling never
  starts below \<open>2 ^ 64\<close> bytes less the threshold's magnitude.\<close>

theorem negative_threshold_disables_throttling:
  assumes "throttle_threshold p < 0" "int32_range (throttle_threshold p)"
    and "uint (get_total_bytes (metrics p)) < 2 ^ 64 + throttle_threshold p"
  shows "maybeStartThrottling now p = (-1, p)"
proof -
  have "uint (word_of_int (throttle_threshold p) :: u64) = 2 ^ 64 + throttle_threshold p"
  proof -
    have "throttle_threshold p mod 2 ^ 64 = (throttle_threshold p + 2 ^ 64) mod 2 ^ 64" by simp
    also have "\<dots> = throttle_threshold p + 2 ^ 64"
      using assms(1,2) by (intro mod_pos_pos_trivial) (simp_all add: int32_range_def)
    finally show ?thesis by (simp add: uint_word_of_int)
  qed
  then have "get_total_bytes (metrics p) < word_of_int (throttle_threshold p)"
    using assms(3) by (simp add: word_less_def)
  then show ?thesis by (simp add: maybeStartThrottling_def)
qed

theorem negative_threshold_disables_throttling_witness:
  "maybeStartThrottling 0 ((default_policy 512)\<lparr>throttle := True\<rparr>) = (-1, (default_policy 512)\<lparr>throttle := True\<rparr>)"
  by (rule negative_threshold_disables_throttling)
     (simp_all add: default_policy_def ProportionalAllocationPolicy_def int32_range_def get_total_bytes_def
        MetricsIndex_def metrics_init_def)

end
