(* ===== verification/Float32_Error.thy ===== *)
theory Float32_Error
  imports Float32
begin

text \<open>
  How far a \<open>float\<close> result is from the exact one: rounding is exact on the integers below \<open>2 ^ 24\<close>, and
  otherwise off by at most one part in \<open>2 ^ 24\<close> of the value, plus \<open>2 ^ (-150)\<close> where the value is
  subnormal.
\<close>

section \<open>Powers of two\<close>

lemma pow2_powi: "pow2 k = 2 powi k"
  by (simp add: pow2_def power_int_def power_one_over inverse_eq_divide)

lemma pow2_pos [simp]: "0 < pow2 k"
  by (simp add: pow2_powi)

lemma pow2_nonzero [simp]: "pow2 k \<noteq> 0"
  by (metis pow2_pos less_irrefl)

lemma pow2_add: "pow2 (j + k) = pow2 j * pow2 k"
  by (simp add: pow2_powi power_int_add)

lemma pow2_nat: "pow2 (int n) = 2 ^ n"
  by (simp add: pow2_def)

lemma pow2_mono: "j \<le> k \<Longrightarrow> pow2 j \<le> pow2 k"
  by (simp add: pow2_powi power_int_increasing)

lemma pow2_max: "pow2 (max j k) \<le> pow2 j + pow2 k"
  by (simp add: max_def add_increasing add_increasing2 less_imp_le)

section \<open>The exponent\<close>

lemma bit_length_bounds:
  "0 < n \<Longrightarrow> 1 \<le> bit_length n \<and> pow2 (bit_length n - 1) \<le> of_int n \<and> of_int n < pow2 (bit_length n)"
proof (induction n rule: bit_length.induct)
  case (1 n)
  show ?case
  proof (cases "n = 1")
    case True
    then show ?thesis by (simp add: bit_length.simps pow2_def)
  next
    case False
    with 1 have h: "0 < n div 2" by auto
    with 1 have ih: "1 \<le> bit_length (n div 2)" "pow2 (bit_length (n div 2) - 1) \<le> of_int (n div 2)"
      "of_int (n div 2) < pow2 (bit_length (n div 2))" by auto
    have b: "bit_length n = bit_length (n div 2) + 1" using 1(2) by (simp add: bit_length.simps [of n])
    have p: "pow2 (bit_length (n div 2)) = 2 * pow2 (bit_length (n div 2) - 1)"
      "pow2 (bit_length (n div 2) + 1) = 2 * pow2 (bit_length (n div 2))"
      using pow2_add [of "bit_length (n div 2) - 1" 1] pow2_add [of "bit_length (n div 2)" 1]
      by (simp_all add: pow2_def [of 1])
    have i: "pow2 (bit_length (n div 2)) = of_int (2 ^ nat (bit_length (n div 2)))"
      using ih(1) by (simp add: pow2_def)
    have "n div 2 < 2 ^ nat (bit_length (n div 2))" using ih(3) unfolding i of_int_less_iff .
    then have "n < 2 * 2 ^ nat (bit_length (n div 2))" by linarith
    then have u: "of_int n < 2 * pow2 (bit_length (n div 2))"
      unfolding i by (metis of_int_less_iff of_int_mult of_int_numeral)
    have "2 * (n div 2) \<le> n" by linarith
    then have "of_int (2 * (n div 2)) \<le> (of_int n :: rat)" unfolding of_int_le_iff .
    then have "2 * of_int (n div 2) \<le> (of_int n :: rat)" by simp
    then show ?thesis using u p b ih(1,2) by simp
  qed
qed

lemma exponent_bounds:
  assumes "0 < x"
  shows "pow2 (exponent x) \<le> x \<and> x < pow2 (exponent x + 1)"
proof -
  obtain p q where pq: "quotient_of x = (p, q)" by fastforce
  have x: "x = of_int p / of_int q" and q: "0 < q"
    using quotient_of_div [OF pq] quotient_of_denom_pos [OF pq] by auto
  with assms have p: "0 < p" by (simp add: zero_less_divide_iff)
  let ?a = "bit_length p" and ?b = "bit_length q"
  note bp = bit_length_bounds [OF p] and bq = bit_length_bounds [OF q]
  have q': "0 < (of_int q :: rat)" using q by simp
  have "x < pow2 (?a - ?b + 1)"
  proof -
    have "of_int p < pow2 (?a - ?b + 1) * pow2 (?b - 1)"
      using bp by (simp flip: pow2_add)
    also have "\<dots> \<le> pow2 (?a - ?b + 1) * of_int q"
      using bq by (intro mult_left_mono) (simp_all add: less_imp_le)
    finally show ?thesis using q' by (simp add: x divide_less_eq)
  qed
  moreover have "pow2 (?a - ?b - 1) \<le> x"
  proof -
    have "pow2 (?a - ?b - 1) * of_int q \<le> pow2 (?a - ?b - 1) * pow2 ?b"
      using bq by (intro mult_left_mono) (simp_all add: less_imp_le)
    also have "\<dots> \<le> of_int p" using bp by (simp flip: pow2_add)
    finally show ?thesis using q' by (simp add: x le_divide_eq)
  qed
  ultimately show ?thesis using pq by (auto simp: exponent_def Let_def not_le)
qed

section \<open>Rounding\<close>

lemma round_even_error: "\<bar>of_int (round_even y) - y\<bar> \<le> 1 / 2"
proof -
  have "of_int \<lfloor>y\<rfloor> \<le> y" "y < of_int \<lfloor>y\<rfloor> + 1" by linarith+
  then show ?thesis by (auto simp: round_even_def Let_def abs_le_iff)
qed

lemma round_even_int [simp]: "round_even (of_int n) = n"
  by (simp add: round_even_def)

definition f32_step :: "rat \<Rightarrow> rat" where
  "f32_step x = pow2 (max (exponent \<bar>x\<bar> - 23) (-149))"

lemma f32_step_bound: "x \<noteq> 0 \<Longrightarrow> f32_step x \<le> \<bar>x\<bar> / 2 ^ 23 + 1 / 2 ^ 149"
proof -
  assume "x \<noteq> 0"
  then have "pow2 (exponent \<bar>x\<bar>) \<le> \<bar>x\<bar>" using exponent_bounds [of "\<bar>x\<bar>"] by simp
  moreover have "pow2 (exponent \<bar>x\<bar> - 23) = pow2 (exponent \<bar>x\<bar>) / 2 ^ 23"
    using pow2_add [of "exponent \<bar>x\<bar>" "- 23"] by (simp add: pow2_def [of "- 23"])
  moreover have "pow2 (- 149) = 1 / 2 ^ 149" by (simp add: pow2_def)
  ultimately show ?thesis
    using pow2_max [of "exponent \<bar>x\<bar> - 23" "- 149"] unfolding f32_step_def by (simp add: divide_right_mono)
qed

lemma f32_round_error:
  assumes "\<bar>x\<bar> \<le> 2 ^ 126"
  shows "\<exists>y. f32_round x = Fin y \<and> \<bar>y - x\<bar> \<le> \<bar>x\<bar> / 2 ^ 24 + 1 / 2 ^ 150"
proof (cases "x = 0")
  case False
  let ?q = "f32_step x"
  define r where "r = of_int (round_even (\<bar>x\<bar> / ?q)) * ?q"
  have q: "0 < ?q" by (simp add: f32_step_def)
  have "r - \<bar>x\<bar> = (of_int (round_even (\<bar>x\<bar> / ?q)) - \<bar>x\<bar> / ?q) * ?q"
    using q by (simp add: r_def field_simps)
  then have "\<bar>r - \<bar>x\<bar>\<bar> = \<bar>of_int (round_even (\<bar>x\<bar> / ?q)) - \<bar>x\<bar> / ?q\<bar> * ?q"
    using q by (simp add: abs_mult)
  also have "\<dots> \<le> 1 / 2 * ?q" using q by (intro mult_right_mono round_even_error) simp
  also have "\<dots> \<le> \<bar>x\<bar> / 2 ^ 24 + 1 / 2 ^ 150" using f32_step_bound [OF False] by simp
  finally have e: "\<bar>r - \<bar>x\<bar>\<bar> \<le> \<bar>x\<bar> / 2 ^ 24 + 1 / 2 ^ 150" .
  then have "r < 2 ^ 128" using assms by simp
  then have "f32_round x = Fin (if x < 0 then - r else r)"
    using False by (simp add: f32_round_def f32_step_def r_def Let_def)
  moreover have "\<bar>(if x < 0 then - r else r) - x\<bar> = \<bar>r - \<bar>x\<bar>\<bar>" by (simp add: abs_if)
  ultimately show ?thesis using e by auto
qed (simp add: f32_round_def)

lemma f32_of_small_int:
  assumes "\<bar>n\<bar> < 2 ^ 24"
  shows "f32_of_int n = Fin (of_int n)"
proof (cases "n = 0")
  case False
  let ?x = "\<bar>of_int n :: rat\<bar>" and ?q = "max (exponent \<bar>of_int n\<bar> - 23) (-149)"
  have "pow2 (exponent ?x) \<le> ?x" using exponent_bounds [of ?x] False by simp
  also have "?x < 2 ^ 24" using assms by (metis of_int_abs of_int_less_iff of_int_numeral of_int_power)
  also have "(2::rat) ^ 24 = pow2 24" by (simp add: pow2_def)
  finally have "exponent ?x < 24" using pow2_mono [of 24 "exponent ?x"] by (meson leD linorder_not_le)
  then have q: "?q \<le> 0" by simp
  have w: "?x / pow2 ?q = of_int (\<bar>n\<bar> * 2 ^ nat (- ?q))"
    using q by (cases "?q = 0") (simp_all add: pow2_def)
  then have "of_int (round_even (?x / pow2 ?q)) * pow2 ?q = ?x / pow2 ?q * pow2 ?q"
    by (simp only: round_even_int)
  then have r: "of_int (round_even (?x / pow2 ?q)) * pow2 ?q = ?x" by simp
  have "?x < 2 ^ 128" using \<open>?x < 2 ^ 24\<close> by simp
  then show ?thesis
    using False r by (simp add: f32_of_int_def f32_round_def Let_def abs_if split: if_splits)
qed (simp add: f32_of_int_def f32_round_def)

end
