(* ===== verification/Share_Behaviour.thy ===== *)
theory Share_Behaviour
  imports Kpm_Handler Float32_Error
begin

text \<open>
  What the share arithmetic of \<open>App::handle(KpmIndication *)\<close> computes, compared with exact
  arithmetic: a factor is formed in \<open>float\<close>, applied to the current share and truncated.
\<close>

section \<open>Applying a factor\<close>

lemma truncate_near:
  assumes "\<bar>y - of_int n\<bar> < 1" "0 \<le> n"
  shows "n - 1 \<le> truncate_rat y \<and> truncate_rat y \<le> n"
proof (cases "y < 0")
  case True
  with assms have "- 1 < y" by (auto simp: abs_less_iff)
  then have "\<lceil>y\<rceil> \<le> 0" "-1 < \<lceil>y\<rceil>" using True by (simp_all add: ceiling_le_iff less_ceiling_iff)
  moreover have "n = 0"
  proof (rule ccontr)
    assume "n \<noteq> 0"
    with assms(2) have "1 \<le> (of_int n :: rat)" by simp
    with assms(1) True show False by (simp add: abs_less_iff)
  qed
  ultimately show ?thesis using True by (simp add: truncate_rat_def)
next
  case False
  have "y < of_int (n + 1)" "of_int (n - 1) \<le> y" using assms(1) by (simp_all add: abs_less_iff)
  then have "\<lfloor>y\<rfloor> < n + 1" "n - 1 \<le> \<lfloor>y\<rfloor>" unfolding floor_less_iff le_floor_iff .
  with False show ?thesis by (simp add: truncate_rat_def)
qed

text \<open>Truncation at a value known up to less than one; the clamping keeps the order.\<close>

definition clamp_share :: "int \<Rightarrow> int" where
  "clamp_share n = max 64 (min n 1024)"

lemma next_share_clamp:
  "next_share c f = bind_outcome (f32_to_int (f32_add (f32_of_int c) (f32_mul (f32_of_int c) f)))
     (\<lambda>n. Inr (clamp_share n))"
  unfolding next_share_def by (rule bind_outcome_cong) (auto simp: clamp_share_def Let_def)

lemma two_roundings:
  fixes c m m1 y :: rat
  assumes "1 \<le> c" "\<bar>m1 - m\<bar> \<le> \<bar>m\<bar> / 2 ^ 24 + 1 / 2 ^ 150"
    and "\<bar>y - (c + m1)\<bar> \<le> \<bar>c + m1\<bar> / 2 ^ 24 + 1 / 2 ^ 150"
  shows "\<bar>y - (c + m)\<bar> \<le> (2 * \<bar>m\<bar> + c) / 2 ^ 23"
proof -
  have tiny: "1 / 2 ^ 150 \<le> (1 / 134217728 :: rat)" by simp
  have e1: "\<bar>m1 - m\<bar> \<le> \<bar>m\<bar> / 16777216 + 1 / 134217728"
    using assms(2) tiny by simp
  have e2: "\<bar>y - (c + m1)\<bar> \<le> \<bar>c + m1\<bar> / 16777216 + 1 / 134217728"
    using assms(3) tiny by simp
  define A B C M Y where abs: "A = \<bar>m1 - m\<bar>" "B = \<bar>y - (c + m1)\<bar>" "C = \<bar>c + m1\<bar>" "M = \<bar>m\<bar>" "Y = \<bar>y - (c + m)\<bar>"
  have "Y \<le> B + A" "C \<le> c + M + A" "0 \<le> M" using assms(1) unfolding abs by linarith+
  with e1 e2 assms(1) have "Y \<le> (2 * M + c) / 8388608"
    unfolding abs(1-4) [symmetric] by (simp add: field_simps)
  then show ?thesis by (simp add: abs)
qed

text \<open>Two roundings away from \<open>c + c * f\<close>, for a factor known up to \<open>e\<close>.\<close>

lemma applied_factor_error:
  assumes c: "1 \<le> c" "c \<le> 1024" and f: "\<bar>f\<bar> \<le> 2 ^ 40"
  shows "\<exists>y. f32_add (f32_of_int c) (f32_mul (f32_of_int c) (Fin f)) = Fin y \<and>
    \<bar>y - (of_int c + of_int c * f)\<bar> \<le> (2 * \<bar>of_int c * f\<bar> + of_int c) / 2 ^ 23"
proof -
  have ci: "f32_of_int c = Fin (of_int c)" using c by (intro f32_of_small_int) simp
  have cr: "1 \<le> (of_int c :: rat)" "(of_int c :: rat) \<le> 1024" using c by simp_all
  define m where "m = of_int c * f"
  have "\<bar>m\<bar> = of_int c * \<bar>f\<bar>" using cr by (simp add: m_def abs_mult)
  also have "\<dots> \<le> 1024 * 2 ^ 40" using cr f by (intro mult_mono) simp_all
  finally have mb: "\<bar>m\<bar> \<le> 1024 * 2 ^ 40" .
  then obtain m1 where m1: "f32_round m = Fin m1" "\<bar>m1 - m\<bar> \<le> \<bar>m\<bar> / 2 ^ 24 + 1 / 2 ^ 150"
    using f32_round_error [of m] by fastforce
  have "\<bar>m\<bar> / 2 ^ 24 + 1 / 2 ^ 150 \<le> 2 ^ 40" using mb by simp
  then have "\<bar>of_int c + m1\<bar> \<le> 1024 + 1024 * 2 ^ 40 + 2 ^ 40" using mb m1(2) cr by linarith
  then have sb: "\<bar>of_int c + m1\<bar> \<le> 2 ^ 126" by simp
  then obtain y where y: "f32_round (of_int c + m1) = Fin y"
    "\<bar>y - (of_int c + m1)\<bar> \<le> \<bar>of_int c + m1\<bar> / 2 ^ 24 + 1 / 2 ^ 150"
    using f32_round_error [of "of_int c + m1"] by blast
  from two_roundings [OF cr(1) m1(2) y(2)]
  have "\<bar>y - (of_int c + m)\<bar> \<le> (2 * \<bar>m\<bar> + of_int c) / 2 ^ 23" .
  then show ?thesis using ci m1(1) y(1) by (auto simp: m_def)
qed

lemma next_share_near:
  assumes c: "1 \<le> c" "c \<le> 1024" and f: "\<bar>f\<bar> \<le> 2 ^ 40" and n: "0 \<le> n" "n \<le> 2 ^ 30"
    and e: "\<bar>of_int c + of_int c * f - of_int n\<bar> + (2 * \<bar>of_int c * f\<bar> + of_int c) / 2 ^ 23 < 1"
  shows "\<exists>m. next_share c (Fin f) = Inr (clamp_share m) \<and> n - 1 \<le> m \<and> m \<le> n"
proof -
  obtain y where y: "f32_add (f32_of_int c) (f32_mul (f32_of_int c) (Fin f)) = Fin y"
    "\<bar>y - (of_int c + of_int c * f)\<bar> \<le> (2 * \<bar>of_int c * f\<bar> + of_int c) / 2 ^ 23"
    using applied_factor_error [OF c f] by blast
  then have "\<bar>y - of_int n\<bar> < 1" using e by linarith
  from truncate_near [OF this n(1)] have t: "n - 1 \<le> truncate_rat y \<and> truncate_rat y \<le> n" .
  then have "int32_range (truncate_rat y)" using n by (auto simp: int32_range_def)
  then have "next_share c (Fin f) = Inr (clamp_share (truncate_rat y))"
    using y(1) by (simp add: next_share_clamp)
  then show ?thesis using t by blast
qed

section \<open>Release from throttling\<close>

lemma share_factor_error:
  assumes "1 \<le> c" "c \<le> 1024" "0 \<le> n" "n \<le> 1024"
  shows "\<exists>f. share_factor n c = Fin f \<and> \<bar>f\<bar> \<le> 2048 \<and> \<bar>of_int c + of_int c * f - of_int n\<bar> \<le> 1 / 2 ^ 13"
proof -
  have i: "f32_of_int (n - c) = Fin (of_int (n - c)) \<and> f32_of_int c = Fin (of_int c)"
  proof -
    have "\<bar>n - c\<bar> < 16777216" "\<bar>c\<bar> < 16777216" using assms by linarith+
    then show ?thesis using f32_of_small_int [of "n - c"] f32_of_small_int [of c] by simp
  qed
  have cr: "1 \<le> (of_int c :: rat)" "(of_int c :: rat) \<le> 1024" using assms by simp_all
  define x :: rat where "x = of_int (n - c)"
  define d where "d = x / of_int c"
  have nc: "\<bar>x\<bar> \<le> 1024" using assms by (simp add: x_def abs_le_iff)
  have "\<bar>d\<bar> = \<bar>x\<bar> / of_int c" using cr by (simp add: d_def abs_divide)
  also have "\<dots> \<le> \<bar>x\<bar> / 1" using cr by (intro divide_left_mono) simp_all
  finally have db: "\<bar>d\<bar> \<le> 1024" using nc by simp
  then obtain f where f: "f32_round d = Fin f" "\<bar>f - d\<bar> \<le> \<bar>d\<bar> / 2 ^ 24 + 1 / 2 ^ 150"
    using f32_round_error [of d] by fastforce
  have cd: "of_int c * d = x" using cr by (simp add: d_def)
  have "\<bar>of_int c * (f - d)\<bar> = of_int c * \<bar>f - d\<bar>" using cr by (simp add: abs_mult)
  also have "\<dots> \<le> of_int c * (\<bar>d\<bar> / 2 ^ 24 + 1 / 2 ^ 150)" using cr f(2) by (intro mult_left_mono) simp_all
  also have "\<dots> = \<bar>of_int c * d\<bar> / 2 ^ 24 + of_int c / 2 ^ 150" using cr by (simp add: algebra_simps abs_mult)
  also have "\<dots> \<le> 1024 / 2 ^ 24 + 1024 / 2 ^ 150"
    using nc cr unfolding cd by (intro add_mono divide_right_mono) simp_all
  also have "\<dots> \<le> 1 / 2 ^ 13" by simp
  finally have "\<bar>of_int c * (f - d)\<bar> \<le> 1 / 2 ^ 13" .
  moreover have "of_int c + of_int c * f - of_int n = of_int c * (f - d)"
    using cd by (simp add: x_def algebra_simps)
  ultimately have "\<bar>of_int c + of_int c * f - of_int n\<bar> \<le> 1 / 2 ^ 13" by simp
  moreover have "\<bar>f\<bar> \<le> 2048"
  proof -
    have "\<bar>d\<bar> / 2 ^ 24 + 1 / 2 ^ 150 \<le> 1" using db by simp
    then show ?thesis using f(2) db by linarith
  qed
  ultimately show ?thesis using f(1) cr i by (auto simp: share_factor_def d_def x_def)
qed

text \<open>C30: The share a policy gets from a throttling change differs from the intended one by at most one,
  downwards, before it is raised to 64 where it is below.\<close>

theorem throttling_share_within_one:
  assumes "1 \<le> c" "c \<le> 1024" "0 \<le> n" "n \<le> 1024"
  shows "\<exists>m. next_share c (share_factor n c) = Inr m \<and> max 64 (n - 1) \<le> m \<and> m \<le> max 64 n"
proof -
  obtain f where f: "share_factor n c = Fin f" "\<bar>f\<bar> \<le> 2048" "\<bar>of_int c + of_int c * f - of_int n\<bar> \<le> 1 / 2 ^ 13"
    using share_factor_error [OF assms] by blast
  have cr: "(of_int c :: rat) \<le> 1024" "(of_int n :: rat) \<le> 1024" "0 \<le> (of_int n :: rat)" "0 \<le> (of_int c :: rat)"
    using assms by simp_all
  have "1 / 2 ^ 13 < (1 :: rat)" by simp
  then have "\<bar>of_int c * f\<bar> \<le> 3072" using f(3) cr by linarith
  then have "(2 * \<bar>of_int c * f\<bar> + of_int c) / 2 ^ 23 < 1 / 2" using cr by simp
  moreover have "\<bar>of_int c + of_int c * f - of_int n\<bar> < 1 / 2" using f(3) by (simp add: abs_le_iff abs_less_iff)
  ultimately have "\<bar>of_int c + of_int c * f - of_int n\<bar> + (2 * \<bar>of_int c * f\<bar> + of_int c) / 2 ^ 23 < 1"
    by linarith
  then have "\<exists>m. next_share c (Fin f) = Inr (clamp_share m) \<and> n - 1 \<le> m \<and> m \<le> n"
    using assms f(2) by (intro next_share_near) simp_all
  then show ?thesis using assms f(1) by (auto simp: clamp_share_def)
qed

theorem throttling_share_within_one_witness:
  "\<exists>m. next_share 128 (share_factor 512 128) = Inr m \<and> 511 \<le> m \<and> m \<le> 512"
  using throttling_share_within_one [of 128 512] by simp

text \<open>The intended share is not always reached: a policy throttled at a share of 67 that had 440 before
  is released at 439.\<close>

theorem release_may_lose_one: "next_share 67 (share_factor 440 67) = Inr 439"
  by code_simp

section \<open>Equalising\<close>

lemma f32_round_rel:
  assumes "1 / 2 ^ 60 \<le> x" "x \<le> 2 ^ 126"
  shows "\<exists>y. f32_round x = Fin y \<and> \<bar>y - x\<bar> \<le> x / 2 ^ 23"
proof -
  have x: "0 < x" by (rule less_le_trans [OF _ assms(1)]) simp
  then obtain y where y: "f32_round x = Fin y" "\<bar>y - x\<bar> \<le> x / 2 ^ 24 + 1 / 2 ^ 150"
    using f32_round_error [of x] assms(2) by auto
  have "(1 :: rat) / 2 ^ 150 = (1 / 2 ^ 60) / 2 ^ 90" by simp
  also have "\<dots> \<le> x / 2 ^ 90" using assms(1) by (rule divide_right_mono) simp
  also have "\<dots> \<le> x / 2 ^ 24" using x by (intro divide_left_mono) simp_all
  finally have "\<bar>y - x\<bar> \<le> x / 2 ^ 23" using y(2) by simp
  then show ?thesis using y(1) by blast
qed

lemma f32_of_uint_rel:
  assumes "1 \<le> uint (n :: u64)"
  shows "\<exists>y. f32_of_int (uint n) = Fin y \<and> \<bar>y - of_int (uint n)\<bar> \<le> of_int (uint n) / 2 ^ 23"
proof -
  define x :: rat where "x = of_int (uint n)"
  have "uint n < 2 ^ 64" using uint_lt2p [of n] by simp
  with assms have "of_int 1 \<le> x" "x < of_int (2 ^ 64)" unfolding x_def of_int_le_iff of_int_less_iff by simp_all
  then show ?thesis unfolding f32_of_int_def x_def [symmetric] by (intro f32_round_rel) simp_all
qed

text \<open>The factor is the quotient of the even share of the traffic and the slice's own, less one.\<close>

lemma equalize_chain:
  fixes r a b f u v :: rat
  assumes u: "0 < u" "u \<le> 1 / 16" and v: "0 \<le> v" "v \<le> u / 4" and r: "0 \<le> r"
    and a: "\<bar>a - r\<bar> \<le> 4 * (r * u)" and b: "\<bar>b - (a - 1)\<bar> \<le> \<bar>a - 1\<bar> * u + 2 * v" and f: "\<bar>f - b\<bar> \<le> \<bar>b\<bar> * u + v"
  shows "\<bar>f - (r - 1)\<bar> \<le> 8 * (r * u) + 4 * u"
proof -
  have ru: "0 \<le> r * u" "r * u \<le> r / 16" using u r mult_left_mono [of u "1 / 16" r] by simp_all
  then have "\<bar>a - 1\<bar> \<le> 2 * r + 1" using a r by linarith
  then have a1: "\<bar>a - 1\<bar> * u \<le> 2 * (r * u) + u"
    using mult_right_mono [of "\<bar>a - 1\<bar>" "2 * r + 1" u] u by (simp add: algebra_simps)
  have b1: "\<bar>b - (r - 1)\<bar> \<le> 6 * (r * u) + u + 2 * v" using a b a1 by linarith
  then have "\<bar>b\<bar> \<le> 2 * r + 2" using ru u v r by linarith
  then have "\<bar>b\<bar> * u \<le> 2 * (r * u) + 2 * u"
    using mult_right_mono [of "\<bar>b\<bar>" "2 * r + 2" u] u by (simp add: algebra_simps)
  then show ?thesis using b1 f v by linarith
qed

lemma quotient_error:
  fixes x y d e r u :: rat
  assumes u: "0 < u" "u \<le> 1 / 16" and d: "0 < d" and r: "0 \<le> r" "r * d = x"
    and y: "x * (1 - u) ^ 2 \<le> y" "y \<le> x * (1 + u) ^ 2" and e: "d * (1 - u) \<le> e" "e \<le> d * (1 + u)"
  shows "0 < e" "\<bar>y / e - r\<bar> \<le> 4 * (r * u)"
proof -
  have "0 < d * (1 - u)" using d u by simp
  then show e0: "0 < e" using e(1) by simp
  have x: "0 \<le> x" using r d by auto
  have uu: "0 \<le> u * u" "u * u \<le> u / 16" using u mult_left_mono [of u "1 / 16" u] by simp_all
  have "y \<le> x * (1 + u) ^ 2" by (rule y)
  also have "\<dots> \<le> x * ((1 + 4 * u) * (1 - u))"
    using x uu u by (intro mult_left_mono) (simp_all add: power2_eq_square algebra_simps)
  also have "\<dots> = r * (1 + 4 * u) * (d * (1 - u))" by (simp flip: r(2) add: algebra_simps)
  also have "\<dots> \<le> r * (1 + 4 * u) * e" using e(1) r u by (intro mult_left_mono) simp_all
  finally have "y / e \<le> r * (1 + 4 * u)" using e0 by (simp add: divide_le_eq)
  moreover have "r * (1 - 4 * u) \<le> y / e"
  proof -
    have "r * (1 - 4 * u) * e \<le> r * (1 - 4 * u) * (d * (1 + u))" using e(2) r u by (intro mult_left_mono) simp_all
    also have "\<dots> = x * ((1 - 4 * u) * (1 + u))" by (simp flip: r(2) add: algebra_simps)
    also have "\<dots> \<le> x * (1 - u) ^ 2"
      using x uu u by (intro mult_left_mono) (simp_all add: power2_eq_square algebra_simps)
    also have "\<dots> \<le> y" by (rule y)
    finally show ?thesis using e0 by (simp add: le_divide_eq)
  qed
  ultimately show "\<bar>y / e - r\<bar> \<le> 4 * (r * u)" by (simp add: abs_le_iff algebra_simps)
qed

lemma relative_bounds:
  fixes x y :: rat
  assumes "\<bar>y - x\<bar> \<le> x / 2 ^ 23"
  shows "x * (1 - 1 / 2 ^ 23) \<le> y" "y \<le> x * (1 + 1 / 2 ^ 23)"
  using abs_le_D1 [OF assms] abs_le_D2 [OF assms] by (simp_all add: algebra_simps)

lemma half_step: "0 \<le> x \<Longrightarrow> x / 2 ^ 24 + w \<le> x * (1 / 2 ^ 23) + (w :: rat)"
  by simp

lemma equalize_factor_error:
  assumes T: "1 \<le> uint tot" and D: "1 \<le> uint dl" and N: "1 \<le> num" "num < 2 ^ 24"
    and r: "r * (of_int num * of_int (uint dl)) = of_int (uint tot)" "0 \<le> r" "r \<le> 2 ^ 16"
  shows "\<exists>f. equalize_factor tot num dl = Fin f \<and> \<bar>f - (r - 1)\<bar> \<le> (8 * r + 4) / 2 ^ 23"
proof -
  define u v :: rat where uv: "u = 1 / 2 ^ 23" "v = 1 / 2 ^ 150"
  have u: "0 < u" "u \<le> 1 / 16" and v: "0 \<le> v" "v \<le> u / 4" by (simp_all add: uv)
  define t d n :: rat where tdn: "t = of_int (uint tot)" "d = of_int (uint dl)" "n = of_int num"
  have "uint tot < 2 ^ 64" using uint_lt2p [of tot] by simp
  with T have t: "of_int 1 \<le> t" "t < of_int (2 ^ 64)" unfolding tdn of_int_le_iff of_int_less_iff by simp_all
  have "uint dl < 2 ^ 64" using uint_lt2p [of dl] by simp
  with D have d: "of_int 1 \<le> d" "d < of_int (2 ^ 64)" unfolding tdn of_int_le_iff of_int_less_iff by simp_all
  have "of_int 1 \<le> n" "n < of_int (2 ^ 24)" unfolding tdn of_int_le_iff of_int_less_iff using N by simp_all
  then have n: "1 \<le> n" "n \<le> 2 ^ 24" by simp_all
  have ni: "f32_of_int num = Fin n" unfolding tdn by (rule f32_of_small_int) (use N in simp)
  obtain t1 where t1: "f32_of_int (uint tot) = Fin t1" "\<bar>t1 - t\<bar> \<le> t / 2 ^ 23"
    using f32_of_uint_rel [OF T] unfolding tdn by blast
  obtain e where e: "f32_of_int (uint dl) = Fin e" "\<bar>e - d\<bar> \<le> d / 2 ^ 23"
    using f32_of_uint_rel [OF D] unfolding tdn by blast
  have t1b: "t * (1 - u) \<le> t1" "t1 \<le> t * (1 + u)"
    using relative_bounds [OF t1(2)] by (simp_all only: uv)
  have eb: "d * (1 - u) \<le> e" "e \<le> d * (1 + u)"
    using relative_bounds [OF e(2)] by (simp_all only: uv)
  have t2: "1 / 2 \<le> t1" "t1 \<le> 2 ^ 65" using t1b t by (simp_all add: uv)
  have e2: "1 / 2 \<le> e" "e \<le> 2 ^ 65" using eb d by (simp_all add: uv)
  define q where "q = t1 / n"
  have "t1 \<le> t1 * n" using n t2 by simp
  then have qb: "1 / 2 ^ 60 \<le> q" "q \<le> t1" using n t2 by (simp_all add: q_def field_simps)
  then obtain y where y: "f32_round q = Fin y" "\<bar>y - q\<bar> \<le> q / 2 ^ 23"
    using f32_round_rel [of q] t2 by fastforce
  have yb: "q * (1 - u) \<le> y" "y \<le> q * (1 + u)"
    using relative_bounds [OF y(2)] by (simp_all only: uv)
  have q0: "t / n * (1 - u) \<le> q" "q \<le> t / n * (1 + u)"
    using t1b n divide_right_mono [of "t * (1 - u)" t1 n] divide_right_mono [of t1 "t * (1 + u)" n]
    by (simp_all add: q_def)
  have yy: "t / n * (1 - u) ^ 2 \<le> y" "y \<le> t / n * (1 + u) ^ 2"
    using yb q0 u mult_right_mono [of "t / n * (1 - u)" q "1 - u"] mult_right_mono [of q "t / n * (1 + u)" "1 + u"]
    by (simp_all add: power2_eq_square mult.assoc)
  have rd: "r * d = t / n" using r(1) n by (simp add: tdn field_simps)
  have d0: "0 < d" using d by simp
  note qe = quotient_error [OF u d0 r(2) rd yy eb]
  have "0 \<le> y" "y \<le> 2 ^ 67" using abs_le_D1 [OF y(2)] abs_le_D2 [OF y(2)] qb t2 by simp_all
  then have "\<bar>y - e\<bar> \<le> 2 ^ 126" using e2 by (simp add: abs_le_iff)
  then obtain b where b: "f32_round (y - e) = Fin b" "\<bar>b - (y - e)\<bar> \<le> \<bar>y - e\<bar> / 2 ^ 24 + 1 / 2 ^ 150"
    using f32_round_error [of "y - e"] by blast
  have "\<bar>b / e - (y / e - 1)\<bar> = \<bar>b - (y - e)\<bar> / e" using qe(1) by (simp add: abs_if field_simps)
  also have "\<dots> \<le> (\<bar>y - e\<bar> * u + v) / e"
    unfolding uv using qe(1) by (intro divide_right_mono order_trans [OF b(2) half_step]) simp_all
  also have "\<dots> = \<bar>y / e - 1\<bar> * u + v / e" using qe(1) by (simp add: abs_if field_simps)
  also have "\<dots> \<le> \<bar>y / e - 1\<bar> * u + 2 * v" using e2(1) v(1) qe(1) mult_left_mono [of "1 / 2" e "2 * v"] by (simp add: divide_le_eq)
  finally have be: "\<bar>b / e - (y / e - 1)\<bar> \<le> \<bar>y / e - 1\<bar> * u + 2 * v" .
  have r3: "r \<le> 65536" using r(3) by simp
  then have "r * u \<le> 1" by (simp add: uv)
  then have ye: "\<bar>y / e - 1\<bar> \<le> 65541" using qe(2) r(2) r3 by linarith
  have "\<bar>y / e - 1\<bar> * u \<le> 65541 * (1 / 16)" using ye u by (intro mult_mono) simp_all
  then have "\<bar>b / e\<bar> \<le> 200000" using be ye v u by linarith
  then have "\<bar>b / e\<bar> \<le> 2 ^ 126" by simp
  then obtain f where f: "f32_round (b / e) = Fin f" "\<bar>f - b / e\<bar> \<le> \<bar>b / e\<bar> / 2 ^ 24 + 1 / 2 ^ 150"
    using f32_round_error [of "b / e"] by blast
  have fe: "\<bar>f - b / e\<bar> \<le> \<bar>b / e\<bar> * u + v"
    unfolding uv by (rule order_trans [OF f(2) half_step]) simp
  from equalize_chain [OF u v r(2) qe(2) be fe] have "\<bar>f - (r - 1)\<bar> \<le> (8 * r + 4) / 2 ^ 23"
    by (simp add: uv algebra_simps)
  moreover have "equalize_factor tot num dl = Fin f"
    using t1(1) ni e(1) y(1) b(1) f(1) qe(1) n by (simp add: equalize_factor_def f32_sub_def q_def)
  ultimately show ?thesis by blast
qed

lemma truncate_close:
  assumes "\<bar>y - t\<bar> \<le> 1 / 2" "0 \<le> t"
  shows "\<bar>truncate_rat y - \<lfloor>t\<rfloor>\<bar> \<le> 1"
proof (cases "y < 0")
  case True
  then have "- 1 < y" "t < 1" using assms by (simp_all add: abs_le_iff)
  then have "- 1 < \<lceil>y\<rceil>" "\<lceil>y\<rceil> \<le> 0" "\<lfloor>t\<rfloor> = 0" using True assms(2)
    by (simp_all add: less_ceiling_iff ceiling_le_iff floor_eq_iff)
  with True show ?thesis by (simp add: truncate_rat_def)
next
  case False
  have "of_int \<lfloor>t\<rfloor> \<le> t" "t < of_int \<lfloor>t\<rfloor> + 1" by linarith+
  moreover have "y - t \<le> 1 / 2" "- (y - t) \<le> 1 / 2" by (rule abs_le_D1 [OF assms(1)], rule abs_le_D2 [OF assms(1)])
  ultimately have "y < of_int (\<lfloor>t\<rfloor> + 2)" "of_int (\<lfloor>t\<rfloor> - 1) \<le> y" by linarith+
  then have "\<lfloor>y\<rfloor> < \<lfloor>t\<rfloor> + 2" "\<lfloor>t\<rfloor> - 1 \<le> \<lfloor>y\<rfloor>" unfolding floor_less_iff le_floor_iff .
  with False show ?thesis by (simp add: truncate_rat_def)
qed

lemma applied_total_error:
  fixes t c g f y u :: rat
  assumes "\<bar>f - g\<bar> \<le> (8 * r + 4) * u" "t = c + c * g" "t = c * r" "\<bar>y - (c + c * f)\<bar> \<le> (2 * \<bar>c * f\<bar> + c) * u"
    and "1 \<le> c" "c \<le> 1024" "0 \<le> t" "t \<le> 65536" "0 \<le> u" "u \<le> 1 / 4194304"
  shows "\<bar>y - t\<bar> \<le> 1 / 2"
proof -
  have "\<bar>c * (f - g)\<bar> = c * \<bar>f - g\<bar>" using assms(5) by (simp add: abs_mult)
  also have "\<dots> \<le> c * ((8 * r + 4) * u)" using assms(1,5) by (intro mult_left_mono) simp_all
  also have "\<dots> = (8 * t + 4 * c) * u" by (simp add: assms(3) algebra_simps)
  finally have cf: "\<bar>c * f - c * g\<bar> \<le> (8 * t + 4 * c) * u" by (simp add: right_diff_distrib)
  also have "\<dots> \<le> (8 * 65536 + 4 * 1024) * (1 / 4194304)"
    using assms(5-10) by (intro mult_mono) simp_all
  finally have e1: "\<bar>c * f - c * g\<bar> \<le> 1 / 4" by simp
  then have "\<bar>c * f\<bar> \<le> 66561" using assms(2,6-8) assms(5) by linarith
  then have "(2 * \<bar>c * f\<bar> + c) * u \<le> (2 * 66561 + 1024) * (1 / 4194304)"
    using assms(5,6,9,10) by (intro mult_mono) simp_all
  then have "(2 * \<bar>c * f\<bar> + c) * u \<le> 1 / 4" by simp
  then show ?thesis using assms(2,4) e1 by linarith
qed

text \<open>C31: The share of an equalised slice is, up to one, its current share times the even share of the
  traffic divided by its own traffic, rounded down and clamped to 64..1024; the integer formula is
  the specification, the code computes it in single precision.\<close>

theorem equalized_share_within_one:
  assumes c: "1 \<le> c" "c \<le> 1024" and tr: "1 \<le> uint tot" "1 \<le> uint dl" and n: "1 \<le> num" "num < 2 ^ 24"
    and b: "c * uint tot \<le> 65536 * (num * uint dl)"
  shows "\<exists>m. next_share c (equalize_factor tot num dl) = Inr m \<and>
    \<bar>m - clamp_share (c * uint tot div (num * uint dl))\<bar> \<le> 1"
proof -
  define T D N C :: rat where TD: "T = of_int (uint tot)" "D = of_int (uint dl)" "N = of_int num" "C = of_int c"
  define r where "r = T / (N * D)"
  define t where "t = C * r"
  have "of_int 1 \<le> T" "of_int 1 \<le> D" "of_int 1 \<le> N" "of_int 1 \<le> C" "C \<le> of_int 1024"
    unfolding TD of_int_le_iff using tr n c by simp_all
  then have p: "1 \<le> T" "1 \<le> D" "1 \<le> N" "1 \<le> C" "C \<le> 1024" by simp_all
  then have nd: "0 < N * D" by simp
  have "of_int (c * uint tot) \<le> (of_int (65536 * (num * uint dl)) :: rat)" unfolding of_int_le_iff by (rule b)
  then have "C * T \<le> 65536 * (N * D)" by (simp add: TD)
  then have tb: "0 \<le> t" "t \<le> 65536" using p nd by (simp_all add: t_def r_def divide_le_eq)
  have rt: "0 \<le> r" "r \<le> t" using p nd mult_right_mono [of 1 C r] by (simp_all add: t_def r_def)
  have "r * (of_int num * of_int (uint dl)) = of_int (uint tot)"
    using p unfolding TD [symmetric] by (simp add: r_def)
  from equalize_factor_error [OF tr n this rt(1)] rt(2) tb(2)
  obtain f where f: "equalize_factor tot num dl = Fin f" "\<bar>f - (r - 1)\<bar> \<le> (8 * r + 4) / 2 ^ 23" by auto
  have "(8 * r + 4) / 2 ^ 23 \<le> 1" using rt tb by simp
  then have "\<bar>f\<bar> \<le> 65538" using f(2) rt tb by linarith
  then have "\<bar>f\<bar> \<le> 2 ^ 40" by simp
  from applied_factor_error [OF c this] obtain y where
    y: "f32_add (f32_of_int c) (f32_mul (f32_of_int c) (Fin f)) = Fin y"
    "\<bar>y - (C + C * f)\<bar> \<le> (2 * \<bar>C * f\<bar> + C) / 2 ^ 23" unfolding TD by blast
  have yt: "\<bar>y - t\<bar> \<le> 1 / 2"
    by (rule applied_total_error [where u = "1 / 2 ^ 23" and r = r and c = C and f = f and g = "r - 1"])
       (use f(2) y(2) p tb in \<open>simp_all add: t_def algebra_simps\<close>)
  from truncate_close [OF yt tb(1)] have tc: "\<bar>truncate_rat y - \<lfloor>t\<rfloor>\<bar> \<le> 1" .
  have ft: "\<lfloor>t\<rfloor> = c * uint tot div (num * uint dl)"
  proof -
    have "t = of_int (c * uint tot) / of_int (num * uint dl)" by (simp add: t_def r_def TD)
    then show ?thesis by (simp only: floor_divide_of_int_eq)
  qed
  have "\<lfloor>t\<rfloor> \<le> 65536" "0 \<le> \<lfloor>t\<rfloor>" using tb floor_mono [OF tb(2)] by simp_all
  with tc have "-1 \<le> truncate_rat y" "truncate_rat y \<le> 65537" by linarith+
  then have "int32_range (truncate_rat y)" by (simp add: int32_range_def)
  then have "next_share c (equalize_factor tot num dl) = Inr (clamp_share (truncate_rat y))"
    using y(1) f(1) by (simp add: next_share_clamp)
  moreover have "\<bar>clamp_share (truncate_rat y) - clamp_share \<lfloor>t\<rfloor>\<bar> \<le> 1"
    using tc by (auto simp: clamp_share_def)
  ultimately show ?thesis unfolding ft by blast
qed

theorem equalized_share_within_one_witness:
  "\<exists>m. next_share 512 (equalize_factor 25 3 10) = Inr m \<and> \<bar>m - 426\<bar> \<le> 1"
  using equalized_share_within_one [of 512 25 10 3] by (simp add: clamp_share_def)

text \<open>C32: A slice whose share is zero cannot be throttled or released, and an auto-equalised slice without
  traffic cannot be equalised when others have some: the factor is an infinity, and what comes of it
  is converted to an integer.\<close>

theorem infinite_factor_faults:
  assumes "0 < n" "n \<le> 1024" "1 \<le> c" "c \<le> 1024" "1 \<le> uint tot" "1 \<le> num" "num < 2 ^ 24"
  shows "next_share 0 (share_factor n 0) = Inl FloatOutOfRange \<and>
    next_share c (equalize_factor tot num 0) = Inl FloatOutOfRange"
proof -
  have z: "f32_of_int 0 = Fin 0" by (simp add: f32_of_int_def f32_round_def)
  have "\<bar>n\<bar> < 2 ^ 24" using assms by simp
  from f32_of_small_int [OF this] assms(1) z have "share_factor n 0 = PInf"
    by (simp add: share_factor_def f32_inf_def)
  then have one: "next_share 0 (share_factor n 0) = Inl FloatOutOfRange"
    using z by (simp add: next_share_def)
  define t :: rat where "t = of_int (uint tot)"
  have "uint tot < 2 ^ 64" using uint_lt2p [of tot] by simp
  with assms have t: "of_int 1 \<le> t" "t < of_int (2 ^ 64)" unfolding t_def of_int_le_iff of_int_less_iff by simp_all
  obtain t1 where t1: "f32_of_int (uint tot) = Fin t1" "\<bar>t1 - t\<bar> \<le> t / 2 ^ 23"
    using f32_of_uint_rel [OF assms(5)] unfolding t_def by blast
  have tb: "1 / 2 \<le> t1" "t1 \<le> 2 ^ 65" using abs_le_D1 [OF t1(2)] abs_le_D2 [OF t1(2)] t by simp_all
  define N :: rat where "N = of_int num"
  have "of_int 1 \<le> N" "N < of_int (2 ^ 24)" unfolding N_def of_int_le_iff of_int_less_iff using assms by simp_all
  then have N: "1 \<le> N" "N \<le> 2 ^ 24" by simp_all
  have ni: "f32_of_int num = Fin N" unfolding N_def by (rule f32_of_small_int) (use assms in simp)
  have "t1 \<le> t1 * N" using N tb by simp
  then have "1 / 2 ^ 60 \<le> t1 / N" "t1 / N \<le> t1" using N tb by (simp_all add: field_simps)
  then obtain y where y: "f32_round (t1 / N) = Fin y" "\<bar>y - t1 / N\<bar> \<le> t1 / N / 2 ^ 23" "1 / 2 ^ 60 \<le> t1 / N" "t1 / N \<le> t1"
    using f32_round_rel [of "t1 / N"] tb by fastforce
  have yb: "1 / 2 ^ 61 \<le> y" "y \<le> 2 ^ 66" using abs_le_D1 [OF y(2)] abs_le_D2 [OF y(2)] y(3,4) tb by simp_all
  then obtain w where w: "f32_round y = Fin w" "\<bar>w - y\<bar> \<le> y / 2 ^ 24 + 1 / 2 ^ 150"
    using f32_round_error [of y] by fastforce
  have "0 < w" using abs_le_D2 [OF w(2)] yb by simp
  then have "equalize_factor tot num 0 = PInf"
    using t1(1) ni y(1) w(1) z N by (simp add: equalize_factor_def f32_sub_def f32_inf_def)
  moreover have "f32_of_int c = Fin (of_int c)" using assms by (intro f32_of_small_int) simp
  ultimately have "next_share c (equalize_factor tot num 0) = Inl FloatOutOfRange"
    using assms(3) by (simp add: next_share_def f32_inf_def)
  with one show ?thesis by blast
qed

theorem infinite_factor_faults_witness:
  "next_share 0 (share_factor 512 0) = Inl FloatOutOfRange \<and> next_share 512 (equalize_factor 25 3 0) = Inl FloatOutOfRange"
  by (rule infinite_factor_faults) simp_all

end
