(* ===== verification/Configuration.thy ===== *)
theory Configuration
  imports Prelude
begin

text \<open>
  \<open>class Config\<close> (\<open>include/config.h\<close>, \<open>src/config.cc\<close>): the table of options, and its filling from
  the command line and the environment. \<open>getopt_long\<close> and \<open>getenv\<close> belong to the C library of the
  system: the sequence of options the calls of the former return and the function the latter reads
  are arguments.
\<close>

section \<open>Options\<close>

datatype item_name =
  XAPP_NAME | XAPP_ID | HOST | PORT | LOG_LEVEL | ADMIN_HOST | ADMIN_PORT | RMR_NOWAIT

datatype item_type = BOOL | STRING | INTEGER

text \<open>
  The union of a \<open>bool\<close>, a \<open>const char *\<close> (possibly null) and an \<open>int\<close>, with the member written last.
\<close>

datatype item_value = ValB bool | ValS "string option" | ValI int

record config_item =
  it_type :: item_type
  short_option_name :: char
  long_option_name :: "string option"
  env_name :: "string option"
  required :: bool
  help_text :: string
  default_value :: "item_value option"
  value_set :: bool
  it_value :: item_value

definition Item :: "item_type \<Rightarrow> char \<Rightarrow> string option \<Rightarrow> string option \<Rightarrow> bool \<Rightarrow> item_value option \<Rightarrow> string \<Rightarrow> config_item" where
  "Item ty short long env req dflt h =
     \<lparr>it_type = ty, short_option_name = short, long_option_name = long, env_name = env,
      required = req, help_text = h, default_value = dflt, value_set = False, it_value = ValS None\<rparr>"

text \<open>The map is keyed by name; the constructor inserts the names in their order.\<close>

type_synonym config = "(item_name \<times> config_item) list"

definition Config :: config where
  "Config =
     [(XAPP_NAME, Item STRING (CHR ''n'') (Some ''xapp-name'') (Some ''XAPP_NAME'') True None
         ''The name of the xApp.''),
      (XAPP_ID, Item STRING (CHR ''x'') (Some ''xapp-id'') (Some ''XAPP_ID'') True None
         ''The ID of the xApp.''),
      (HOST, Item STRING (CHR ''H'') (Some ''host'') (Some ''HOST'') False (Some (ValS (Some ''0.0.0.0'')))
         ''The local IP on which the RMR service listens.''),
      (PORT, Item INTEGER (CHR ''p'') (Some ''port'') (Some ''PORT'') False (Some (ValI 4560))
         ''The RMR listen port (default 4560)''),
      (LOG_LEVEL, Item STRING (CHR ''l'') (Some ''log-level'') (Some ''LOG_LEVEL'') False (Some (ValS (Some ''warn'')))
         ''The name of the xApp.''),
      (ADMIN_HOST, Item STRING (CHR ''A'') (Some ''admin-host'') (Some ''ADMIN_HOST'') False (Some (ValS (Some ''0.0.0.0'')))
         ''The local IP on which the northbound interface listens.''),
      (ADMIN_PORT, Item INTEGER (CHR ''a'') (Some ''admin-port'') (Some ''ADMIN_PORT'') False (Some (ValI 8000))
         ''The northbound interface listen port.''),
      (RMR_NOWAIT, Item BOOL (CHR ''R'') (Some ''rmr-nowait'') (Some ''RMR_NOWAIT'') False (Some (ValB False))
         ''Do not wait for RMR route established (waits by default).'')]"

text \<open>The tables the constructor builds for \<open>getopt_long\<close>.\<close>

record long_option =
  lo_name :: string
  has_arg :: nat      \<comment> \<open>0 none, 1 required, 2 optional\<close>
  lo_val :: char

fun optstr :: "config \<Rightarrow> string" where
  "optstr [] = []"
| "optstr ((name, item) # rest) =
     short_option_name item # (if it_type item \<noteq> BOOL then '':'' else []) @ optstr rest"

fun item_options :: "config \<Rightarrow> long_option list" where
  "item_options [] = []"
| "item_options ((name, item) # rest) =
     (case long_option_name item of
        None \<Rightarrow> item_options rest
      | Some l \<Rightarrow> \<lparr>lo_name = l, has_arg = (if it_type item = BOOL then 0 else 2), lo_val = short_option_name item\<rparr>
                 # item_options rest)"

definition long_options :: "config \<Rightarrow> long_option list" where
  "long_options cfg = item_options cfg @ [\<lparr>lo_name = ''help'', has_arg = 0, lo_val = CHR ''h''\<rparr>]"

section \<open>Numbers\<close>

text \<open>
  \<open>atoi\<close> of the C library: leading white space, an optional sign, the longest run of digits; the
  number is limited to the 64 bits of \<open>strtol\<close> and then cut to the 32 bits of \<open>int\<close>.
\<close>

definition isspace :: "char \<Rightarrow> bool" where
  "isspace c \<longleftrightarrow> c \<in> {CHR '' '', CHR 0x09, CHR 0x0A, CHR 0x0B, CHR 0x0C, CHR 0x0D}"

definition isdigit :: "char \<Rightarrow> bool" where
  "isdigit c \<longleftrightarrow> (let n = of_char c :: nat in 48 \<le> n \<and> n \<le> 57)"

definition sign_of :: "string \<Rightarrow> int \<times> string" where
  "sign_of s = (case s of [] \<Rightarrow> (1, [])
                | c # r \<Rightarrow> if c = CHR ''-'' then (-1, r) else if c = CHR ''+'' then (1, r) else (1, s))"

definition atoi :: "string \<Rightarrow> int" where
  "atoi t =
     (let (sg, s) = sign_of (dropWhile isspace (cstr t));
          v = sg * int (base_val 10 (takeWhile isdigit s));
          l = max (- (2 ^ 63)) (min (2 ^ 63 - 1) v)
      in sint (word_of_int l :: 32 word))"

section \<open>The command line\<close>

text \<open>The value an option gets from its argument, null where \<open>getopt_long\<close> found none.\<close>

fun argv_value :: "item_type \<Rightarrow> string option \<Rightarrow> item_value outcome" where
  "argv_value BOOL a = Inr (ValB True)"
| "argv_value STRING a = Inr (ValS a)"
| "argv_value INTEGER None = Inl NullDeref"
| "argv_value INTEGER (Some t) = Inr (ValI (atoi t))"

text \<open>The loop over the options: the first with the returned character is set.\<close>

fun set_option :: "char \<Rightarrow> string option \<Rightarrow> config \<Rightarrow> (bool \<times> config) outcome" where
  "set_option c optarg [] = Inr (False, [])"
| "set_option c optarg ((name, item) # rest) =
     (if c \<noteq> short_option_name item then
        bind_outcome (set_option c optarg rest) (\<lambda>(found, rest'). Inr (found, (name, item) # rest'))
      else
        bind_outcome (argv_value (it_type item) optarg) (\<lambda>v.
          Inr (True, (name, item\<lparr>it_value := v, value_set := True\<rparr>) # rest)))"

text \<open>
  \<open>parseArgv\<close> for the options the calls of \<open>getopt_long\<close> return before -1: each a character and
  \<open>optarg\<close>. An unknown option is returned as a question mark.
\<close>

fun parseArgv :: "(char \<times> string option) list \<Rightarrow> config \<Rightarrow> (bool \<times> config) outcome" where
  "parseArgv [] cfg = Inr (True, cfg)"
| "parseArgv ((c, optarg) # opts) cfg =
     (if c = CHR ''h'' then Inr (False, cfg)
      else bind_outcome (set_option c optarg cfg) (\<lambda>(found, cfg').
             if \<not> found then Inr (False, cfg') else parseArgv opts cfg'))"

section \<open>The environment\<close>

text \<open>A \<open>bool\<close> is toggled, whatever the text; the union member is read for that.\<close>

fun toggle :: "item_value \<Rightarrow> item_value outcome" where
  "toggle (ValB b) = Inr (ValB (\<not> b))" | "toggle _ = Inl InactiveMember"

fun env_value :: "item_type \<Rightarrow> string \<Rightarrow> item_value \<Rightarrow> item_value outcome" where
  "env_value BOOL t v = toggle v"
| "env_value STRING t v = Inr (ValS (Some t))"
| "env_value INTEGER t v = Inr (ValI (atoi t))"

fun parseEnv :: "(string \<Rightarrow> string option) \<Rightarrow> config \<Rightarrow> (bool \<times> config) outcome" where
  "parseEnv getenv [] = Inr (True, [])"
| "parseEnv getenv ((name, item) # rest) =
     bind_outcome
       (case env_name item of
          None \<Rightarrow> Inr item
        | Some e \<Rightarrow> (case getenv e of
            None \<Rightarrow> Inr item
          | Some t \<Rightarrow> bind_outcome (env_value (it_type item) t (it_value item)) (\<lambda>v.
              Inr (item\<lparr>it_value := v, value_set := True\<rparr>))))
       (\<lambda>item'. bind_outcome (parseEnv getenv rest) (\<lambda>(ok, rest'). Inr (ok, (name, item') # rest')))"

section \<open>Reading\<close>

definition validate :: "config \<Rightarrow> bool" where
  "validate cfg \<longleftrightarrow>
     list_all (\<lambda>(name, item). \<not> (required item \<and> \<not> (value_set item \<or> default_value item \<noteq> None))) cfg"

text \<open>\<open>operator[]\<close>: a pointer to the value set, or the pointer to the default, which may be null.\<close>

definition config_at :: "config \<Rightarrow> item_name \<Rightarrow> item_value option outcome" where
  "config_at cfg name =
     (case map_of cfg name of
        None \<Rightarrow> Inl NullDeref
      | Some item \<Rightarrow> Inr (if value_set item then Some (it_value item) else default_value item))"

text \<open>\<open>->b\<close>, \<open>->s\<close> and \<open>->i\<close> of that pointer.\<close>

fun value_b :: "item_value option \<Rightarrow> bool outcome" where
  "value_b None = Inl NullDeref" | "value_b (Some (ValB b)) = Inr b" | "value_b _ = Inl InactiveMember"

fun value_s :: "item_value option \<Rightarrow> string option outcome" where
  "value_s None = Inl NullDeref" | "value_s (Some (ValS s)) = Inr s" | "value_s _ = Inl InactiveMember"

fun value_i :: "item_value option \<Rightarrow> int outcome" where
  "value_i None = Inl NullDeref" | "value_i (Some (ValI i)) = Inr i" | "value_i _ = Inl InactiveMember"

section \<open>Usage\<close>

fun usage_items :: "bool \<Rightarrow> config \<Rightarrow> string" where
  "usage_items req [] = []"
| "usage_items req ((name, item) # rest) =
     (if required item \<noteq> req then []
      else ''  -'' @ [short_option_name item]
         @ (case long_option_name item of None \<Rightarrow> [] | Some l \<Rightarrow> '', --'' @ l)
         @ [CHR 0x09, CHR 0x09] @ help_text item @ [CHR 0x0A])
     @ usage_items req rest"

definition usage :: "string \<Rightarrow> config \<Rightarrow> string" where
  "usage progname cfg =
     ''Usage: '' @ progname @ '' [OPTION]'' @ [CHR 0x0A] @ [CHR 0x0A]
     @ ''Mandatory arguments:'' @ [CHR 0x0A] @ usage_items True cfg
     @ [CHR 0x0A] @ ''Optional arguments:'' @ [CHR 0x0A] @ usage_items False cfg"

section \<open>Loading in \<open>main\<close>\<close>

text \<open>\<open>None\<close> where \<open>main\<close> prints the usage and exits with status 1.\<close>

definition load_config :: "(char \<times> string option) list \<Rightarrow> (string \<Rightarrow> string option) \<Rightarrow> config option outcome" where
  "load_config opts getenv =
     bind_outcome (parseArgv opts Config) (\<lambda>(ok, cfg).
       if \<not> ok then Inr None
       else bind_outcome (parseEnv getenv cfg) (\<lambda>(ok', cfg').
         if \<not> ok' \<or> \<not> validate cfg' then Inr None else Inr (Some cfg')))"

end
