(* ===== verification/Xapp_Settings.thy ===== *)
theory Xapp_Settings
  imports Json_Value
begin

text \<open>
  \<open>class xAppSettings\<close> (\<open>include/config.h\<close>, \<open>src/config.cc\<close>): the settings the xApp registers with,
  from defaults, the environment and the descriptor file; and \<open>App::register_xapp\<close> and
  \<open>App::deregister_xapp\<close> (\<open>src/nexran.cc\<close>), which send them to the platform. The file with its parser,
  rapidjson's text writer and the HTTP client are arguments.
\<close>

section \<open>Settings\<close>

datatype config_name =
    S_XAPP_ID | S_XAPP_NAME | S_VERSION | S_RMR_SRC_ID | S_RMR_PORT | S_HTTP_PORT | S_CONFIG_FILE | S_CONFIG_STR

text \<open>The map is only read through \<open>operator[]\<close>, which gives the empty string for what was never set.\<close>

type_synonym settings = "config_name \<Rightarrow> string"

definition set_default :: "config_name \<Rightarrow> string \<Rightarrow> settings \<Rightarrow> settings" where
  "set_default n v s = (if s n = [] then s(n := v) else s)"

definition xAppSettings :: settings where
  "xAppSettings =
     set_default S_CONFIG_FILE ''/nexran/etc/nexran-config-file.json''
       (set_default S_HTTP_PORT ''8000''
         (set_default S_RMR_PORT ''4560''
           (set_default S_VERSION ''0.2.1''
             (set_default S_XAPP_NAME ''nexran''
               (set_default S_XAPP_ID ''nexran'' (\<lambda>_. []))))))"

definition from_env :: "(string \<Rightarrow> string option) \<Rightarrow> string \<Rightarrow> config_name \<Rightarrow> settings \<Rightarrow> settings" where
  "from_env getenv var n s = (case getenv var of None \<Rightarrow> s | Some v \<Rightarrow> s(n := v))"

definition loadSettingsFromEnv :: "(string \<Rightarrow> string option) \<Rightarrow> settings \<Rightarrow> settings" where
  "loadSettingsFromEnv getenv s =
     from_env getenv ''RMR_SRC_ID'' S_RMR_SRC_ID
       (from_env getenv ''CONFIG_FILE'' S_CONFIG_FILE
         (from_env getenv ''RMR_PORT'' S_RMR_PORT
           (from_env getenv ''XAPP_ID'' S_XAPP_ID
             (from_env getenv ''XAPP_NAME'' S_XAPP_NAME s))))"

section \<open>The descriptor file\<close>

text \<open>
  \<open>Pointer(...).Get(doc)\<close> for the pointers the code uses, whose tokens are no array indices.
\<close>

fun pointer_get :: "string list \<Rightarrow> json \<Rightarrow> json option" where
  "pointer_get [] j = Some j"
| "pointer_get (t # ts) j =
     (if is_object j then (case json_member j t of None \<Rightarrow> None | Some v \<Rightarrow> pointer_get ts v) else None)"

text \<open>\<open>HasMember\<close> and \<open>GetArray\<close> assert the kind of the value.\<close>

definition HasMember :: "json \<Rightarrow> string \<Rightarrow> bool outcome" where
  "HasMember j k = (if is_object j then Inr (has_member j k) else Inl JsonTypeMisuse)"

fun get_array :: "json \<Rightarrow> json list outcome" where
  "get_array (JArray js) = Inr js" | "get_array _ = Inl JsonTypeMisuse"

fun ports_loop :: "json list \<Rightarrow> settings \<Rightarrow> settings outcome" where
  "ports_loop [] s = Inr s"
| "ports_loop (el # els) s =
     bind_outcome (HasMember el ''name'') (\<lambda>has_name.
       if \<not> has_name then ports_loop els s
       else bind_outcome (HasMember el ''port'') (\<lambda>has_port.
         if \<not> has_port then ports_loop els s
         else bind_outcome (at_member el ''name'' get_cstring) (\<lambda>name.
           if name = ''rmr-data'' then
             bind_outcome (at_member el ''port'' get_int) (\<lambda>p. ports_loop els (s(S_RMR_PORT := to_string p)))
           else if name = ''nbi'' then
             bind_outcome (at_member el ''port'' get_int) (\<lambda>p. ports_loop els (s(S_HTTP_PORT := to_string p)))
           else ports_loop els s)))"

text \<open>
  \<open>open_descriptor\<close> is \<open>None\<close> where the file cannot be opened, and \<open>JNull\<close> where its text is no JSON;
  \<open>write\<close> is the text of \<open>rapidjson::Writer\<close> for a document.
\<close>

definition loadxAppDescriptorSettings ::
  "(string \<Rightarrow> json option) \<Rightarrow> (json \<Rightarrow> string) \<Rightarrow> settings \<Rightarrow> settings outcome" where
  "loadxAppDescriptorSettings open_descriptor write s =
     (case open_descriptor (s S_CONFIG_FILE) of
        None \<Rightarrow> Inr s
      | Some doc \<Rightarrow>
          bind_outcome
            (case pointer_get [''version''] doc of
               None \<Rightarrow> Inr s
             | Some v \<Rightarrow> bind_outcome (get_cstring v) (\<lambda>t. Inr (s(S_VERSION := t))))
            (\<lambda>s1. bind_outcome
              (case pointer_get [''messaging'', ''ports''] doc of
                 None \<Rightarrow> Inr s1
               | Some v \<Rightarrow> bind_outcome (get_array v) (\<lambda>els. ports_loop els s1))
              (\<lambda>s2. Inr (s2(S_CONFIG_STR := cstr (write doc))))))"

definition load_settings ::
  "(string \<Rightarrow> string option) \<Rightarrow> (string \<Rightarrow> json option) \<Rightarrow> (json \<Rightarrow> string) \<Rightarrow> settings outcome" where
  "load_settings getenv open_descriptor write =
     loadxAppDescriptorSettings open_descriptor write (loadSettingsFromEnv getenv xAppSettings)"

section \<open>Registration\<close>

definition registration_body :: "settings \<Rightarrow> json" where
  "registration_body s =
     (let rmr_addr = s S_RMR_SRC_ID @ '':'' @ s S_RMR_PORT;
          http_addr = s S_RMR_SRC_ID @ '':'' @ s S_HTTP_PORT
      in JObject
        [(''appName'', JString (s S_XAPP_NAME)),
         (''appVersion'', JString (s S_VERSION)),
         (''configPath'', JString (s S_CONFIG_FILE)),
         (''appInstanceName'', JString (s S_XAPP_ID)),
         (''httpEndpoint'', JString http_addr),
         (''rmrEndpoint'', JString rmr_addr),
         (''config'', JString (s S_CONFIG_STR))])"

definition appmgr :: string where
  "appmgr = ''http://service-ricplt-appmgr-http.ricplt.svc.cluster.local:8080''"

text \<open>
  The HTTP client posts a document to an address: the status of the response, or \<open>None\<close> for an
  exception, which \<open>get()\<close> throws again and nothing catches. The status is only logged.
\<close>

type_synonym http_post = "string \<Rightarrow> json \<Rightarrow> int option"

definition register_xapp :: "http_post \<Rightarrow> settings \<Rightarrow> bool outcome" where
  "register_xapp post s =
     (case post (appmgr @ ''/ric/v1/register'') (registration_body s) of
        None \<Rightarrow> Inl UncaughtException
      | Some code \<Rightarrow> Inr (code = 201))"

definition deregister_xapp :: "http_post \<Rightarrow> settings \<Rightarrow> bool outcome" where
  "deregister_xapp post s =
     (case post (appmgr @ ''/ric/v1/deregister'') (registration_body s) of
        None \<Rightarrow> Inl UncaughtException
      | Some code \<Rightarrow> Inr (code = 201))"

section \<open>The effect of the ports\<close>

text \<open>The port an entry of the descriptor gives under a name, if it does.\<close>

fun entry_port :: "string \<Rightarrow> json \<Rightarrow> int option" where
  "entry_port name (JObject ms) =
     (case map_of ms ''name'' of
        Some (JString n) \<Rightarrow> (case map_of ms ''port'' of
          Some (JInt p) \<Rightarrow> if cstr n = name then Some p else None | _ \<Rightarrow> None)
      | _ \<Rightarrow> None)"
| "entry_port name _ = None"

definition last_port :: "string \<Rightarrow> json list \<Rightarrow> int option" where
  "last_port name els = last_opt (List.map_filter (entry_port name) els)"

definition port_or :: "int option \<Rightarrow> string \<Rightarrow> string" where
  "port_or p d = (case p of None \<Rightarrow> d | Some n \<Rightarrow> to_string n)"

lemma port_or_last [simp]:
  "port_or (last_port name []) d = d"
  "port_or (last_port name (el # els)) d = port_or (last_port name els) (port_or (entry_port name el) d)"
  by (auto simp: last_port_def last_opt_def port_or_def map_filter_simps split: option.splits)

definition port_step :: "json \<Rightarrow> settings \<Rightarrow> settings" where
  "port_step el s = s(S_RMR_PORT := port_or (entry_port ''rmr-data'' el) (s S_RMR_PORT),
                      S_HTTP_PORT := port_or (entry_port ''nbi'' el) (s S_HTTP_PORT))"

lemma ports_loop_step:
  assumes l: "ports_loop (el # els) s = Inr s'"
  shows "ports_loop els (port_step el s) = Inr s'"
proof -
  have o': "is_object el" using l by (auto simp: HasMember_def split: if_splits)
  then obtain ms where el: "el = JObject ms" by (cases el) auto
  have idle: "port_step el s = s" if "entry_port ''rmr-data'' el = None" "entry_port ''nbi'' el = None"
    using that by (simp add: port_step_def port_or_def)
  show ?thesis
  proof (cases "has_member el ''name'' \<and> has_member el ''port''")
    case False
    then have "ports_loop els s = Inr s'" using l o' by (auto simp: HasMember_def split: if_splits)
    moreover have "entry_port n el = None" for n
      using False by (auto simp: el has_member_def json_member_def split: option.splits json.splits)
    ultimately show ?thesis using idle by simp
  next
    case True
    then obtain nv pv where m: "map_of ms ''name'' = Some nv" "map_of ms ''port'' = Some pv"
      by (auto simp: has_member_def json_member_def el)
    note h = HasMember_def el has_member_def json_member_def at_member_def get_int_def m
    obtain n where n: "nv = JString n" using l by (cases nv) (auto simp: h)
    show ?thesis
    proof (cases "cstr n = ''rmr-data'' \<or> cstr n = ''nbi''")
      case True
      then obtain p where p: "pv = JInt p" using l n by (cases pv) (auto simp: h)
      from True have "port_step el s =
          (if cstr n = ''rmr-data'' then s(S_RMR_PORT := to_string p) else s(S_HTTP_PORT := to_string p))"
        by (auto simp: port_step_def el m n p port_or_def)
      with l True n p show ?thesis by (auto simp: h split: if_splits)
    next
      case False
      then have "port_step el s = s" using m n by (intro idle) (auto simp: el split: json.splits)
      with l False n show ?thesis by (simp add: h)
    qed
  qed
qed

lemma ports_loop_spec:
  "ports_loop els s = Inr s' \<Longrightarrow>
     s' = s(S_RMR_PORT := port_or (last_port ''rmr-data'' els) (s S_RMR_PORT),
            S_HTTP_PORT := port_or (last_port ''nbi'' els) (s S_HTTP_PORT))"
proof (induction els arbitrary: s)
  case (Cons el els)
  from Cons.IH [OF ports_loop_step [OF Cons.prems]] show ?case
    by (auto simp: port_step_def fun_upd_twist)
qed simp

end
