(* ===== verification/Request_Groups.thy ===== *)
theory Request_Groups
  imports Prelude
begin

text \<open>
  \<open>RequestContext\<close> (\<open>include/restserver.h\<close>), \<open>RequestGroup\<close> (\<open>include/nexran.h\<close>) and the thread that
  answers northbound requests when their group is done, \<open>App::response_handler\<close> (\<open>src/nexran.cc\<close>).
  \<open>std::map\<close>'s keys are the instance ids. Nothing in the program creates a group.
\<close>

section \<open>The context of a request\<close>

text \<open>\<open>sent_responses\<close> lists what was passed to Pistache's \<open>ResponseWriter::send\<close>.\<close>

record request_context =
  rc_code :: int
  async :: bool
  sent :: bool
  buffer :: string
  sent_responses :: "(int \<times> string) list"

definition RequestContext :: request_context where
  "RequestContext = \<lparr>rc_code = 200, async = False, sent = False, buffer = [], sent_responses = []\<rparr>"

definition make_async :: "request_context \<Rightarrow> request_context" where
  "make_async ctx = ctx\<lparr>async := True\<rparr>"

definition set_code :: "int \<Rightarrow> request_context \<Rightarrow> request_context" where
  "set_code c ctx = ctx\<lparr>rc_code := c\<rparr>"

definition send :: "request_context \<Rightarrow> request_context" where
  "send ctx =
     (if sent ctx then ctx
      else ctx\<lparr>sent_responses := sent_responses ctx @ [(rc_code ctx, cstr (buffer ctx))], sent := True\<rparr>)"

section \<open>Groups\<close>

datatype request_state = PENDING | SUCCESS | FAILURE

record request_group =
  rg_ctx :: request_context
  rg_timeout :: int
  requests :: "(int, request_state) smap"

definition RequestGroup :: "int \<Rightarrow> request_context \<Rightarrow> int \<Rightarrow> request_group" where
  "RequestGroup now ctx timeout = \<lparr>rg_ctx = ctx, rg_timeout = now + timeout, requests = []\<rparr>"

definition group_add :: "int \<Rightarrow> request_group \<Rightarrow> request_group" where
  "group_add instance_id g = g\<lparr>requests := sm_put (requests g) instance_id PENDING\<rparr>"

definition group_update :: "int \<Rightarrow> request_state \<Rightarrow> request_group \<Rightarrow> request_group" where
  "group_update instance_id st g =
     (if \<not> sm_has (requests g) instance_id then g
      else g\<lparr>requests := sm_put (requests g) instance_id st\<rparr>)"

text \<open>The three counters are passed by pointer, which may be null.\<close>

record counters =
  succeeded :: "int option"
  failed :: "int option"
  pending :: "int option"

definition bump :: "int option \<Rightarrow> int option" where
  "bump = map_option (\<lambda>n. n + 1)"

fun count_states :: "request_state list \<Rightarrow> bool \<Rightarrow> counters \<Rightarrow> bool \<times> counters" where
  "count_states [] ret k = (ret, k)"
| "count_states (PENDING # sts) ret k = count_states sts False (k\<lparr>pending := bump (pending k)\<rparr>)"
| "count_states (SUCCESS # sts) ret k = count_states sts ret (k\<lparr>succeeded := bump (succeeded k)\<rparr>)"
| "count_states (FAILURE # sts) ret k = count_states sts ret (k\<lparr>failed := bump (failed k)\<rparr>)"

definition is_done :: "request_group \<Rightarrow> counters \<Rightarrow> bool \<times> counters" where
  "is_done g k = count_states (map snd (requests g)) True k"

definition is_expired :: "int \<Rightarrow> request_group \<Rightarrow> bool" where
  "is_expired now g \<longleftrightarrow> now > rg_timeout g"

section \<open>The response thread\<close>

text \<open>The status the thread answers a group with, if it is done or expired.\<close>

definition group_reply :: "int \<Rightarrow> request_group \<Rightarrow> int option" where
  "group_reply now g =
     (let (fin, k) = is_done g \<lparr>succeeded = Some 0, failed = Some 0, pending = Some 0\<rparr>
      in if fin \<or> is_expired now g then
           Some (if pending k \<noteq> Some 0 then 504 else if failed k \<noteq> Some 0 then 502 else 200)
         else None)"

record response_thread =
  lock_held :: bool
  request_groups :: "request_group list"

text \<open>
  The loop over the groups. A group that was answered is erased from the list and the iterator to the
  erased element is incremented.
\<close>

fun groups_loop :: "int \<Rightarrow> request_group list \<Rightarrow> unit outcome" where
  "groups_loop now [] = Inr ()"
| "groups_loop now (g # gs) =
     (case group_reply now g of None \<Rightarrow> groups_loop now gs | Some code \<Rightarrow> Inl UseAfterFree)"

text \<open>
  The returns of \<open>wait_for\<close>: a timeout, or a notification or spurious wake-up, with the time read then.
  The loop is followed for the given wake-ups; the result tells whether the thread has returned by then,
  or is waiting. \<open>should_stop\<close> is the value of the shared flag.
\<close>

datatype wakeup = Timeout | Notified int

fun response_handler :: "bool \<Rightarrow> wakeup list \<Rightarrow> response_thread \<Rightarrow> (bool \<times> response_thread) outcome" where
  "response_handler should_stop [] th =
     (if should_stop then Inr (True, th) else if \<not> lock_held th then Inl UnlockedWait else Inr (False, th))"
| "response_handler should_stop (w # ws) th =
     (if should_stop then Inr (True, th)
      else if \<not> lock_held th then Inl UnlockedWait
      else case w of
        Timeout \<Rightarrow> response_handler should_stop ws th
      | Notified now \<Rightarrow>
          bind_outcome (groups_loop now (request_groups th)) (\<lambda>_.
            response_handler should_stop ws (th\<lparr>lock_held := False\<rparr>)))"

section \<open>Facts\<close>

lemma count_states_spec:
  "count_states sts ret \<lparr>succeeded = Some s, failed = Some f, pending = Some p\<rparr> =
     (ret \<and> PENDING \<notin> set sts,
      \<lparr>succeeded = Some (s + int (count_list sts SUCCESS)), failed = Some (f + int (count_list sts FAILURE)),
       pending = Some (p + int (count_list sts PENDING))\<rparr>)"
proof (induction sts arbitrary: ret s f p)
  case (Cons st sts)
  show ?case by (cases st) (simp_all add: Cons.IH bump_def)
qed simp

lemma response_handler_waits:
  "response_handler False ws th = Inr (b, th') \<longleftrightarrow>
     \<not> b \<and> th' = th \<and> lock_held th \<and> list_all (\<lambda>w. w = Timeout) ws"
proof (induction ws arbitrary: th)
  case (Cons w ws)
  have "\<not> lock_held th1 \<Longrightarrow> response_handler False ws th1 = Inl UnlockedWait" for th1
    by (cases ws) auto
  then show ?case using Cons by (cases w) auto
qed auto

end
