(* ===== verification/Lifecycle.thy ===== *)
theory Lifecycle
  imports Configuration Xapp_Settings Request_Groups Kpm_Handler
begin

text \<open>
  The life of the process: \<open>main\<close> (\<open>src/main.cc\<close>), \<open>App::start\<close> and \<open>App::stop\<close> (\<open>src/nexran.cc\<close>) and
  \<open>RestServer::init\<close>, \<open>start\<close> and \<open>stop\<close> (\<open>src/restserver.cc\<close>). RMR's messenger, Pistache's endpoint
  and the threads are reduced to what the code does with them: the callbacks registered, the address
  bound, the threads that run. Binding the address is taken to succeed.
\<close>

section \<open>The northbound server\<close>

record rest_server =
  rest_running :: bool
  bound :: "(string \<times> 16 word) option"     \<comment> \<open>the address the endpoint is bound to\<close>
  serving :: bool

definition RestServer :: rest_server where
  "RestServer = \<lparr>rest_running = False, bound = None, serving = False\<rparr>"

text \<open>
  The port is converted to the 16 bits of \<open>Pistache::Port\<close>; a \<open>std::string\<close> is made of the host, which
  must not be null.
\<close>

definition rest_init :: "config \<Rightarrow> rest_server \<Rightarrow> rest_server outcome" where
  "rest_init cfg r =
     bind_outcome (bind_outcome (config_at cfg ADMIN_PORT) value_i) (\<lambda>port.
       bind_outcome (bind_outcome (config_at cfg ADMIN_HOST) value_s) (\<lambda>host.
         case host of
           None \<Rightarrow> Inl NullDeref
         | Some h \<Rightarrow> Inr (r\<lparr>bound := Some (h, word_of_int port)\<rparr>)))"

definition rest_start :: "rest_server \<Rightarrow> rest_server" where
  "rest_start r = (if rest_running r then r else r\<lparr>serving := True, rest_running := True\<rparr>)"

definition rest_stop :: "rest_server \<Rightarrow> rest_server" where
  "rest_stop r = (if \<not> rest_running r then r else r\<lparr>serving := False, rest_running := False\<rparr>)"

section \<open>The application's threads\<close>

record life =
  running :: bool
  should_stop :: bool
  wait_for_routes :: bool                        \<comment> \<open>what the messenger is constructed with\<close>
  callbacks :: "mtype list"
  rmr_thread :: bool                             \<comment> \<open>whether the pointer is not null\<close>
  response_thread_of :: "response_thread option"
  server :: rest_server

definition App_life :: "config \<Rightarrow> life outcome" where
  "App_life cfg =
     bind_outcome (bind_outcome (config_at cfg RMR_NOWAIT) value_b) (\<lambda>nowait.
       Inr \<lparr>running = False, should_stop = False, wait_for_routes = (\<not> nowait), callbacks = [],
            rmr_thread = False, response_thread_of = None, server = RestServer\<rparr>)"

definition app_start :: "http_post \<Rightarrow> config \<Rightarrow> settings \<Rightarrow> life \<Rightarrow> life outcome" where
  "app_start post cfg s l =
     (if running l then Inr l
      else bind_outcome (register_xapp post s) (\<lambda>_.
        bind_outcome (rest_init cfg (server l)) (\<lambda>r.
          Inr (l\<lparr>should_stop := False,
                 callbacks := callbacks l @
                   [RIC_SUB_RESP, RIC_SUB_FAILURE, RIC_SUB_DEL_RESP, RIC_SUB_DEL_FAILURE,
                    RIC_CONTROL_ACK, RIC_CONTROL_FAILURE, RIC_INDICATION],
                 rmr_thread := True,
                 response_thread_of := Some \<lparr>lock_held = True, request_groups = []\<rparr>,
                 server := rest_start r,
                 running := True\<rparr>))))"

text \<open>
  \<open>App::stop\<close>, for a response thread that sees the given wake-ups while it is joined: \<open>None\<close> where the
  join still waits. The RMR thread returns from \<open>Listen\<close> once the messenger is stopped. Joining through
  a null pointer is a fault.
\<close>

definition app_stop :: "http_post \<Rightarrow> settings \<Rightarrow> wakeup list \<Rightarrow> life \<Rightarrow> life option outcome" where
  "app_stop post s ws l =
     bind_outcome (deregister_xapp post s) (\<lambda>_.
       if \<not> rmr_thread l then Inl NullDeref
       else case response_thread_of l of
         None \<Rightarrow> Inl NullDeref
       | Some th \<Rightarrow>
           bind_outcome (response_handler (should_stop l) ws th) (\<lambda>(returned, _).
             Inr (if \<not> returned then None
                  else Some (l\<lparr>server := rest_stop (server l), rmr_thread := False,
                               response_thread_of := None, running := False, should_stop := False\<rparr>))))"

section \<open>\<open>main\<close>\<close>

text \<open>The process exits with a status and a text on the standard output, or runs.\<close>

datatype process = Exited int string | Running config settings life

definition nexran_main ::
  "string \<Rightarrow> (char \<times> string option) list \<Rightarrow> (string \<Rightarrow> string option) \<Rightarrow> (string \<Rightarrow> json option) \<Rightarrow>
   (json \<Rightarrow> string) \<Rightarrow> http_post \<Rightarrow> process outcome" where
  "nexran_main progname opts getenv open_descriptor write post =
     bind_outcome (load_config opts getenv) (\<lambda>r.
       case r of
         None \<Rightarrow> Inr (Exited 1 (usage progname Config))
       | Some cfg \<Rightarrow>
           bind_outcome (load_settings getenv open_descriptor write) (\<lambda>s.
             bind_outcome (App_life cfg) (\<lambda>l.
               bind_outcome (app_start post cfg s l) (\<lambda>l'. Inr (Running cfg s l')))))"

text \<open>The signal handler: \<open>None\<close> where it is still stopping the application.\<close>

fun sigh :: "http_post \<Rightarrow> wakeup list \<Rightarrow> process \<Rightarrow> process option outcome" where
  "sigh post ws (Running cfg s l) =
     bind_outcome (app_stop post s ws l) (\<lambda>r. Inr (case r of None \<Rightarrow> None | Some _ \<Rightarrow> Some (Exited 0 [])))"
| "sigh post ws (Exited st out) = Inr (Some (Exited st out))"

end
