(* ===== verification/Config_Behaviour.thy ===== *)
theory Config_Behaviour
  imports Configuration
begin

text \<open>
  What the configuration ends up as: both passes act on each option by itself, the environment wins
  over the command line and that over the default, and a configuration that was accepted has a value of
  the right kind for every option.
\<close>

section \<open>Numbers\<close>

lemma isdigit_not: "isdigit c \<Longrightarrow> \<not> isspace c \<and> c \<noteq> CHR ''-'' \<and> c \<noteq> CHR ''+'' \<and> c \<noteq> CHR 0x00"
  by (auto simp: isdigit_def isspace_def)

lemma isdigit_digit: "d < 10 \<Longrightarrow> isdigit (digit d)"
  by (simp add: digit_def isdigit_def)

lemma nat_base_digits: "list_all isdigit (nat_base 10 n)"
proof (induction "10 :: nat" n rule: nat_base.induct)
  case (1 n)
  show ?case using 1 isdigit_digit [of "n mod 10"] isdigit_digit [of n]
    by (cases "n < 10") (simp_all add: nat_base.simps [of 10 n])
qed

lemma atoi_digits:
  assumes "list_all isdigit s" "s \<noteq> []" "base_val 10 s < 2 ^ 31"
  shows "atoi s = int (base_val 10 s)" "atoi (CHR ''-'' # s) = - int (base_val 10 s)"
proof -
  obtain c r where s: "s = c # r" using assms(2) by (cases s) auto
  have c: "isdigit c" using assms(1) s by simp
  have n: "cstr s = s" using assms(1) isdigit_not by (intro cstr_id) (auto simp: no_nul_def list_all_iff)
  have t: "takeWhile isdigit s = s" using assms(1) by (auto simp: takeWhile_eq_all_conv list_all_iff)
  define v where "v = int (base_val 10 s)"
  have v: "0 \<le> v" "v < 2147483648" using assms(3) by (simp_all add: v_def)
  have w: "sint (word_of_int x :: 32 word) = x" if "- 2147483648 < x" "x < 2147483648" for x
    using that by (simp add: sint_sbintrunc' signed_take_bit_int_eq_self)
  have s1: "sign_of s = (1, s)" "sign_of (CHR ''-'' # s) = (-1, s)"
    using isdigit_not [OF c] s by (simp_all add: sign_of_def)
  have d: "dropWhile isspace s = s" using isdigit_not [OF c] s by simp
  have c': "cstr (CHR ''-'' # s) = CHR ''-'' # s" using n by (simp add: cstr_def)
  show "atoi s = int (base_val 10 s)"
    unfolding atoi_def n d s1 using v w [of v] by (simp add: t flip: v_def)
  have "dropWhile isspace (CHR ''-'' # s) = CHR ''-'' # s" by (simp add: isspace_def)
  then show "atoi (CHR ''-'' # s) = - int (base_val 10 s)"
    unfolding atoi_def c' using s1(2) v w [of "- v"] by (simp add: t flip: v_def)
qed

text \<open>Whatever \<open>int\<close> is printed is read back.\<close>

lemma atoi_to_string:
  assumes "int32_range n" "- (2 ^ 31) < n"
  shows "atoi (to_string n) = n"
proof -
  have "base_val 10 (nat_base 10 (nat \<bar>n\<bar>)) < 2 ^ 31"
    using assms by (simp add: base_val_nat_base int32_range_def)
  from atoi_digits [OF nat_base_digits nat_base_Nil this] show ?thesis
    by (cases "n < 0") (simp_all add: to_string_def base_val_nat_base)
qed

section \<open>The two passes, option by option\<close>

definition last_arg :: "char \<Rightarrow> (char \<times> string option) list \<Rightarrow> string option option" where
  "last_arg c opts = last_opt (map snd (filter (\<lambda>o'. fst o' = c) opts))"

lemma last_arg_simps [simp]:
  "last_arg c [] = None"
  "last_arg c ((c', a) # opts) =
     (case last_arg c opts of Some a' \<Rightarrow> Some a' | None \<Rightarrow> if c' = c then Some a else None)"
  by (auto simp: last_arg_def last_opt_def)

lemma last_arg_None: "last_arg c opts = None \<longleftrightarrow> c \<notin> fst ` set opts"
  by (induction opts) (auto split: option.splits)

definition arg_of :: "item_type \<Rightarrow> string option \<Rightarrow> item_value" where
  "arg_of ty a = (case ty of BOOL \<Rightarrow> ValB True | STRING \<Rightarrow> ValS a | INTEGER \<Rightarrow> ValI (atoi (the a)))"

definition argv_item :: "(char \<times> string option) list \<Rightarrow> config_item \<Rightarrow> config_item" where
  "argv_item opts item =
     (case last_arg (short_option_name item) opts of
        None \<Rightarrow> item | Some a \<Rightarrow> item\<lparr>it_value := arg_of (it_type item) a, value_set := True\<rparr>)"

definition env_of :: "(string \<Rightarrow> string option) \<Rightarrow> config_item \<Rightarrow> string option" where
  "env_of getenv item = (case env_name item of None \<Rightarrow> None | Some e \<Rightarrow> getenv e)"

definition env_item :: "(string \<Rightarrow> string option) \<Rightarrow> config_item \<Rightarrow> config_item" where
  "env_item getenv item =
     (case env_of getenv item of
        None \<Rightarrow> item
      | Some t \<Rightarrow> item\<lparr>value_set := True, it_value :=
          (case it_type item of BOOL \<Rightarrow> ValB (it_value item \<noteq> ValB True) | STRING \<Rightarrow> ValS (Some t)
                              | INTEGER \<Rightarrow> ValI (atoi t))\<rparr>)"

definition map_items :: "(config_item \<Rightarrow> config_item) \<Rightarrow> config \<Rightarrow> config" where
  "map_items f = map (\<lambda>(n, item). (n, f item))"

text \<open>What is fixed of a table: the option characters and kinds.\<close>

definition sig :: "config \<Rightarrow> (char \<times> item_type) list" where
  "sig cfg = map (\<lambda>(n, i). (short_option_name i, it_type i)) cfg"

definition option_ok :: "(char \<times> item_type) list \<Rightarrow> char \<times> string option \<Rightarrow> bool" where
  "option_ok sg o' \<longleftrightarrow> fst o' \<noteq> CHR ''h'' \<and>
     (case map_of sg (fst o') of None \<Rightarrow> False | Some ty \<Rightarrow> ty = INTEGER \<longrightarrow> snd o' \<noteq> None)"

lemma map_items_comp: "map_items f (map_items g cfg) = map_items (\<lambda>i. f (g i)) cfg"
  by (auto simp: map_items_def)

lemma map_items_simps [simp]:
  "map_items f [] = []" "map_items f ((n, i) # cfg) = (n, f i) # map_items f cfg"
  by (simp_all add: map_items_def)

lemma sig_simps [simp]:
  "sig [] = []" "sig ((n, i) # cfg) = (short_option_name i, it_type i) # sig cfg"
  by (simp_all add: sig_def)

lemma argv_item_keeps [simp]:
  "short_option_name (argv_item opts i) = short_option_name i" "it_type (argv_item opts i) = it_type i"
  "env_name (argv_item opts i) = env_name i" "default_value (argv_item opts i) = default_value i"
  "required (argv_item opts i) = required i"
  by (auto simp: argv_item_def split: option.splits)

lemma sig_argv [simp]: "sig (map_items (argv_item opts) cfg) = sig cfg"
  by (induction cfg) auto

lemma argv_item_Cons: "argv_item opts (argv_item [o'] item) = argv_item (o' # opts) item"
  by (cases o') (auto simp: argv_item_def split: option.splits)

lemma argv_item_other: "c \<noteq> short_option_name i \<Longrightarrow> argv_item [(c, a)] i = i"
  by (simp add: argv_item_def)

lemma map_items_other: "c \<notin> fst ` set (sig cfg) \<Longrightarrow> map_items (argv_item [(c, a)]) cfg = cfg"
  by (induction cfg) (auto simp: argv_item_other)

lemma argv_value_Inr: "argv_value ty a = Inr v \<longleftrightarrow> (ty = INTEGER \<longrightarrow> a \<noteq> None) \<and> v = arg_of ty a"
  by (cases ty; cases a) (auto simp: arg_of_def)

lemma set_option_sig:
  "distinct (map fst (sig cfg)) \<Longrightarrow> set_option c a cfg =
     (case map_of (sig cfg) c of
        None \<Rightarrow> Inr (False, cfg)
      | Some ty \<Rightarrow> bind_outcome (argv_value ty a) (\<lambda>_. Inr (True, map_items (argv_item [(c, a)]) cfg)))"
proof (induction c a cfg rule: set_option.induct)
  case (2 c a n i cfg)
  show ?case
  proof (cases "c = short_option_name i")
    case True
    show ?thesis using True 2(2) map_items_other [of c cfg a]
      by (cases "it_type i"; cases a) (auto simp: argv_item_def arg_of_def)
  next
    case False
    then show ?thesis using 2 by (cases "map_of (sig cfg) c"; cases "argv_value (the (map_of (sig cfg) c)) a")
      (auto simp: argv_item_other)
  qed
qed simp

lemma parseArgv_iff:
  "distinct (map fst (sig cfg)) \<Longrightarrow> parseArgv opts cfg = Inr (True, cfg') \<longleftrightarrow>
     list_all (option_ok (sig cfg)) opts \<and> cfg' = map_items (argv_item opts) cfg"
proof (induction opts arbitrary: cfg)
  case Nil
  have "map_items (argv_item []) cfg = cfg" by (simp add: map_items_def argv_item_def)
  then show ?case by auto
next
  case (Cons o' opts)
  obtain c a where o': "o' = (c, a)" by (cases o')
  show ?case
  proof (cases "option_ok (sig cfg) o'")
    case True
    then obtain ty where ty: "c \<noteq> CHR ''h''" "map_of (sig cfg) c = Some ty" "ty = INTEGER \<longrightarrow> a \<noteq> None"
      by (auto simp: option_ok_def o' split: option.splits)
    then have "argv_value ty a = Inr (arg_of ty a)" by (simp add: argv_value_Inr)
    then have "parseArgv (o' # opts) cfg = parseArgv opts (map_items (argv_item [o']) cfg)"
      using ty Cons.prems by (simp add: o' set_option_sig)
    with Cons.IH [of "map_items (argv_item [o']) cfg"] Cons.prems True show ?thesis
      by (simp add: map_items_comp argv_item_Cons)
  next
    case False
    then have "c = CHR ''h'' \<or> set_option c a cfg = Inr (False, cfg) \<or> set_option c a cfg = Inl NullDeref"
      using Cons.prems by (cases "map_of (sig cfg) c"; cases a) (auto simp: option_ok_def o' set_option_sig)
    then show ?thesis using False by (auto simp: o')
  qed
qed

lemma parseEnv_iff:
  "parseEnv getenv cfg = Inr (ok, cfg') \<longleftrightarrow> ok \<and> cfg' = map_items (env_item getenv) cfg \<and>
     (\<forall>(n, i) \<in> set cfg. it_type i = BOOL \<longrightarrow> env_of getenv i \<noteq> None \<longrightarrow> (\<exists>b. it_value i = ValB b))"
proof (induction cfg arbitrary: ok cfg')
  case (Cons x cfg)
  obtain n i where x: "x = (n, i)" by (cases x)
  have t: "toggle v = Inr w \<longleftrightarrow> (\<exists>b. v = ValB b \<and> w = ValB (\<not> b))" for v w by (cases v) auto
  show ?case
  proof (cases "env_of getenv i")
    case None
    then show ?thesis using Cons by (auto simp: x env_of_def env_item_def split: option.splits)
  next
    case (Some s)
    then obtain e where e: "env_name i = Some e" "getenv e = Some s"
      by (auto simp: env_of_def split: option.splits)
    show ?thesis using Some e Cons by (cases "it_type i") (auto simp: x env_item_def t)
  qed
qed auto

section \<open>The loaded configuration\<close>

definition loaded_item :: "(char \<times> string option) list \<Rightarrow> (string \<Rightarrow> string option) \<Rightarrow> config_item \<Rightarrow> config_item" where
  "loaded_item opts getenv item = env_item getenv (argv_item opts item)"

lemma distinct_options: "distinct (map fst (sig Config))"
  by (simp add: Config_def Item_def)

definition nowait :: config_item where
  "nowait = the (map_of Config RMR_NOWAIT)"

lemma nowait_simps [simp]:
  "short_option_name nowait = CHR ''R''" "env_name nowait = Some ''RMR_NOWAIT''" "it_type nowait = BOOL"
  "it_value nowait = ValS None" "default_value nowait = Some (ValB False)" "\<not> value_set nowait"
  by (simp_all add: nowait_def Config_def Item_def)

lemma only_bool:
  assumes "(n, i) \<in> set Config" "it_type i = BOOL"
  shows "i = nowait"
proof -
  have "list_all (\<lambda>(n, i). it_type i = BOOL \<longrightarrow> n = RMR_NOWAIT) Config" by (simp add: Config_def Item_def)
  with assms have "n = RMR_NOWAIT" by (auto simp: list_all_iff)
  moreover have "distinct (map fst Config)" by (simp add: Config_def)
  ultimately show ?thesis using assms(1) by (simp add: nowait_def map_of_is_SomeI)
qed

lemma nowait_in: "(RMR_NOWAIT, nowait) \<in> set Config"
  unfolding nowait_def by (simp add: Config_def)

lemma bool_options:
  "(\<forall>(n, i) \<in> set (map_items (argv_item opts) Config). it_type i = BOOL \<longrightarrow> env_of getenv i \<noteq> None \<longrightarrow>
       (\<exists>b. it_value i = ValB b)) \<longleftrightarrow> (getenv ''RMR_NOWAIT'' \<noteq> None \<longrightarrow> CHR ''R'' \<in> fst ` set opts)"
  (is "?l \<longleftrightarrow> ?r")
proof -
  have "?l \<longleftrightarrow> (\<forall>(n, i) \<in> set Config. it_type i = BOOL \<longrightarrow> env_of getenv (argv_item opts i) \<noteq> None \<longrightarrow>
      (\<exists>b. it_value (argv_item opts i) = ValB b))"
    by (simp add: map_items_def split_beta)
  also have "\<dots> \<longleftrightarrow> (env_of getenv (argv_item opts nowait) \<noteq> None \<longrightarrow> (\<exists>b. it_value (argv_item opts nowait) = ValB b))"
    using nowait_in only_bool nowait_simps(3) by blast
  also have "\<dots> \<longleftrightarrow> ?r"
    using last_arg_None [of "CHR ''R''" opts]
    by (auto simp: env_of_def argv_item_def arg_of_def split: option.splits)
  finally show ?thesis .
qed

lemma load_config_iff:
  "load_config opts getenv = Inr (Some cfg) \<longleftrightarrow>
     list_all (option_ok (sig Config)) opts \<and> cfg = map_items (loaded_item opts getenv) Config \<and> validate cfg \<and>
     (getenv ''RMR_NOWAIT'' \<noteq> None \<longrightarrow> CHR ''R'' \<in> fst ` set opts)"
proof -
  have l: "map_items (env_item getenv) (map_items (argv_item opts) Config) = map_items (loaded_item opts getenv) Config"
    by (simp add: map_items_def loaded_item_def split_beta)
  have "load_config opts getenv = Inr (Some cfg) \<longleftrightarrow>
     (\<exists>c1. parseArgv opts Config = Inr (True, c1) \<and> parseEnv getenv c1 = Inr (True, cfg) \<and> validate cfg)"
    by (auto simp: load_config_def split: if_splits)
  then show ?thesis
    unfolding parseArgv_iff [OF distinct_options] parseEnv_iff
    using bool_options [of opts getenv] l by auto
qed

lemma validate_loaded:
  "validate (map_items (loaded_item opts getenv) Config) \<longleftrightarrow>
     (CHR ''n'' \<in> fst ` set opts \<or> getenv ''XAPP_NAME'' \<noteq> None) \<and>
     (CHR ''x'' \<in> fst ` set opts \<or> getenv ''XAPP_ID'' \<noteq> None)"
proof -
  have vs: "value_set (loaded_item opts getenv i) \<longleftrightarrow>
      value_set i \<or> short_option_name i \<in> fst ` set opts \<or> env_of getenv i \<noteq> None" for i
    using last_arg_None [of "short_option_name i" opts]
    by (auto simp: loaded_item_def env_item_def argv_item_def env_of_def split: option.splits)
  have k: "required (loaded_item opts getenv i) = required i" "default_value (loaded_item opts getenv i) = default_value i" for i
    by (auto simp: loaded_item_def env_item_def split: option.splits)
  show ?thesis by (simp add: validate_def Config_def Item_def vs k env_of_def)
qed

text \<open>The value the options and the environment give an option, without its table.\<close>

definition configured :: "(char \<times> string option) list \<Rightarrow> (string \<Rightarrow> string option) \<Rightarrow> config_item \<Rightarrow> item_value option" where
  "configured opts getenv item =
     (case env_of getenv item of
        Some t \<Rightarrow> Some (case it_type item of BOOL \<Rightarrow> ValB False | STRING \<Rightarrow> ValS (Some t) | INTEGER \<Rightarrow> ValI (atoi t))
      | None \<Rightarrow> (case last_arg (short_option_name item) opts of
          Some a \<Rightarrow> Some (case it_type item of BOOL \<Rightarrow> ValB True | STRING \<Rightarrow> ValS a | INTEGER \<Rightarrow> ValI (atoi (the a)))
        | None \<Rightarrow> default_value item))"

fun value_type :: "item_value \<Rightarrow> item_type" where
  "value_type (ValB _) = BOOL" | "value_type (ValS _) = STRING" | "value_type (ValI _) = INTEGER"

lemma map_of_map_items: "map_of (map_items f cfg) n = map_option f (map_of cfg n)"
  by (induction cfg) auto

lemma Config_entries:
  obtains i where "map_of Config n = Some i" "\<not> value_set i" "it_value i = ValS None"
    "\<And>v. default_value i = Some v \<Longrightarrow> value_type v = it_type i"
    "default_value i = None \<longleftrightarrow> n = XAPP_NAME \<or> n = XAPP_ID" "it_type i = BOOL \<Longrightarrow> i = nowait"
proof -
  have "\<exists>i. map_of Config n = Some i \<and> \<not> value_set i \<and> it_value i = ValS None \<and>
      (\<forall>v. default_value i = Some v \<longrightarrow> value_type v = it_type i) \<and>
      (default_value i = None \<longleftrightarrow> n = XAPP_NAME \<or> n = XAPP_ID)"
    by (cases n) (simp_all add: Config_def Item_def)
  then show ?thesis using that only_bool map_of_SomeD by metis
qed

lemma loaded_value:
  assumes l: "load_config opts getenv = Inr (Some cfg)" and i: "map_of Config n = Some i"
  shows "config_at cfg n = Inr (configured opts getenv i)"
proof -
  obtain i' where i': "map_of Config n = Some i'" "\<not> value_set i'" "it_type i' = BOOL \<Longrightarrow> i' = nowait"
    using Config_entries [of n] by blast
  with i have i'': "\<not> value_set i" "it_type i = BOOL \<Longrightarrow> i = nowait" by simp_all
  have cfg: "cfg = map_items (loaded_item opts getenv) Config"
    and R: "getenv ''RMR_NOWAIT'' \<noteq> None \<longrightarrow> CHR ''R'' \<in> fst ` set opts" using l by (simp_all add: load_config_iff)
  have e: "env_of getenv (argv_item opts i) = env_of getenv i" by (simp add: env_of_def)
  have b: "it_value (argv_item opts i) = ValB True" if "it_type i = BOOL" "env_of getenv i = Some t" for t
  proof -
    have "i = nowait" using that i'' by simp
    then have "CHR ''R'' \<in> fst ` set opts" using that R by (simp add: env_of_def)
    then show ?thesis using \<open>i = nowait\<close> last_arg_None [of "CHR ''R''" opts]
      by (auto simp: argv_item_def arg_of_def split: option.splits)
  qed
  have "config_at cfg n = Inr (if value_set (loaded_item opts getenv i) then Some (it_value (loaded_item opts getenv i))
      else default_value (loaded_item opts getenv i))"
    by (simp add: config_at_def cfg map_of_map_items i)
  also have "\<dots> = Inr (configured opts getenv i)"
    using i'' b unfolding loaded_item_def env_item_def e configured_def
    by (cases "env_of getenv i"; cases "it_type i") (auto simp: argv_item_def arg_of_def split: option.splits)
  finally show ?thesis .
qed

lemma loaded_value_typed:
  assumes "load_config opts getenv = Inr (Some cfg)"
  shows "\<exists>v. config_at cfg n = Inr (Some v) \<and> value_type v = it_type (the (map_of Config n))"
proof -
  obtain i where i: "map_of Config n = Some i" "\<And>v. default_value i = Some v \<Longrightarrow> value_type v = it_type i"
    "default_value i = None \<longleftrightarrow> n = XAPP_NAME \<or> n = XAPP_ID" "it_type i = BOOL \<Longrightarrow> i = nowait"
    using Config_entries [of n] by metis
  have a: "config_at cfg n = Inr (configured opts getenv i)" by (rule loaded_value [OF assms i(1)])
  have "configured opts getenv i \<noteq> None"
  proof (cases "default_value i")
    case None
    then have "n = XAPP_NAME \<and> short_option_name i = CHR ''n'' \<and> env_name i = Some ''XAPP_NAME'' \<or>
        n = XAPP_ID \<and> short_option_name i = CHR ''x'' \<and> env_name i = Some ''XAPP_ID''"
      using i(1,3) by (auto simp: Config_def Item_def)
    moreover have "validate (map_items (loaded_item opts getenv) Config)"
      using iffD1 [OF load_config_iff assms] by blast
    then have "(last_arg (CHR ''n'') opts \<noteq> None \<or> getenv ''XAPP_NAME'' \<noteq> None) \<and>
        (last_arg (CHR ''x'') opts \<noteq> None \<or> getenv ''XAPP_ID'' \<noteq> None)"
      unfolding validate_loaded last_arg_None by blast
    ultimately show ?thesis
      by (auto simp: configured_def env_of_def split: option.splits)
  qed (auto simp: configured_def split: option.splits)
  moreover have "value_type v = it_type i" if "configured opts getenv i = Some v" for v
    using that i(2,4) by (auto simp: configured_def split: option.splits item_type.splits)
  ultimately show ?thesis using a i(1) by auto
qed

section \<open>Properties\<close>

text \<open>C24: In a configuration that was loaded every option has the value of the environment if its variable is
  set, else that of the last such option of the command line, else its default. The one flag is the
  exception: the environment turns off what the command line turned on.\<close>

theorem configuration_precedence:
  assumes "load_config opts getenv = Inr (Some cfg)"
  shows "config_at cfg n = Inr (configured opts getenv (the (map_of Config n)))"
proof -
  obtain i where "map_of Config n = Some i" using Config_entries [of n] by blast
  with loaded_value [OF assms this] show ?thesis by simp
qed

definition demo_opts :: "(char \<times> string option) list" where
  "demo_opts = [(CHR ''n'', Some ''nexran''), (CHR ''p'', Some ''1''), (CHR ''R'', None), (CHR ''p'', Some ''4561'')]"

definition demo_getenv :: "string \<Rightarrow> string option" where
  "demo_getenv = (\<lambda>_. None)(''XAPP_ID'' := Some ''7'', ''RMR_NOWAIT'' := Some ''1'')"

lemma demo_config: "\<exists>cfg. load_config demo_opts demo_getenv = Inr (Some cfg)"
  unfolding load_config_iff
  by (auto simp: validate_loaded) (simp_all add: demo_opts_def demo_getenv_def option_ok_def Config_def Item_def)

lemma atoi_example: "atoi ''4561'' = 4561" "atoi '' -12x'' = -12"
  by code_simp+

theorem configuration_precedence_witness:
  "\<exists>cfg. load_config demo_opts demo_getenv = Inr (Some cfg) \<and>
     config_at cfg PORT = Inr (Some (ValI 4561)) \<and> config_at cfg XAPP_ID = Inr (Some (ValS (Some ''7''))) \<and>
     config_at cfg RMR_NOWAIT = Inr (Some (ValB False)) \<and> config_at cfg ADMIN_PORT = Inr (Some (ValI 8000))"
proof -
  obtain cfg where c: "load_config demo_opts demo_getenv = Inr (Some cfg)" using demo_config by blast
  note p = configuration_precedence [OF c, unfolded configured_def]
  show ?thesis
    using c p [of PORT] p [of XAPP_ID] p [of RMR_NOWAIT] p [of ADMIN_PORT]
    by (simp add: Config_def Item_def env_of_def demo_opts_def demo_getenv_def atoi_example)
qed

text \<open>C25: A configuration is loaded exactly if every option of the command line is known and the numeric ones
  have an argument, name and id of the xApp are given, and the flag is not in the environment alone.\<close>

theorem configuration_accepted:
  "(\<exists>cfg. load_config opts getenv = Inr (Some cfg)) \<longleftrightarrow>
     list_all (option_ok (sig Config)) opts \<and>
     (getenv ''RMR_NOWAIT'' = None \<or> CHR ''R'' \<in> fst ` set opts) \<and>
     (CHR ''n'' \<in> fst ` set opts \<or> getenv ''XAPP_NAME'' \<noteq> None) \<and>
     (CHR ''x'' \<in> fst ` set opts \<or> getenv ''XAPP_ID'' \<noteq> None)"
  unfolding load_config_iff using validate_loaded [of opts getenv] by auto

theorem configuration_accepted_witness:
  "(\<exists>cfg. load_config demo_opts demo_getenv = Inr (Some cfg)) \<and> \<not> (\<exists>cfg. load_config [] demo_getenv = Inr (Some cfg))"
  unfolding configuration_accepted
  by (simp add: demo_opts_def demo_getenv_def option_ok_def Config_def Item_def)

text \<open>Every option of a loaded configuration can be read: the pointer is not null and the member of the
  option's kind is the one that was written.\<close>

theorem loaded_options_readable:
  assumes "load_config opts getenv = Inr (Some cfg)"
  shows "\<exists>v. config_at cfg n = Inr (Some v) \<and> value_type v = it_type (the (map_of Config n))"
  using assms by (rule loaded_value_typed)

theorem loaded_options_readable_witness:
  "\<exists>cfg v. load_config demo_opts demo_getenv = Inr (Some cfg) \<and>
     config_at cfg ADMIN_PORT = Inr (Some v) \<and> value_type v = INTEGER"
proof -
  obtain cfg where c: "load_config demo_opts demo_getenv = Inr (Some cfg)" using demo_config by blast
  have "it_type (the (map_of Config ADMIN_PORT)) = INTEGER" by (simp add: Config_def Item_def)
  with loaded_options_readable [OF c, of ADMIN_PORT] c show ?thesis by metis
qed

lemma parseEnv_fault: "parseEnv getenv cfg = Inl f \<Longrightarrow> f = InactiveMember"
proof (induction cfg)
  case (Cons x cfg)
  have t: "env_value ty s v = Inl f \<Longrightarrow> f = InactiveMember" for ty s v by (cases ty; cases v) auto
  obtain n i where x: "x = (n, i)" by (cases x)
  have "(\<exists>s. env_value (it_type i) s (it_value i) = Inl f) \<or> parseEnv getenv cfg = Inl f"
    using Cons.prems unfolding x
    by (cases "env_name i"; cases "getenv (the (env_name i))") (auto simp: bind_outcome_Inl_iff)
  with t Cons.IH show ?case by blast
qed simp

text \<open>The flag in the environment without its option on the command line reads a member of the union that
  was never written.\<close>

theorem flag_in_environment_faults:
  assumes "list_all (option_ok (sig Config)) opts" "getenv ''RMR_NOWAIT'' = Some t" "CHR ''R'' \<notin> fst ` set opts"
  shows "load_config opts getenv = Inl InactiveMember"
proof -
  let ?c = "map_items (argv_item opts) Config"
  have p: "parseArgv opts Config = Inr (True, ?c)" using assms(1) by (simp add: parseArgv_iff [OF distinct_options])
  have "\<not> (\<forall>(n, i) \<in> set ?c. it_type i = BOOL \<longrightarrow> env_of getenv i \<noteq> None \<longrightarrow> (\<exists>b. it_value i = ValB b))"
    using bool_options [of opts getenv] assms(2,3) by simp
  then have "parseEnv getenv ?c \<noteq> Inr r" for r
    by (cases r) (simp only: parseEnv_iff simp_thms)
  then obtain f where "parseEnv getenv ?c = Inl f" by (cases "parseEnv getenv ?c") auto
  with parseEnv_fault [OF this] p show ?thesis by (simp add: load_config_def)
qed

theorem flag_in_environment_faults_witness:
  "load_config [] (\<lambda>v. if v = ''RMR_NOWAIT'' then Some ''1'' else None) = Inl InactiveMember"
  by (rule flag_in_environment_faults) simp_all

end
