(* ===== verification/Lifecycle_Behaviour.thy ===== *)
theory Lifecycle_Behaviour
  imports Lifecycle Config_Behaviour
begin

text \<open>
  What the process does from its start to its end: where the settings come from and what is registered
  with them, what address the server is bound to, how a request group is answered, and that the
  application, once started, cannot be stopped.
\<close>

section \<open>Settings\<close>

definition env_or :: "(string \<Rightarrow> string option) \<Rightarrow> string \<Rightarrow> string \<Rightarrow> string" where
  "env_or getenv var d = (case getenv var of None \<Rightarrow> d | Some v \<Rightarrow> v)"

text \<open>The descriptor, and the entries of its list of ports.\<close>

definition descriptor :: "(string \<Rightarrow> string option) \<Rightarrow> (string \<Rightarrow> json option) \<Rightarrow> json option" where
  "descriptor getenv open_descriptor =
     open_descriptor (env_or getenv ''CONFIG_FILE'' ''/nexran/etc/nexran-config-file.json'')"

definition descriptor_ports :: "json option \<Rightarrow> json list" where
  "descriptor_ports d =
     (case d of None \<Rightarrow> []
      | Some doc \<Rightarrow> (case pointer_get [''messaging'', ''ports''] doc of Some (JArray els) \<Rightarrow> els | _ \<Rightarrow> []))"

lemma env_settings:
  "loadSettingsFromEnv getenv xAppSettings =
     (\<lambda>n. case n of S_XAPP_ID \<Rightarrow> env_or getenv ''XAPP_ID'' ''nexran'' | S_XAPP_NAME \<Rightarrow> env_or getenv ''XAPP_NAME'' ''nexran''
      | S_VERSION \<Rightarrow> ''0.2.1'' | S_RMR_SRC_ID \<Rightarrow> env_or getenv ''RMR_SRC_ID'' []
      | S_RMR_PORT \<Rightarrow> env_or getenv ''RMR_PORT'' ''4560'' | S_HTTP_PORT \<Rightarrow> ''8000''
      | S_CONFIG_FILE \<Rightarrow> env_or getenv ''CONFIG_FILE'' ''/nexran/etc/nexran-config-file.json''
      | S_CONFIG_STR \<Rightarrow> [])"
  by (rule ext)
     (simp add: loadSettingsFromEnv_def from_env_def env_or_def xAppSettings_def set_default_def
        split: config_name.split option.split)

lemma loaded_settings:
  assumes "load_settings getenv od write = Inr s"
  shows "s S_RMR_PORT = port_or (last_port ''rmr-data'' (descriptor_ports (descriptor getenv od))) (env_or getenv ''RMR_PORT'' ''4560'')"
    "s S_HTTP_PORT = port_or (last_port ''nbi'' (descriptor_ports (descriptor getenv od))) ''8000''"
    "s S_RMR_SRC_ID = env_or getenv ''RMR_SRC_ID'' []"
    "s S_XAPP_NAME = env_or getenv ''XAPP_NAME'' ''nexran''" "s S_XAPP_ID = env_or getenv ''XAPP_ID'' ''nexran''"
proof -
  define e where "e = loadSettingsFromEnv getenv xAppSettings"
  have cf: "e S_CONFIG_FILE = env_or getenv ''CONFIG_FILE'' ''/nexran/etc/nexran-config-file.json''"
    by (simp add: e_def env_settings)
  have "\<exists>t u els. s = e(S_VERSION := t, S_CONFIG_STR := u,
      S_RMR_PORT := port_or (last_port ''rmr-data'' els) (e S_RMR_PORT),
      S_HTTP_PORT := port_or (last_port ''nbi'' els) (e S_HTTP_PORT)) \<and> els = descriptor_ports (descriptor getenv od)"
  proof (cases "od (e S_CONFIG_FILE)")
    case None
    then have "s = e" using assms by (simp add: load_settings_def loadxAppDescriptorSettings_def e_def)
    moreover have "descriptor_ports (descriptor getenv od) = []"
      using None by (simp add: descriptor_ports_def descriptor_def cf)
    ultimately show ?thesis by (metis fun_upd_triv port_or_last(1))
  next
    case (Some doc)
    have d: "descriptor getenv od = Some doc" using Some by (simp add: descriptor_def cf)
    from assms Some obtain t s2 where
      v: "(case pointer_get [''messaging'', ''ports''] doc of None \<Rightarrow> Inr (e(S_VERSION := t))
          | Some v \<Rightarrow> bind_outcome (get_array v) (\<lambda>els. ports_loop els (e(S_VERSION := t)))) = Inr s2"
      and s: "s = s2(S_CONFIG_STR := cstr (write doc))"
      by (auto simp: load_settings_def loadxAppDescriptorSettings_def simp flip: e_def
          split: option.splits) (metis fun_upd_triv option.simps(4,5))+
    show ?thesis
    proof (cases "pointer_get [''messaging'', ''ports''] doc")
      case None
      then have "s2 = e(S_VERSION := t)" "descriptor_ports (Some doc) = []"
        using v by (auto simp: descriptor_ports_def simp del: pointer_get.simps)
      then show ?thesis unfolding s d
        by (intro exI [of _ t] exI [of _ "cstr (write doc)"]) auto
    next
      case (Some j)
      then obtain els where els: "j = JArray els" "ports_loop els (e(S_VERSION := t)) = Inr s2"
        using v by (cases j) (auto simp del: pointer_get.simps)
      then have "descriptor_ports (Some doc) = els"
        using Some by (simp add: descriptor_ports_def del: pointer_get.simps)
      with ports_loop_spec [OF els(2)] show ?thesis unfolding s d
        by (intro exI [of _ t] exI [of _ "cstr (write doc)"]) (auto simp: fun_eq_iff)
    qed
  qed
  then show "s S_RMR_PORT = port_or (last_port ''rmr-data'' (descriptor_ports (descriptor getenv od))) (env_or getenv ''RMR_PORT'' ''4560'')"
    "s S_HTTP_PORT = port_or (last_port ''nbi'' (descriptor_ports (descriptor getenv od))) ''8000''"
    "s S_RMR_SRC_ID = env_or getenv ''RMR_SRC_ID'' []"
    "s S_XAPP_NAME = env_or getenv ''XAPP_NAME'' ''nexran''" "s S_XAPP_ID = env_or getenv ''XAPP_ID'' ''nexran''"
    by (auto simp: e_def env_settings)
qed

text \<open>C26: The endpoints the xApp registers: the host of the environment, the RMR port of the descriptor's last
  entry for it, else of the environment, else 4560, and the HTTP port of the descriptor, else 8000. The
  options of the command line, which the server is bound with, play no part.\<close>

theorem registered_endpoints:
  assumes "load_settings getenv od write = Inr s"
  shows "json_member (registration_body s) ''rmrEndpoint'' = Some (JString (env_or getenv ''RMR_SRC_ID'' [] @ '':'' @
      port_or (last_port ''rmr-data'' (descriptor_ports (descriptor getenv od))) (env_or getenv ''RMR_PORT'' ''4560''))) \<and>
    json_member (registration_body s) ''httpEndpoint'' = Some (JString (env_or getenv ''RMR_SRC_ID'' [] @ '':'' @
      port_or (last_port ''nbi'' (descriptor_ports (descriptor getenv od))) ''8000''))"
  by (simp add: registration_body_def Let_def json_member_def loaded_settings [OF assms])

definition demo_descriptor :: json where
  "demo_descriptor = JObject [(''messaging'', JObject [(''ports'', JArray
     [JObject [(''name'', JString ''rmr-data''), (''port'', JInt 4570)],
      JObject [(''name'', JString ''rmr-route''), (''port'', JInt 4571)],
      JObject [(''name'', JString ''nbi''), (''port'', JInt 8001)]])])]"

definition demo_vars :: "string \<Rightarrow> string option" where
  "demo_vars = demo_getenv(''RMR_SRC_ID'' := Some ''10.0.0.9'')"

lemma demo_ports:
  "descriptor_ports (descriptor getenv (\<lambda>_. Some demo_descriptor)) =
     [JObject [(''name'', JString ''rmr-data''), (''port'', JInt 4570)],
      JObject [(''name'', JString ''rmr-route''), (''port'', JInt 4571)],
      JObject [(''name'', JString ''nbi''), (''port'', JInt 8001)]]"
  by (simp add: descriptor_ports_def descriptor_def demo_descriptor_def json_member_def)

lemma demo_settings: "\<exists>s. load_settings demo_vars (\<lambda>_. Some demo_descriptor) (\<lambda>_. ''{}'') = Inr s"
proof -
  have "case load_settings demo_vars (\<lambda>_. Some demo_descriptor) (\<lambda>_. ''{}'') of Inl _ \<Rightarrow> False | Inr _ \<Rightarrow> True"
    by code_simp
  then show ?thesis by (cases "load_settings demo_vars (\<lambda>_. Some demo_descriptor) (\<lambda>_. ''{}'')") auto
qed

theorem registered_endpoints_witness:
  "\<exists>s. load_settings demo_vars (\<lambda>_. Some demo_descriptor) (\<lambda>_. ''{}'') = Inr s \<and>
     json_member (registration_body s) ''rmrEndpoint'' = Some (JString (''10.0.0.9:'' @ to_string 4570)) \<and>
     json_member (registration_body s) ''httpEndpoint'' = Some (JString (''10.0.0.9:'' @ to_string 8001))"
proof -
  obtain s where s: "load_settings demo_vars (\<lambda>_. Some demo_descriptor) (\<lambda>_. ''{}'') = Inr s" using demo_settings by blast
  have p: "last_port ''rmr-data'' (descriptor_ports (descriptor demo_vars (\<lambda>_. Some demo_descriptor))) = Some 4570"
    "last_port ''nbi'' (descriptor_ports (descriptor demo_vars (\<lambda>_. Some demo_descriptor))) = Some 8001"
    by (simp_all add: demo_ports last_port_def map_filter_simps cstr_def last_opt_def)
  have "env_or demo_vars ''RMR_SRC_ID'' [] = ''10.0.0.9''" by (simp add: env_or_def demo_vars_def)
  with registered_endpoints [OF s] p s show ?thesis by (simp add: port_or_def)
qed

section \<open>Request groups\<close>

definition track :: "int list \<Rightarrow> (int \<times> request_state) list \<Rightarrow> request_group \<Rightarrow> request_group" where
  "track ids ups g = foldl (\<lambda>g (i, st). group_update i st g) (foldl (\<lambda>g i. group_add i g) g ids) ups"

definition state_of :: "(int \<times> request_state) list \<Rightarrow> int \<Rightarrow> request_state" where
  "state_of ups i = (case last_opt (map snd (filter (\<lambda>u. fst u = i) ups)) of None \<Rightarrow> PENDING | Some st \<Rightarrow> st)"

lemma added_requests:
  "sm_wf (requests (foldl (\<lambda>g i. group_add i g) (RequestGroup t ctx tmo) ids)) \<and>
   (\<forall>i. sm_get (requests (foldl (\<lambda>g i. group_add i g) (RequestGroup t ctx tmo) ids)) i =
      (if i \<in> set ids then Some PENDING else None))"
  by (induction ids rule: rev_induct) (auto simp: RequestGroup_def group_add_def)

lemma tracked_requests:
  "sm_wf (requests (track ids ups (RequestGroup t ctx tmo))) \<and>
   (\<forall>i. sm_get (requests (track ids ups (RequestGroup t ctx tmo))) i =
      (if i \<in> set ids then Some (state_of ups i) else None))"
proof (induction ups rule: rev_induct)
  case Nil
  show ?case using added_requests [of t ctx tmo ids] by (simp add: track_def state_of_def)
next
  case (snoc u ups)
  obtain j st where u: "u = (j, st)" by (cases u)
  let ?g = "track ids ups (RequestGroup t ctx tmo)"
  have "track ids (ups @ [u]) (RequestGroup t ctx tmo) = group_update j st ?g" by (simp add: track_def u)
  moreover have "state_of (ups @ [u]) i = (if i = j then st else state_of ups i)" for i
    by (simp add: state_of_def u)
  ultimately show ?case using snoc by (auto simp: group_update_def sm_has_iff)
qed

lemma tracked_timeout: "rg_timeout (track ids ups (RequestGroup t ctx tmo)) = t + tmo"
proof -
  have "rg_timeout (foldl (\<lambda>g i. group_add i g) (RequestGroup t ctx tmo) ids) = t + tmo"
    by (induction ids rule: rev_induct) (simp_all add: RequestGroup_def group_add_def)
  then show ?thesis
    by (induction ups rule: rev_induct) (auto simp: track_def group_update_def)
qed

lemma group_reply_states:
  "group_reply now g =
     (if PENDING \<in> snd ` set (requests g) then (if is_expired now g then Some 504 else None)
      else if FAILURE \<in> snd ` set (requests g) then Some 502 else Some 200)"
  by (auto simp: group_reply_def is_done_def count_states_spec count_list_0_iff Let_def)

lemma sm_values: "sm_wf m \<Longrightarrow> snd ` set m = {v. \<exists>k. sm_get m k = Some v}"
  by (force simp: sm_get_def map_of_eq_Some_iff sm_wf_distinct)

text \<open>C28: A group of requests that were sent is answered with 200 when all succeeded, with 502 when all are
  answered and some failed, and with 504 once the time is over; the last report on a request counts, and
  reports on others are ignored.\<close>

theorem group_is_answered:
  "group_reply now (track ids ups (RequestGroup t ctx tmo)) =
     (if PENDING \<in> state_of ups ` set ids then (if now > t + tmo then Some 504 else None)
      else if FAILURE \<in> state_of ups ` set ids then Some 502 else Some 200)"
proof -
  have "snd ` set (requests (track ids ups (RequestGroup t ctx tmo))) = state_of ups ` set ids"
    using tracked_requests [of ids ups t ctx tmo]
    by (subst sm_values) (auto simp: image_iff split: if_splits)
  then show ?thesis by (simp add: group_reply_states is_expired_def tracked_timeout)
qed

text \<open>The response thread survives timeouts only: the first notification or spurious wake-up ends in the use
  of an erased element or in a wait without the lock. It never returns.\<close>

theorem response_thread_survives_timeouts_only:
  "response_handler False ws th = Inr (b, th') \<longleftrightarrow>
     \<not> b \<and> th' = th \<and> lock_held th \<and> list_all (\<lambda>w. w = Timeout) ws"
  by (rule response_handler_waits)

section \<open>The process\<close>

lemma started_parts:
  assumes "nexran_main prog opts getenv od write post = Inr (Running cfg s l)"
  obtains nw r where "load_config opts getenv = Inr (Some cfg)" "load_settings getenv od write = Inr s"
    "bind_outcome (config_at cfg RMR_NOWAIT) value_b = Inr nw" "rest_init cfg RestServer = Inr r"
    "l = \<lparr>running = True, should_stop = False, wait_for_routes = (\<not> nw),
          callbacks = [RIC_SUB_RESP, RIC_SUB_FAILURE, RIC_SUB_DEL_RESP, RIC_SUB_DEL_FAILURE,
                       RIC_CONTROL_ACK, RIC_CONTROL_FAILURE, RIC_INDICATION],
          rmr_thread = True, response_thread_of = Some \<lparr>lock_held = True, request_groups = []\<rparr>,
          server = rest_start r\<rparr>"
proof -
  from assms obtain l0 where l: "load_config opts getenv = Inr (Some cfg)" "load_settings getenv od write = Inr s"
    "App_life cfg = Inr l0" "app_start post cfg s l0 = Inr l"
    by (auto simp: nexran_main_def split: option.splits)
  from l(3) obtain nw where nw: "bind_outcome (config_at cfg RMR_NOWAIT) value_b = Inr nw"
    "l0 = \<lparr>running = False, should_stop = False, wait_for_routes = (\<not> nw), callbacks = [],
           rmr_thread = False, response_thread_of = None, server = RestServer\<rparr>"
    by (auto simp: App_life_def)
  from l(4) obtain r where "rest_init cfg RestServer = Inr r"
    "l = \<lparr>running = True, should_stop = False, wait_for_routes = (\<not> nw),
          callbacks = [RIC_SUB_RESP, RIC_SUB_FAILURE, RIC_SUB_DEL_RESP, RIC_SUB_DEL_FAILURE,
                       RIC_CONTROL_ACK, RIC_CONTROL_FAILURE, RIC_INDICATION],
          rmr_thread = True, response_thread_of = Some \<lparr>lock_held = True, request_groups = []\<rparr>,
          server = rest_start r\<rparr>"
    by (auto simp: app_start_def nw(2))
  with l nw that show ?thesis by blast
qed

text \<open>A process that runs serves the northbound interface at the configured address, its port cut to 16 bits,
  has callbacks for message types it supports, and waits for the routes of RMR unless the flag was given
  on the command line and not in the environment.\<close>

theorem started_process:
  assumes "nexran_main prog opts getenv od write post = Inr (Running cfg s l)"
  shows "\<exists>h p. configured opts getenv (the (map_of Config ADMIN_HOST)) = Some (ValS (Some h)) \<and>
    configured opts getenv (the (map_of Config ADMIN_PORT)) = Some (ValI p) \<and>
    running l \<and> serving (server l) \<and> bound (server l) = Some (h, word_of_int p) \<and>
    list_all supported_mtype (callbacks l) \<and>
    (wait_for_routes l \<longleftrightarrow> CHR ''R'' \<notin> fst ` set opts \<or> getenv ''RMR_NOWAIT'' \<noteq> None)"
proof -
  obtain nw r where p: "load_config opts getenv = Inr (Some cfg)"
    "bind_outcome (config_at cfg RMR_NOWAIT) value_b = Inr nw" "rest_init cfg RestServer = Inr r"
    and l: "l = \<lparr>running = True, should_stop = False, wait_for_routes = (\<not> nw),
          callbacks = [RIC_SUB_RESP, RIC_SUB_FAILURE, RIC_SUB_DEL_RESP, RIC_SUB_DEL_FAILURE,
                       RIC_CONTROL_ACK, RIC_CONTROL_FAILURE, RIC_INDICATION],
          rmr_thread = True, response_thread_of = Some \<lparr>lock_held = True, request_groups = []\<rparr>,
          server = rest_start r\<rparr>"
    using started_parts [OF assms] by metis
  have c: "config_at cfg n = Inr (configured opts getenv (the (map_of Config n)))" for n
    using loaded_value [OF p(1)] Config_entries [of n] by (metis option.sel)
  have s: "value_s x = Inr a \<longleftrightarrow> x = Some (ValS a)" for x a by (cases x; cases "the x") auto
  have i: "value_i x = Inr a \<longleftrightarrow> x = Some (ValI a)" for x a by (cases x; cases "the x") auto
  from p(3) obtain port host where r: "config_at cfg ADMIN_PORT = Inr (Some (ValI port))"
    "config_at cfg ADMIN_HOST = Inr (Some (ValS (Some host)))" "r = RestServer\<lparr>bound := Some (host, word_of_int port)\<rparr>"
    by (auto simp: rest_init_def s i split: option.splits)
  have n: "the (map_of Config RMR_NOWAIT) = nowait" by (simp add: nowait_def)
  have "value_b (configured opts getenv nowait) = Inr nw" using p(2) c [of RMR_NOWAIT] n by simp
  then have "nw \<longleftrightarrow> CHR ''R'' \<in> fst ` set opts \<and> getenv ''RMR_NOWAIT'' = None"
    using last_arg_None [of "CHR ''R''" opts]
    by (auto simp: configured_def env_of_def split: option.splits)
  then show ?thesis using r c [of ADMIN_PORT] c [of ADMIN_HOST] l
    by (auto simp: rest_start_def RestServer_def)
qed

lemma process_starts:
  assumes c: "load_config opts getenv = Inr (Some cfg)" and s: "load_settings getenv od write = Inr s"
    and h: "configured opts getenv (the (map_of Config ADMIN_HOST)) = Some (ValS (Some h))"
    and r: "post (appmgr @ ''/ric/v1/register'') (registration_body s) \<noteq> None"
  shows "\<exists>l. nexran_main prog opts getenv od write post = Inr (Running cfg s l)"
proof -
  have ty: "it_type (the (map_of Config RMR_NOWAIT)) = BOOL" "it_type (the (map_of Config ADMIN_PORT)) = INTEGER"
    by (simp_all add: Config_def Item_def)
  obtain bv pv where v: "config_at cfg RMR_NOWAIT = Inr (Some bv)" "value_type bv = BOOL"
    "config_at cfg ADMIN_PORT = Inr (Some pv)" "value_type pv = INTEGER"
    using loaded_value_typed [OF c, of RMR_NOWAIT] loaded_value_typed [OF c, of ADMIN_PORT] ty by metis
  obtain b p where bp: "bv = ValB b" "pv = ValI p" using v by (cases bv; cases pv) auto
  have "config_at cfg ADMIN_HOST = Inr (Some (ValS (Some h)))"
    using loaded_value [OF c] h Config_entries [of ADMIN_HOST] by (metis option.sel)
  then show ?thesis using c s r v bp
    by (auto simp: nexran_main_def App_life_def app_start_def rest_init_def register_xapp_def)
qed

lemma demo_hosts:
  "configured demo_opts demo_vars (the (map_of Config ADMIN_HOST)) = Some (ValS (Some ''0.0.0.0''))"
  "configured demo_opts demo_vars (the (map_of Config ADMIN_PORT)) = Some (ValI 8000)"
  "demo_vars ''RMR_NOWAIT'' \<noteq> None"
  by (simp_all add: configured_def Config_def Item_def env_of_def demo_vars_def demo_getenv_def demo_opts_def)

lemma demo_start: "\<exists>cfg s l. nexran_main ''nexran'' demo_opts demo_vars (\<lambda>_. Some demo_descriptor) (\<lambda>_. ''{}'') (\<lambda>_ _. Some 201)
     = Inr (Running cfg s l)"
proof -
  obtain s where s: "load_settings demo_vars (\<lambda>_. Some demo_descriptor) (\<lambda>_. ''{}'') = Inr s" using demo_settings by blast
  have "\<exists>cfg. load_config demo_opts demo_vars = Inr (Some cfg)"
    unfolding load_config_iff
    by (auto simp: validate_loaded) (simp_all add: demo_opts_def demo_vars_def demo_getenv_def option_ok_def Config_def Item_def)
  then obtain cfg where "load_config demo_opts demo_vars = Inr (Some cfg)" ..
  from process_starts [OF this s demo_hosts(1), of "\<lambda>_ _. Some 201" "''nexran''"] show ?thesis by auto
qed

theorem started_process_witness:
  "\<exists>cfg s l. nexran_main ''nexran'' demo_opts demo_vars (\<lambda>_. Some demo_descriptor) (\<lambda>_. ''{}'') (\<lambda>_ _. Some 201)
     = Inr (Running cfg s l) \<and> bound (server l) = Some (''0.0.0.0'', 8000) \<and> wait_for_routes l"
proof -
  obtain cfg s l where m: "nexran_main ''nexran'' demo_opts demo_vars (\<lambda>_. Some demo_descriptor) (\<lambda>_. ''{}'')
      (\<lambda>_ _. Some 201) = Inr (Running cfg s l)" using demo_start by blast
  from started_process [OF m] m demo_hosts show ?thesis by auto
qed

text \<open>C27: A started application never stops: \<open>should_stop\<close> is not set by anything, so \<open>App::stop\<close> waits for the
  response thread for ever and a signal does not end the process, unless the thread or the
  deregistration ends it by a fault before.\<close>

theorem stop_never_returns:
  assumes "nexran_main prog opts getenv od write post = Inr (Running cfg s l)"
  shows "app_stop post' s ws l \<noteq> Inr (Some l') \<and> sigh post' ws (Running cfg s l) \<noteq> Inr (Some q) \<and>
    (list_all (\<lambda>w. w = Timeout) ws \<longrightarrow> post' (appmgr @ ''/ric/v1/deregister'') (registration_body s) \<noteq> None \<longrightarrow>
       app_stop post' s ws l = Inr None)"
proof -
  obtain nw r where l: "l = \<lparr>running = True, should_stop = False, wait_for_routes = (\<not> nw),
          callbacks = [RIC_SUB_RESP, RIC_SUB_FAILURE, RIC_SUB_DEL_RESP, RIC_SUB_DEL_FAILURE,
                       RIC_CONTROL_ACK, RIC_CONTROL_FAILURE, RIC_INDICATION],
          rmr_thread = True, response_thread_of = Some \<lparr>lock_held = True, request_groups = []\<rparr>,
          server = rest_start r\<rparr>"
    using started_parts [OF assms] by metis
  have "response_handler False ws th = Inr (b, th') \<Longrightarrow> \<not> b" for b th th'
    by (simp add: response_handler_waits)
  moreover have "response_handler False ws \<lparr>lock_held = True, request_groups = []\<rparr> =
      Inr (False, \<lparr>lock_held = True, request_groups = []\<rparr>)" if "list_all (\<lambda>w. w = Timeout) ws"
    using that by (simp add: response_handler_waits)
  ultimately show ?thesis
    by (auto simp: app_stop_def l deregister_xapp_def split: option.splits)
qed

theorem stop_never_returns_witness:
  "\<exists>cfg s l. nexran_main ''nexran'' demo_opts demo_vars (\<lambda>_. Some demo_descriptor) (\<lambda>_. ''{}'') (\<lambda>_ _. Some 201)
     = Inr (Running cfg s l) \<and> app_stop (\<lambda>_ _. Some 204) s [Timeout, Timeout, Timeout] l = Inr None"
proof -
  obtain cfg s l where m: "nexran_main ''nexran'' demo_opts demo_vars (\<lambda>_. Some demo_descriptor) (\<lambda>_. ''{}'')
      (\<lambda>_ _. Some 201) = Inr (Running cfg s l)" using demo_start by blast
  with stop_never_returns [OF m, of "\<lambda>_ _. Some 204" "[Timeout, Timeout, Timeout]" l] show ?thesis by auto
qed

end
