(* ===== verification/Ran_View.thy ===== *)
theory Ran_View
  imports Reachability
begin

text \<open>
  The network as an operator of NexRAN thinks of it, and as a specification of the application: which
  slices exist with which share and subscribers, which slices each NodeB has, and what each NodeB has
  been told so far by control requests. \<open>net_step\<close> lists the changes that may happen to it, each with
  the requests it takes; \<open>net_of\<close> reads the network off a state of the application.
\<close>

section \<open>What a NodeB has been told\<close>

text \<open>
  The slices a NodeB has been told to serve, with their shares, and the subscribers it has been told to
  bind to each. A configuration creates a slice or changes its share; deleting a slice also ends its
  bindings; a status request changes nothing.
\<close>

record ran =
  ran_share :: "string \<Rightarrow> int option"
  ran_ues :: "string \<Rightarrow> string set"

definition no_ran :: ran where
  "no_ran = \<lparr>ran_share = (\<lambda>_. None), ran_ues = (\<lambda>_. {})\<rparr>"

fun ran_apply :: "control \<Rightarrow> ran \<Rightarrow> ran" where
  "ran_apply (SliceConfigRequest cs) r = r\<lparr>ran_share := foldl (\<lambda>f (n, sh). f(n \<mapsto> sh)) (ran_share r) cs\<rparr>"
| "ran_apply (SliceDeleteRequest ns) r =
     r\<lparr>ran_share := (\<lambda>n. if n \<in> set ns then None else ran_share r n),
       ran_ues := (\<lambda>n. if n \<in> set ns then {} else ran_ues r n)\<rparr>"
| "ran_apply (SliceStatusRequest ns) r = r"
| "ran_apply (SliceUeBindRequest n is) r = r\<lparr>ran_ues := (ran_ues r)(n := ran_ues r n \<union> set is)\<rparr>"
| "ran_apply (SliceUeUnbindRequest n is) r = r\<lparr>ran_ues := (ran_ues r)(n := ran_ues r n - set is)\<rparr>"

definition told :: "control \<Rightarrow> string \<Rightarrow> (string \<Rightarrow> ran) \<Rightarrow> string \<Rightarrow> ran" where
  "told c n v = v(n := ran_apply c (v n))"

lemma delete_nothing [simp]: "ran_apply (SliceDeleteRequest []) r = r"
  by simp

text \<open>
  Every control request asks for an acknowledgement and is kept in \<open>controls\<close>, whose keys grow: the
  table is the log of all control requests RMR accepted.
\<close>

definition ran_view :: "app \<Rightarrow> string \<Rightarrow> ran" where
  "ran_view s = foldl (\<lambda>v (i, r). told (cr_control r) (cr_meid r) v) (\<lambda>_. no_ran) (controls s)"

text \<open>A transport that accepts every message, and an encoder that encodes every one.\<close>

definition reliable :: "env \<Rightarrow> bool" where
  "reliable E \<longleftrightarrow> encodes E \<and> (\<forall>h msg. rmr_send E h msg)"

section \<open>The network\<close>

text \<open>A slice is given by its address, which tells it from an earlier one of the same name.\<close>

record net =
  nt_bound :: "string \<Rightarrow> string \<Rightarrow> addr option"                    \<comment> \<open>NodeB, slice name\<close>
  nt_slice :: "string \<Rightarrow> (addr \<times> int \<times> string set) option"       \<comment> \<open>address, share, subscribers\<close>
  nt_ran :: "string \<Rightarrow> ran"
  nt_next :: addr

definition tell_bound :: "control \<Rightarrow> string \<Rightarrow> net \<Rightarrow> string \<Rightarrow> ran" where
  "tell_bound c name t = (\<lambda>n. if nt_bound t n name \<noteq> None then ran_apply c (nt_ran t n) else nt_ran t n)"

inductive net_step :: "net \<Rightarrow> net \<Rightarrow> bool" where
  tick: "net_step t (t\<lparr>nt_next := Suc (nt_next t)\<rparr>)"
| create: "nt_slice t name = None \<Longrightarrow>
    net_step t (t\<lparr>nt_slice := (nt_slice t)(name \<mapsto> (nt_next t, sh, {})), nt_next := Suc (nt_next t)\<rparr>)"
| drop: "nt_slice t name = Some x \<Longrightarrow>
    net_step t (t\<lparr>nt_slice := (nt_slice t)(name := None),
                  nt_ran := tell_bound (SliceDeleteRequest [name]) name t\<rparr>)"
| share: "nt_slice t name = Some (a, sh, us) \<Longrightarrow>
    net_step t (t\<lparr>nt_slice := (nt_slice t)(name \<mapsto> (a, sh', us)),
                  nt_ran := tell_bound (SliceConfigRequest [(name, sh')]) name t\<rparr>)"
| join: "nt_slice t name = Some (a, sh, us) \<Longrightarrow>
    net_step t (t\<lparr>nt_slice := (nt_slice t)(name \<mapsto> (a, sh, insert i us)),
                  nt_ran := tell_bound (SliceUeBindRequest name [i]) name t\<rparr>)"
| leave: "nt_slice t name = Some (a, sh, us) \<Longrightarrow>
    net_step t (t\<lparr>nt_slice := (nt_slice t)(name \<mapsto> (a, sh, us - {i})),
                  nt_ran := tell_bound (SliceUeUnbindRequest name [i]) name t\<rparr>)"
| attach: "nt_slice t name = Some (a, sh, us) \<Longrightarrow> nt_bound t n name = None \<Longrightarrow>
    net_step t (t\<lparr>nt_bound := (nt_bound t)(n := (nt_bound t n)(name \<mapsto> a)),
                  nt_ran := told (SliceConfigRequest [(name, sh)]) n (nt_ran t)\<rparr>)"
| detach: "nt_bound t n name \<noteq> None \<Longrightarrow>
    net_step t (t\<lparr>nt_bound := (nt_bound t)(n := (nt_bound t n)(name := None)),
                  nt_ran := told (SliceDeleteRequest [name]) n (nt_ran t)\<rparr>)"
| forget: "set ns = dom (nt_bound t n) \<Longrightarrow>
    net_step t (t\<lparr>nt_bound := (nt_bound t)(n := Map.empty),
                  nt_ran := told (SliceDeleteRequest ns) n (nt_ran t)\<rparr>)"

text \<open>
  What the changes preserve: bindings and slices are older than the next address; a NodeB has been
  told of no slice that is not bound to it; it has been told the present share of every slice bound to
  it that still exists; and it has been told of no subscriber that is not one of the slice's.
\<close>

definition net_ok :: "net \<Rightarrow> bool" where
  "net_ok t \<longleftrightarrow>
     (\<forall>n name a. nt_bound t n name = Some a \<longrightarrow> a < nt_next t) \<and>
     (\<forall>name a sh us. nt_slice t name = Some (a, sh, us) \<longrightarrow> a < nt_next t) \<and>
     (\<forall>n name. nt_bound t n name = None \<longrightarrow> ran_share (nt_ran t n) name = None \<and> ran_ues (nt_ran t n) name = {}) \<and>
     (\<forall>n name a sh us. nt_slice t name = Some (a, sh, us) \<longrightarrow> nt_bound t n name = Some a \<longrightarrow>
        ran_share (nt_ran t n) name = Some sh) \<and>
     (\<forall>n name. nt_slice t name = None \<longrightarrow> ran_ues (nt_ran t n) name = {}) \<and>
     (\<forall>n name a sh us. nt_slice t name = Some (a, sh, us) \<longrightarrow> ran_ues (nt_ran t n) name \<subseteq> us)"

lemma net_step_ok: "net_step t t' \<Longrightarrow> net_ok t \<Longrightarrow> net_ok t'"
proof (induction rule: net_step.induct)
  case (tick t)
  then show ?case by (auto simp: net_ok_def less_Suc_eq)
next
  case (create t name sh)
  then show ?case by (auto simp: net_ok_def less_Suc_eq)
next
  case (drop t name x)
  then show ?case by (auto simp: net_ok_def tell_bound_def)
next
  case (share t name a sh us sh')
  then show ?case by (auto simp: net_ok_def tell_bound_def) blast+
next
  case (join t name a sh us i)
  then show ?case by (auto simp: net_ok_def tell_bound_def) blast+
next
  case (leave t name a sh us i)
  then show ?case by (auto simp: net_ok_def tell_bound_def) blast+
next
  case (attach t name a sh us n)
  then show ?case by (auto simp: net_ok_def told_def) blast+
next
  case (detach t n name)
  then show ?case by (auto simp: net_ok_def told_def)
next
  case (forget ns t n)
  then show ?case by (auto simp: net_ok_def told_def)
qed

lemma net_steps_ok: "net_step\<^sup>*\<^sup>* t t' \<Longrightarrow> net_ok t \<Longrightarrow> net_ok t'"
  by (induction rule: rtranclp_induct) (auto intro: net_step_ok)

end
