(* ===== verification/Ran_Refinement.thy ===== *)
theory Ran_Refinement
  imports Ran_View
begin

text \<open>
  The application implements the network of \<^theory_text>\<open>Ran_View\<close>: over a transport that accepts every message,
  each northbound request and each received message makes a sequence of its changes, so its invariant
  holds of every reachable state.
\<close>

section \<open>The network of a state\<close>

definition bound_at :: "app \<Rightarrow> string \<Rightarrow> string \<Rightarrow> addr option" where
  "bound_at s n name =
     (case sm_get (db s NodeBResource) n of
        None \<Rightarrow> None
      | Some a \<Rightarrow> (case heap s a of Some (ObjNodeB nb) \<Rightarrow> sm_get (nb_slices nb) name | _ \<Rightarrow> None))"

definition slice_at :: "app \<Rightarrow> string \<Rightarrow> (addr \<times> int \<times> string set) option" where
  "slice_at s name =
     (case sm_get (db s SliceResource) name of
        None \<Rightarrow> None
      | Some a \<Rightarrow>
          (case heap s a of
             Some (ObjSlice sl) \<Rightarrow> Some (a, share (allocation_policy sl), fst ` set (s_ues sl))
           | _ \<Rightarrow> None))"

definition net_of :: "app \<Rightarrow> net" where
  "net_of s = \<lparr>nt_bound = bound_at s, nt_slice = slice_at s, nt_ran = ran_view s, nt_next = next_addr s\<rparr>"

lemma net_of_simps [simp]:
  "nt_bound (net_of s) = bound_at s" "nt_slice (net_of s) = slice_at s"
  "nt_ran (net_of s) = ran_view s" "nt_next (net_of s) = next_addr s"
  by (simp_all add: net_of_def)

lemma at_cong:
  "db s' = db s \<Longrightarrow> heap s' = heap s \<Longrightarrow> bound_at s' = bound_at s"
  "db s' = db s \<Longrightarrow> heap s' = heap s \<Longrightarrow> slice_at s' = slice_at s"
  by (intro ext, simp add: bound_at_def split: option.split) (intro ext, simp add: slice_at_def split: option.split)

lemma net_of_store:
  "same_store s s' \<Longrightarrow> net_of s' = (net_of s)\<lparr>nt_ran := ran_view s'\<rparr>"
  unfolding same_store_def net_of_def using at_cong [of s' s] by simp

lemma net_of_eqI: "same_store s s' \<Longrightarrow> controls s' = controls s \<Longrightarrow> net_of s' = net_of s"
  using net_of_store [of s s'] by (simp add: ran_view_def net_of_def)

section \<open>Requests sent\<close>

lemma sm_put_last: "(\<And>i. sm_has m i \<Longrightarrow> i < k) \<Longrightarrow> sm_put m k v = m @ [(k, v)]"
proof (induction m)
  case (Cons x m)
  obtain i w where x: "x = (i, w)" by fastforce
  have "i < k" using Cons.prems [of i] x by (simp add: sm_has_def)
  moreover have "sm_put m k v = m @ [(k, v)]"
    by (rule Cons.IH) (use Cons.prems x in \<open>auto simp: sm_has_def split: if_splits\<close>)
  ultimately show ?case using x by auto
qed simp

lemma ran_view_control:
  assumes "tables_wf s" "reliable E"
  shows "ran_view (app_control E c n s) = told c n (ran_view s)"
proof -
  let ?r = "ControlRequest (requestor_id s) (next_instance_id s) 1 c CONTROL_REQUEST_ACK"
  obtain buf where buf: "encode_pdu E (control_request_pdu E ?r) = Some buf"
    using assms(2) unfolding reliable_def encodes_def encode_pdu_def by blast
  have fresh: "\<not> sm_has (controls s) (next_instance_id s)"
    and last: "sm_put (controls s) (next_instance_id s) v = controls s @ [(next_instance_id s, v)]" for v
    using assms(1) by (auto simp: tables_wf_def intro: sm_put_last)
  have "controls (app_control E c n s) = controls s @ [(next_instance_id s, ?r\<lparr>cr_meid := n\<rparr>)]"
    using buf fresh last assms(2)
    by (simp add: app_control_def get_next_instance_id_def send_control_request_def send_message_def
        reliable_def Let_def)
  then show ?thesis by (simp add: ran_view_def ControlRequest_def)
qed

lemma net_of_control:
  assumes "tables_wf s" "reliable E"
  shows "net_of (app_control E c n s) = (net_of s)\<lparr>nt_ran := told c n (ran_view s)\<rparr>"
  by (simp add: net_of_store [OF app_control_store] ran_view_control [OF assms])

lemma fold_told:
  "distinct ns \<Longrightarrow> fold (told c) ns v = (\<lambda>n. if n \<in> set ns then ran_apply c (v n) else v n)"
  by (induction ns arbitrary: v) (auto simp: told_def fun_eq_iff)

lemma ran_view_fold:
  assumes "reliable E"
  shows "tables_wf s \<Longrightarrow> ran_view (fold (app_control E c) ns s) = fold (told c) ns (ran_view s)"
  by (induction ns arbitrary: s) (simp_all add: app_control_tables ran_view_control assms)

lemma bound_names_at: "wf_app s \<Longrightarrow> n \<in> set (bound_names s name) \<longleftrightarrow> bound_at s n name \<noteq> None"
  by (auto simp: bound_names_set bound_at_def is_slice_bound_def sm_has_iff split: option.splits obj.splits)

lemma net_of_push:
  assumes w: "wf_app s" and E: "reliable E" and p: "push_bound E name c (db s NodeBResource) s = Inr s'"
  shows "net_of s' = (net_of s)\<lparr>nt_ran := tell_bound c name (net_of s)\<rparr>"
proof -
  have s': "s' = fold (app_control E c) (bound_names s name) s"
    using p push_bound_names [OF w, of E name c] by simp
  have "tables_wf s" using w by (simp add: wf_app_def)
  from ran_view_fold [OF E this, of c "bound_names s name"] bound_names_distinct [OF w, of name]
  have "ran_view s' = tell_bound c name (net_of s)"
    by (simp add: s' fold_told tell_bound_def bound_names_at [OF w] fun_eq_iff)
  then show ?thesis by (simp add: net_of_store [OF push_bound_store [OF p]])
qed

section \<open>Changes of the store\<close>

lemma ran_view_set_obj [simp]: "ran_view (set_obj a ob s) = ran_view s"
  by (simp add: ran_view_def set_obj_def)

lemma bound_at_set_obj:
  assumes "heap s a = Some ob" "obj_type ob \<noteq> NodeBResource" "obj_type ob' \<noteq> NodeBResource"
  shows "bound_at (set_obj a ob' s) = bound_at s"
proof (intro ext)
  fix n name
  show "bound_at (set_obj a ob' s) n name = bound_at s n name"
    using assms by (cases ob; cases ob') (auto simp: bound_at_def split: option.split)
qed

lemma slice_at_set_obj:
  assumes "heap s a = Some ob" "obj_type ob \<noteq> SliceResource" "obj_type ob' \<noteq> SliceResource"
  shows "slice_at (set_obj a ob' s) = slice_at s"
proof
  fix name
  show "slice_at (set_obj a ob' s) name = slice_at s name"
    using assms by (cases ob; cases ob') (auto simp: slice_at_def split: option.split)
qed

lemma net_of_set_ue:
  "heap s a = Some (ObjUe u) \<Longrightarrow> net_of (set_obj a (ObjUe u') s) = net_of s"
  by (simp add: net_of_def bound_at_set_obj slice_at_set_obj)

lemma net_of_same_slice:
  assumes "heap s a = Some (ObjSlice sl)" "share (allocation_policy sl') = share (allocation_policy sl)"
    and "s_ues sl' = s_ues sl"
  shows "net_of (set_obj a (ObjSlice sl') s) = net_of s"
proof -
  have "slice_at (set_obj a (ObjSlice sl') s) name = slice_at s name" for name
    using assms by (auto simp: slice_at_def split: option.split)
  then have "slice_at (set_obj a (ObjSlice sl') s) = slice_at s" by (intro ext)
  then show ?thesis using assms(1) by (simp add: net_of_def bound_at_set_obj)
qed

lemma table_inj:
  "wf_app s \<Longrightarrow> sm_get (db s rt) k = Some a \<Longrightarrow> sm_get (db s rt) k' = Some a \<Longrightarrow> k' = k"
  unfolding wf_app_def using store_ok_inj by blast

lemma net_of_set_slice:
  assumes "wf_app s" "sm_get (db s SliceResource) name = Some a" "heap s a = Some (ObjSlice sl)"
  shows "net_of (set_obj a (ObjSlice sl') s) =
    (net_of s)\<lparr>nt_slice := (slice_at s)(name \<mapsto> (a, share (allocation_policy sl'), fst ` set (s_ues sl')))\<rparr>"
proof -
  have "slice_at (set_obj a (ObjSlice sl') s) n =
      ((slice_at s)(name \<mapsto> (a, share (allocation_policy sl'), fst ` set (s_ues sl')))) n" for n
  proof (cases "n = name")
    case False
    then have "sm_get (db s SliceResource) n \<noteq> Some a" using table_inj [OF assms(1,2)] by blast
    then show ?thesis using False by (auto simp: slice_at_def split: option.split)
  qed (use assms(2) in \<open>simp add: slice_at_def\<close>)
  then have "slice_at (set_obj a (ObjSlice sl') s) =
      (slice_at s)(name \<mapsto> (a, share (allocation_policy sl'), fst ` set (s_ues sl')))" by (intro ext)
  then show ?thesis using assms(3) by (simp add: net_of_def bound_at_set_obj)
qed

lemma net_of_set_nodeb:
  assumes "wf_app s" "sm_get (db s NodeBResource) n = Some a" "heap s a = Some (ObjNodeB nb)"
  shows "net_of (set_obj a (ObjNodeB nb') s) =
    (net_of s)\<lparr>nt_bound := (bound_at s)(n := sm_get (nb_slices nb'))\<rparr>"
proof -
  have "bound_at (set_obj a (ObjNodeB nb') s) m name = ((bound_at s)(n := sm_get (nb_slices nb'))) m name" for m name
  proof (cases "m = n")
    case False
    then have "sm_get (db s NodeBResource) m \<noteq> Some a" using table_inj [OF assms(1,2)] by blast
    then show ?thesis using False by (auto simp: bound_at_def split: option.split)
  qed (use assms(2) in \<open>simp add: bound_at_def\<close>)
  then have "bound_at (set_obj a (ObjNodeB nb') s) = (bound_at s)(n := sm_get (nb_slices nb'))" by (intro ext)
  then show ?thesis using assms(3) by (simp add: net_of_def slice_at_set_obj)
qed

text \<open>Reading an entry, and the changes of its map as changes of a function.\<close>

lemma bound_at_entry:
  "sm_get (db s NodeBResource) n = Some a \<Longrightarrow> heap s a = Some (ObjNodeB nb) \<Longrightarrow> bound_at s n = sm_get (nb_slices nb)"
  by (intro ext) (simp add: bound_at_def)

lemma slice_at_entry:
  "sm_get (db s SliceResource) name = Some a \<Longrightarrow> heap s a = Some (ObjSlice sl) \<Longrightarrow>
     slice_at s name = Some (a, share (allocation_policy sl), fst ` set (s_ues sl))"
  by (simp add: slice_at_def)

lemma sm_get_upd: "sm_get (sm_put m k v) = (sm_get m)(k \<mapsto> v)"
  by (intro ext) simp

lemma sm_get_del: "sm_wf m \<Longrightarrow> sm_get (sm_erase m k) = (sm_get m)(k := None)"
  by (intro ext) simp

lemma sm_get_dom: "dom (sm_get m) = fst ` set m"
  using sm_has_keys [of m] by (auto simp: sm_has_iff dom_def)

lemma sm_erase_keys: "sm_wf m \<Longrightarrow> fst ` set (sm_erase m k) = fst ` set m - {k}"
  using sm_has_erase [of m k] by (auto simp: sm_has_keys)

lemma set_obj_tables [simp]: "tables_wf (set_obj a ob s) = tables_wf s"
  by (simp add: tables_wf_def set_obj_def)

section \<open>Bindings\<close>

lemma bind_slice_nodeb_net:
  assumes w: "wf_app s" and E: "reliable E"
    and r: "bind_slice_nodeb E slice_name nodeb_name ae s = Inr (b, ae', s')"
  shows "net_step\<^sup>*\<^sup>* (net_of s) (net_of s')"
proof (cases "b")
  case False
  with bind_slice_nodeb_effect [OF w, of E slice_name nodeb_name ae] r show ?thesis by auto
next
  case True
  with r obtain sa na where sa: "sm_get (db s SliceResource) slice_name = Some sa"
    and na: "sm_get (db s NodeBResource) nodeb_name = Some na"
    by (auto simp: bind_slice_nodeb_def split: option.splits)
  from wf_slice_entry [OF w sa] obtain sl where sl: "heap s sa = Some (ObjSlice sl)" "s_name sl = slice_name" .
  from wf_nodeb_entry [OF w na] obtain nb where nb: "heap s na = Some (ObjNodeB nb)" "nb_name nb = nodeb_name" .
  define s1 where "s1 = set_obj na (ObjNodeB (nb\<lparr>nb_slices := sm_put (nb_slices nb) slice_name sa\<rparr>)) s"
  have g: "get_slice s sa = Inr sl" "get_nodeb s na = Inr nb" using sl nb by (simp_all add: get_slice_heap get_nodeb_heap)
  have free: "\<not> sm_has (nb_slices nb) slice_name"
    and s': "s' = app_control E (SliceConfigRequest [(slice_name, share (allocation_policy sl))]) nodeb_name s1"
    using r True sa na g sl nb
    by (auto simp: bind_slice_nodeb_def nodeb_bind_slice_def s1_def split: if_splits)
  have "tables_wf s1" using w by (simp add: s1_def wf_app_def)
  from net_of_control [OF this E]
  have "net_of s' = (net_of s)\<lparr>nt_bound := (bound_at s)(nodeb_name := (bound_at s nodeb_name)(slice_name \<mapsto> sa)),
      nt_ran := told (SliceConfigRequest [(slice_name, share (allocation_policy sl))]) nodeb_name (ran_view s)\<rparr>"
    using net_of_set_nodeb [OF w na nb(1)] bound_at_entry [OF na nb(1)]
    by (simp add: s' s1_def sm_get_upd)
  moreover have "net_step (net_of s) \<dots>"
    using net_step.attach [of "net_of s" slice_name sa _ _ nodeb_name] slice_at_entry [OF sa sl(1)] free
      bound_at_entry [OF na nb(1)] by (simp add: sm_has_def sm_get_def)
  ultimately show ?thesis by simp
qed

lemma unbind_slice_nodeb_net:
  assumes w: "wf_app s" and E: "reliable E"
    and r: "unbind_slice_nodeb E slice_name nodeb_name ae s = Inr (b, ae', s')"
  shows "net_step\<^sup>*\<^sup>* (net_of s) (net_of s')"
proof (cases "b")
  case False
  with unbind_slice_nodeb_effect [OF w, of E slice_name nodeb_name ae] r show ?thesis by auto
next
  case True
  with r obtain na where sl: "sm_has (db s SliceResource) slice_name"
    and na: "sm_get (db s NodeBResource) nodeb_name = Some na"
    by (auto simp: unbind_slice_nodeb_def split: option.splits if_splits)
  from wf_nodeb_entry [OF w na] obtain nb where
    nb: "heap s na = Some (ObjNodeB nb)" "nb_name nb = nodeb_name" "sm_wf (nb_slices nb)" .
  define s1 where "s1 = set_obj na (ObjNodeB (nb\<lparr>nb_slices := sm_erase (nb_slices nb) slice_name\<rparr>)) s"
  have g: "get_nodeb s na = Inr nb" using nb by (simp add: get_nodeb_heap)
  have bound: "sm_has (nb_slices nb) slice_name"
    and s': "s' = app_control E (SliceDeleteRequest [slice_name]) nodeb_name s1"
    using r True sl na g nb
    by (auto simp: unbind_slice_nodeb_def nodeb_unbind_slice_def s1_def split: if_splits)
  have "tables_wf s1" using w by (simp add: s1_def wf_app_def)
  from net_of_control [OF this E]
  have "net_of s' = (net_of s)\<lparr>nt_bound := (bound_at s)(nodeb_name := (bound_at s nodeb_name)(slice_name := None)),
      nt_ran := told (SliceDeleteRequest [slice_name]) nodeb_name (ran_view s)\<rparr>"
    using net_of_set_nodeb [OF w na nb(1)] bound_at_entry [OF na nb(1)]
    by (simp add: s' s1_def sm_get_del [OF nb(3)])
  moreover have "net_step (net_of s) \<dots>"
    using net_step.detach [of "net_of s" nodeb_name slice_name] bound bound_at_entry [OF na nb(1)]
    by (simp add: sm_has_def sm_get_def)
  ultimately show ?thesis by simp
qed

text \<open>A subscriber joins or leaves a slice: the change of the slice and the request pushed for it.\<close>

lemma net_of_push_slice:
  assumes w: "wf_app s1" and E: "reliable E" and p: "push_bound E name c (db s1 NodeBResource) s1 = Inr s'"
    and s1: "net_of s1 = (net_of s)\<lparr>nt_slice := f\<rparr>"
  shows "net_of s' = (net_of s)\<lparr>nt_slice := f, nt_ran := tell_bound c name (net_of s)\<rparr>"
  using net_of_push [OF w E p] s1 by (simp add: tell_bound_def cong: if_cong)

lemma bind_ue_slice_net:
  assumes w: "wf_app s" and E: "reliable E" and ne: "slice_name \<noteq> []"
    and r: "bind_ue_slice E i slice_name ae s = Inr (b, ae', s')"
  shows "net_step\<^sup>*\<^sup>* (net_of s) (net_of s')"
proof (cases "b")
  case False
  with bind_ue_slice_effect [OF w ne, of E i ae] r show ?thesis by auto
next
  case True
  with r obtain sa ua where sa: "sm_get (db s SliceResource) slice_name = Some sa"
    and ua: "sm_get (db s UeResource) i = Some ua"
    by (auto simp: bind_ue_slice_def split: option.splits)
  from wf_slice_entry [OF w sa] obtain sl where sl: "heap s sa = Some (ObjSlice sl)" "s_name sl = slice_name" .
  from wf_ue_entry [OF w ua] obtain u where u: "heap s ua = Some (ObjUe u)" "imsi u = i" .
  have g: "get_slice s sa = Inr sl" "get_ue s ua = Inr u" using sl u by (simp_all add: get_slice_heap get_ue_heap)
  define t where "t = set_obj sa (ObjSlice (sl\<lparr>s_ues := sm_put (s_ues sl) i ua\<rparr>)) s"
  define s1 where "s1 = set_obj ua (ObjUe (snd (ue_bind_slice u slice_name))) t"
  have free: "\<not> is_bound u" and push:
    "push_bound E slice_name (SliceUeBindRequest slice_name [i]) (db s1 NodeBResource) s1 = Inr s'"
    using r True sa ua g sl u
    by (auto simp: bind_ue_slice_def slice_bind_ue_def s1_def t_def split: if_splits)
  have w1: "wf_app s1" unfolding s1_def t_def using wf_bind_ue [OF w sa ne ua u(1) free sl(1)] u(2) by simp
  have "heap t ua = Some (ObjUe u)" using sl u by (auto simp: t_def)
  from net_of_set_ue [OF this] net_of_set_slice [OF w sa sl(1)]
  have "net_of s1 = (net_of s)\<lparr>nt_slice := (slice_at s)(slice_name \<mapsto>
      (sa, share (allocation_policy sl), insert i (fst ` set (s_ues sl))))\<rparr>"
    by (simp add: s1_def t_def)
  from net_of_push_slice [OF w1 E push this]
  have "net_step (net_of s) (net_of s')"
    using net_step.join [of "net_of s" slice_name] slice_at_entry [OF sa sl(1)] by simp
  then show ?thesis by blast
qed

lemma unbind_slot_net:
  assumes w: "wf_app s" and E: "reliable E" and sa: "sm_get (db s SliceResource) name = Some sa"
    and sl: "heap s sa = Some (ObjSlice sl)"
    and push: "push_bound E name (SliceUeUnbindRequest name [i]) (db s NodeBResource)
      (set_obj sa (ObjSlice (sl\<lparr>s_ues := sm_erase (s_ues sl) i\<rparr>)) s) = Inr s'"
  shows "net_step (net_of s) (net_of s')"
proof -
  let ?s1 = "set_obj sa (ObjSlice (sl\<lparr>s_ues := sm_erase (s_ues sl) i\<rparr>)) s"
  from wf_slice_entry [OF w sa] sl have ok: "slice_ok (db s) (heap s) sl" by auto
  then have wfu: "sm_wf (s_ues sl)" by (simp add: slice_ok_def)
  have w1: "wf_app ?s1" by (rule wf_unbind_slot [OF w sl ok])
  have "net_of ?s1 = (net_of s)\<lparr>nt_slice := (slice_at s)(name \<mapsto>
      (sa, share (allocation_policy sl), fst ` set (s_ues sl) - {i}))\<rparr>"
    using net_of_set_slice [OF w sa sl] by (simp add: sm_erase_keys [OF wfu])
  from net_of_push_slice [OF w1 E _ this] push
  show ?thesis using net_step.leave [of "net_of s" name] slice_at_entry [OF sa sl] by simp
qed

lemma unbind_ue_slice_net:
  assumes w: "wf_app s" and E: "reliable E"
    and r: "unbind_ue_slice E i slice_name ae s = Inr (b, ae', s')"
  shows "net_step\<^sup>*\<^sup>* (net_of s) (net_of s')"
proof (cases "b")
  case False
  with unbind_ue_slice_effect [OF w, of E i slice_name ae] r show ?thesis by auto
next
  case True
  with r obtain sa where sa: "sm_get (db s SliceResource) slice_name = Some sa"
    and ue: "sm_has (db s UeResource) i"
    by (auto simp: unbind_ue_slice_def split: option.splits if_splits)
  from wf_slice_entry [OF w sa] obtain sl where sl: "heap s sa = Some (ObjSlice sl)" "s_name sl = slice_name" .
  have g: "get_slice s sa = Inr sl" using sl by (simp add: get_slice_heap)
  have "push_bound E slice_name (SliceUeUnbindRequest slice_name [i]) (db s NodeBResource)
      (set_obj sa (ObjSlice (sl\<lparr>s_ues := sm_erase (s_ues sl) i\<rparr>)) s) = Inr s'"
    using r True sa ue g sl
    by (auto simp: unbind_ue_slice_def slice_unbind_ue_def split: if_splits)
  from unbind_slot_net [OF w E sa sl(1) this] show ?thesis by blast
qed

section \<open>Deletions\<close>

lemma bound_at_free:
  assumes "heap s a = Some ob" "obj_type ob \<noteq> NodeBResource" "d NodeBResource = db s NodeBResource"
  shows "bound_at (s\<lparr>heap := (heap s)(a := None), db := d\<rparr>) = bound_at s"
proof (intro ext)
  fix n name
  show "bound_at (s\<lparr>heap := (heap s)(a := None), db := d\<rparr>) n name = bound_at s n name"
    using assms by (cases ob) (auto simp: bound_at_def split: option.split)
qed

lemma slice_at_free:
  assumes "heap s a = Some ob" "obj_type ob \<noteq> SliceResource" "d SliceResource = db s SliceResource"
  shows "slice_at (s\<lparr>heap := (heap s)(a := None), db := d\<rparr>) = slice_at s"
proof (intro ext)
  fix name
  show "slice_at (s\<lparr>heap := (heap s)(a := None), db := d\<rparr>) name = slice_at s name"
    using assms by (cases ob) (auto simp: slice_at_def split: option.split)
qed

lemma net_of_delete_ue:
  assumes "heap s a = Some (ObjUe u)" "delete_entry UeResource k a s = Inr s'"
  shows "net_of s' = net_of s"
  using assms
  by (auto simp: delete_entry_def net_of_def bound_at_free slice_at_free ran_view_def)

lemma net_of_delete_slice:
  assumes w: "wf_app s" and k: "sm_get (db s SliceResource) k = Some a" and a: "heap s a = Some (ObjSlice sl)"
    and d: "delete_entry SliceResource k a s = Inr s'"
  shows "net_of s' = (net_of s)\<lparr>nt_slice := (slice_at s)(k := None)\<rparr>"
proof -
  have s': "s' = s\<lparr>heap := (heap s)(a := None), db := (db s)(SliceResource := sm_erase (db s SliceResource) k)\<rparr>"
    using d by (auto simp: delete_entry_def)
  have wf: "sm_wf (db s SliceResource)" using w by (rule wf_slice_table)
  have "slice_at s' n = ((slice_at s)(k := None)) n" for n
  proof (cases "n = k")
    case False
    then have "sm_get (db s SliceResource) n \<noteq> Some a" using table_inj [OF w k] by blast
    then show ?thesis using False wf by (auto simp: s' slice_at_def split: option.split)
  qed (use wf in \<open>simp add: s' slice_at_def\<close>)
  then have "slice_at s' = (slice_at s)(k := None)" by (intro ext)
  moreover have "bound_at s' = bound_at s" unfolding s' by (rule bound_at_free [OF a]) simp_all
  ultimately show ?thesis by (simp add: net_of_def) (simp add: s' ran_view_def)
qed

lemma net_of_delete_nodeb:
  assumes w: "wf_app s" and k: "sm_get (db s NodeBResource) k = Some a" and a: "heap s a = Some (ObjNodeB nb)"
    and d: "delete_entry NodeBResource k a s = Inr s'"
  shows "net_of s' = (net_of s)\<lparr>nt_bound := (bound_at s)(k := Map.empty)\<rparr>"
proof -
  have s': "s' = s\<lparr>heap := (heap s)(a := None), db := (db s)(NodeBResource := sm_erase (db s NodeBResource) k)\<rparr>"
    using d by (auto simp: delete_entry_def)
  have wf: "sm_wf (db s NodeBResource)" using w by (simp add: wf_app_def store_ok_def)
  have "bound_at s' n name = ((bound_at s)(k := Map.empty)) n name" for n name
  proof (cases "n = k")
    case False
    then have "sm_get (db s NodeBResource) n \<noteq> Some a" using table_inj [OF w k] by blast
    then show ?thesis using False wf by (auto simp: s' bound_at_def split: option.split)
  qed (use wf in \<open>simp add: s' bound_at_def\<close>)
  then have "bound_at s' = (bound_at s)(k := Map.empty)" by (intro ext)
  moreover have "slice_at s' = slice_at s" unfolding s' by (rule slice_at_free [OF a]) simp_all
  ultimately show ?thesis by (simp add: net_of_def) (simp add: s' ran_view_def)
qed

lemma unbind_all_net: "unbind_all l s = Inr s' \<Longrightarrow> net_of s' = net_of s"
proof (induction l arbitrary: s)
  case (Cons x l)
  obtain i p where x: "x = (i, p)" by fastforce
  with Cons.prems obtain u where u: "get_ue s p = Inr u"
    "unbind_all l (set_obj p (ObjUe (snd (ue_unbind_slice u))) s) = Inr s'" by auto
  from Cons.IH [OF u(2)] net_of_set_ue u(1) show ?case by (simp add: get_ue_heap)
qed simp

lemma del_ue_net:
  assumes w: "wf_app s" and E: "reliable E" and a: "sm_get (db s UeResource) i = Some a"
    and p: "del_ue_part E a ae s = Inr (Inr s1)" and d: "delete_entry UeResource i a s1 = Inr s'"
  shows "net_step\<^sup>*\<^sup>* (net_of s) (net_of s')"
proof -
  from wf_ue_entry [OF w a] obtain u where u: "heap s a = Some (ObjUe u)" .
  have g: "get_ue s a = Inr u" using u by (simp add: get_ue_heap)
  show ?thesis
  proof (cases "is_bound u \<and> sm_has (db s SliceResource) (bound_slice u)")
    case False
    then have "s1 = s" using p g by (auto simp: del_ue_part_def)
    then show ?thesis using net_of_delete_ue [OF u, of i s'] d by simp
  next
    case True
    then obtain sa where sa: "sm_get (db s SliceResource) (bound_slice u) = Some sa" by (auto simp: sm_has_iff)
    from wf_slice_entry [OF w sa] obtain sl where sl: "heap s sa = Some (ObjSlice sl)" .
    have gs: "get_slice s sa = Inr sl" using sl by (simp add: get_slice_heap)
    let ?s0 = "set_obj sa (ObjSlice (sl\<lparr>s_ues := sm_erase (s_ues sl) (imsi u)\<rparr>)) s"
    have push: "push_bound E (bound_slice u) (SliceUeUnbindRequest (bound_slice u) [imsi u])
        (db s NodeBResource) ?s0 = Inr s1"
      using p g gs True sa by (auto simp: del_ue_part_def slice_unbind_ue_def split: if_splits)
    have "heap s1 a = Some (ObjUe u)" using push_bound_store [OF push] u sl by (auto simp: same_store_def)
    from net_of_delete_ue [OF this d] unbind_slot_net [OF w E sa sl push] show ?thesis by simp
  qed
qed

lemma del_slice_net:
  assumes w: "wf_app s" and E: "reliable E" and a: "sm_get (db s SliceResource) k = Some a"
    and p: "del_slice_part E k a s = Inr s2" and d: "delete_entry SliceResource k a s2 = Inr s'"
  shows "net_step\<^sup>*\<^sup>* (net_of s) (net_of s')"
proof -
  from wf_push [OF w, of E k "SliceDeleteRequest [k]"] obtain s1 where
    s1: "push_bound E k (SliceDeleteRequest [k]) (db s NodeBResource) s = Inr s1" "same_store s s1" "wf_app s1" .
  have a1: "sm_get (db s1 SliceResource) k = Some a" using a s1(2) by (simp add: same_store_def)
  from unbind_all_ues_effect [OF s1(3) a1] p s1(1) obtain sl where
    s2: "unbind_all_ues a s1 = Inr s2" "wf_app s2" "db s2 = db s1"
    "heap s1 a = Some (ObjSlice sl)" "heap s2 a = Some (ObjSlice (sl\<lparr>s_ues := []\<rparr>))"
    by (auto simp: del_slice_part_def)
  from s2(1,4) obtain s3 sl3 where s3: "unbind_all (s_ues sl) s1 = Inr s3" "heap s3 a = Some (ObjSlice sl3)"
    "s2 = set_obj a (ObjSlice (sl3\<lparr>s_ues := []\<rparr>)) s3"
    by (auto simp: unbind_all_ues_def get_slice_heap [symmetric])
  have "\<And>n. n \<noteq> k \<Longrightarrow> slice_at s2 n = slice_at s3 n"
  proof -
    fix n assume n: "n \<noteq> k"
    have "sm_get (db s2 SliceResource) n \<noteq> Some a" using table_inj [OF s2(2), of SliceResource k a n] a1 s2(3) n by auto
    then show "slice_at s2 n = slice_at s3 n" by (auto simp: s3(3) slice_at_def split: option.split)
  qed
  then have "(slice_at s2)(k := None) = (slice_at s1)(k := None)"
    using unbind_all_net [OF s3(1)] by (intro ext) (simp add: net_of_def)
  moreover have "bound_at s2 = bound_at s1" "ran_view s2 = ran_view s1" "next_addr s2 = next_addr s1"
    using unbind_all_net [OF s3(1)] s3(2,3) by (simp_all add: net_of_def bound_at_set_obj)
  moreover have "net_of s' = (net_of s2)\<lparr>nt_slice := (slice_at s2)(k := None)\<rparr>"
    using net_of_delete_slice [OF s2(2) _ s2(5) d] a1 s2(3) by simp
  ultimately have "net_of s' = (net_of s1)\<lparr>nt_slice := (slice_at s1)(k := None)\<rparr>"
    by (simp add: net_of_def)
  also have "\<dots> = (net_of s)\<lparr>nt_slice := (slice_at s)(k := None), nt_ran := tell_bound (SliceDeleteRequest [k]) k (net_of s)\<rparr>"
    using net_of_push [OF w E s1(1)] s1(2) at_cong(2) [of s1 s] by (simp add: same_store_def)
  also from wf_slice_entry [OF w a] obtain sl0 where "heap s a = Some (ObjSlice sl0)" .
  from net_step.drop [of "net_of s" k] slice_at_entry [OF a this]
  have "net_step (net_of s) ((net_of s)\<lparr>nt_slice := (slice_at s)(k := None),
      nt_ran := tell_bound (SliceDeleteRequest [k]) k (net_of s)\<rparr>)" by simp
  finally show ?thesis by blast
qed

lemma del_nodeb_net:
  assumes w: "wf_app s" and E: "reliable E" and a: "sm_get (db s NodeBResource) k = Some a"
    and p: "del_nodeb_part E k a s = Inr s2" and d: "delete_entry NodeBResource k a s2 = Inr s'"
  shows "net_step\<^sup>*\<^sup>* (net_of s) (net_of s')"
proof -
  from wf_nodeb_entry [OF w a] obtain nb where
    nb: "heap s a = Some (ObjNodeB nb)" "nb_name nb = k" "sm_wf (nb_slices nb)" .
  let ?ns = "map fst (nb_slices nb)"
  define s1 where "s1 = (if nb_slices nb \<noteq> [] then app_control E (SliceDeleteRequest ?ns) k s else s)"
  have s2: "s2 = snd (delete_all_subscriptions E (send_message E) s1 k)"
    using p nb by (cases "nb_slices nb = []") (simp_all add: del_nodeb_part_def get_nodeb_def deref_def s1_def Let_def)
  have tw: "tables_wf s" using w by (simp add: wf_app_def)
  have t1: "tables_wf s1" using app_control_tables [OF tw] tw by (simp add: s1_def)
  have "net_of s1 = (net_of s)\<lparr>nt_ran := told (SliceDeleteRequest ?ns) k (ran_view s)\<rparr>"
    using net_of_control [OF tw E] by (cases "nb_slices nb = []") (simp_all add: s1_def told_def net_of_def)
  moreover have "net_of s2 = net_of s1"
    unfolding s2
    by (rule net_of_eqI [OF delete_all_store])
       (use app_agent.delete_all_kept [of s1 E E k] t1 in \<open>simp add: tables_wf_def Let_def\<close>)
  moreover have st: "same_store s s2"
    using same_store_trans [OF _ delete_all_store, of s s1] app_control_store by (simp add: s2 s1_def)
  have "wf_app s2" by (rule wf_same_store [OF w st]) (simp add: s2 app_agent.delete_all_tables_wf [OF t1])
  from net_of_delete_nodeb [OF this _ _ d] a nb(1) st
  have "net_of s' = (net_of s2)\<lparr>nt_bound := (bound_at s2)(k := Map.empty)\<rparr>"
    by (simp add: same_store_def)
  moreover have "bound_at s2 = bound_at s" by (rule at_cong) (use st in \<open>simp_all add: same_store_def\<close>)
  ultimately have "net_of s' = (net_of s)\<lparr>nt_bound := (bound_at s)(k := Map.empty),
      nt_ran := told (SliceDeleteRequest ?ns) k (ran_view s)\<rparr>" by simp
  moreover have "set ?ns = dom (bound_at s k)"
    using bound_at_entry [OF a nb(1)] by (simp add: sm_get_dom)
  ultimately show ?thesis using net_step.forget [of ?ns "net_of s" k] by auto
qed

lemma app_del_net:
  assumes w: "wf_app s" and E: "reliable E" and r: "app_del E rt rname ae s = Inr (b, ae', s')"
  shows "net_step\<^sup>*\<^sup>* (net_of s) (net_of s')"
proof (cases "b")
  case False
  with app_del_effect [OF w, of E rt rname ae] r show ?thesis by auto
next
  case True
  with r obtain a where a: "sm_get (db s rt) rname = Some a" by (auto simp: app_del_def split: option.splits)
  show ?thesis
  proof (cases rt)
    case UeResource
    from r a UeResource obtain x where x: "del_ue_part E a ae s = Inr x"
      and c: "(case x of Inl ae1 \<Rightarrow> Inr (False, ae1, s)
        | Inr s1 \<Rightarrow> bind_outcome (delete_entry rt rname a s1) (\<lambda>s2. Inr (True, ae, s2))) = Inr (b, ae', s')"
      by (auto simp: app_del_def)
    from x c True UeResource obtain s1 where "del_ue_part E a ae s = Inr (Inr s1)"
      "delete_entry UeResource rname a s1 = Inr s'" by (cases x) auto
    with del_ue_net [OF w E] a UeResource show ?thesis by blast
  next
    case SliceResource
    with r True a obtain s1 where "del_slice_part E rname a s = Inr s1" "delete_entry SliceResource rname a s1 = Inr s'"
      by (auto simp: app_del_def)
    with del_slice_net [OF w E] a SliceResource show ?thesis by blast
  next
    case NodeBResource
    with r True a obtain s1 where "del_nodeb_part E rname a s = Inr s1" "delete_entry NodeBResource rname a s1 = Inr s'"
      by (auto simp: app_del_def)
    with del_nodeb_net [OF w E] a NodeBResource show ?thesis by blast
  qed
qed

section \<open>Additions\<close>

lemma net_of_alloc:
  assumes w: "wf_app s"
  shows "net_of (snd (app_alloc ob s)) = (net_of s)\<lparr>nt_next := Suc (next_addr s)\<rparr>"
proof -
  let ?s1 = "snd (app_alloc ob s)"
  have fresh: "sm_get (db s rt) k \<noteq> Some (next_addr s)" for rt k by (rule wf_fresh_unused [OF w])
  have "bound_at ?s1 n name = bound_at s n name" "slice_at ?s1 name = slice_at s name" for n name
    using fresh by (auto simp: app_alloc_def bound_at_def slice_at_def split: option.split)
  then have "bound_at ?s1 = bound_at s" "slice_at ?s1 = slice_at s" by (intro ext, blast)+
  then show ?thesis by (simp add: net_of_def) (simp add: app_alloc_def ran_view_def)
qed

lemma net_of_free:
  assumes "\<And>rt k. sm_get (db s rt) k \<noteq> Some a"
  shows "net_of (app_free a s) = net_of s"
proof -
  have "bound_at (app_free a s) n name = bound_at s n name" "slice_at (app_free a s) name = slice_at s name" for n name
    using assms by (auto simp: app_free_def bound_at_def slice_at_def split: option.split)
  then have "bound_at (app_free a s) = bound_at s" "slice_at (app_free a s) = slice_at s" by (intro ext, blast)+
  then show ?thesis by (simp add: net_of_def) (simp add: app_free_def ran_view_def)
qed

text \<open>A new entry of a table: only a slice is new to the network.\<close>

fun entered :: "addr \<Rightarrow> obj \<Rightarrow> net \<Rightarrow> net" where
  "entered a (ObjSlice sl) t = t\<lparr>nt_slice := (nt_slice t)(s_name sl \<mapsto> (a, share (allocation_policy sl), {}))\<rparr>"
| "entered a _ t = t"

lemma net_of_enter:
  assumes "heap s a = Some ob" "obj_type ob = rt" "fresh_obj ob" "sm_get (db s rt) (obj_name ob) = None"
  shows "net_of (s\<lparr>db := (db s)(rt := sm_put (db s rt) (obj_name ob) a)\<rparr>) = entered a ob (net_of s)"
proof -
  let ?s1 = "s\<lparr>db := (db s)(rt := sm_put (db s rt) (obj_name ob) a)\<rparr>"
  have "bound_at ?s1 n name = bound_at s n name" for n name
    using assms by (cases ob) (auto simp: bound_at_def split: option.split)
  then have b: "bound_at ?s1 = bound_at s" by (intro ext)
  have "slice_at ?s1 name = nt_slice (entered a ob (net_of s)) name" for name
    using assms by (cases ob) (auto simp: slice_at_def split: option.split)
  then have "slice_at ?s1 = nt_slice (entered a ob (net_of s))" by (intro ext)
  with b show ?thesis by (cases ob) (simp_all add: net_of_def ran_view_def)
qed

lemma net_of_greet:
  assumes t: "tables_wf s" and E: "reliable E"
  shows "net_of (greet_nodeb E n s) = net_of s"
proof -
  let ?s1 = "app_control E (SliceStatusRequest []) n s"
  have "controls (greet_nodeb E n s) = controls ?s1"
  proof -
    obtain iid s2 where f: "get_next_instance_id ?s1 = (iid, s2)" by fastforce
    define req where "req = (SubscriptionRequest (requestor_id s2) iid 0 (Some kpm_trigger_default)
        [\<lparr>ac_id = 1, ac_type = ACTION_REPORT, ac_definition = None, ac_subsequent_action = -1\<rparr>])\<lparr>sr_meid := n\<rparr>"
    obtain b s3 where c: "send_subscription_request E (send_message E) s2 req n = (b, s3)" by fastforce
    have "tables_wf s2" using fresh_id [OF app_control_tables [OF t] f] by simp
    from app_agent.subscription_effect [OF this c] have "controls s3 = controls s2" by simp
    moreover have "controls s2 = controls ?s1" using f by (auto simp: get_next_instance_id_def)
    moreover have "greet_nodeb E n s = s3" using f c by (simp add: greet_nodeb_def req_def Let_def)
    ultimately show ?thesis by simp
  qed
  then have "ran_view (greet_nodeb E n s) = ran_view s"
    using ran_view_control [OF t E] by (simp add: ran_view_def told_def)
  then show ?thesis using net_of_store [OF greet_nodeb_store [of s E n]] by (simp add: net_of_def)
qed

lemma post_obj_net:
  assumes w: "wf_app s" and E: "reliable E"
    and c: "\<And>ob ae. created = Inr (Some ob, ae) \<Longrightarrow> obj_type ob = rt \<and> fresh_obj ob"
    and r: "post_obj E rt created s = Inr (resp, s')"
  shows "net_step\<^sup>*\<^sup>* (net_of s) (net_of s')"
proof -
  from r obtain res ae where cr: "created = Inr (res, ae)" by (auto simp: post_obj_def)
  show ?thesis
  proof (cases res)
    case None
    with r cr show ?thesis by (auto simp: post_obj_def)
  next
    case (Some ob)
    have ob: "obj_type ob = rt" "fresh_obj ob" using c cr Some by auto
    define a where "a = next_addr s"
    define s1 where "s1 = snd (app_alloc ob s)"
    have al: "app_alloc ob s = (a, s1)" by (simp add: a_def s1_def app_alloc_def)
    have h1: "heap s1 a = Some ob" and d1: "db s1 = db s" by (simp_all add: s1_def a_def app_alloc_def)
    have n1: "net_of s1 = (net_of s)\<lparr>nt_next := Suc a\<rparr>" by (simp add: s1_def a_def net_of_alloc [OF w])
    have tick: "net_step (net_of s) (net_of s1)" using net_step.tick [of "net_of s"] by (simp add: n1 a_def)
    show ?thesis
    proof (cases "sm_has (db s rt) (obj_name ob)")
      case True
      then have "s' = post_refused rt a s1"
        using r cr Some al h1 d1 by (auto simp: post_obj_def app_add_def deref_def Let_def)
      moreover have "net_of (post_refused rt a s1) = net_of s1"
        using net_of_free [of s1 a] wf_fresh_unused [OF w] d1 by (simp add: post_refused_def a_def)
      ultimately show ?thesis using tick by simp
    next
      case False
      then have new: "sm_get (db s1 rt) (obj_name ob) = None" using d1 by (auto simp: sm_has_iff)
      define s2 where "s2 = s1\<lparr>db := (db s1)(rt := sm_put (db s1 rt) (obj_name ob) a)\<rparr>"
      have "s' = (if rt = NodeBResource then greet_nodeb E (obj_name ob) s2 else s2)"
        using r cr Some al h1 d1 False by (auto simp: post_obj_def app_add_def deref_def s2_def Let_def)
      moreover have "tables_wf s2"
        using wf_alloc [OF w, of ob] by (simp add: s2_def s1_def wf_app_def tables_wf_def)
      ultimately have "net_of s' = net_of s2" using net_of_greet [OF _ E] by simp
      also have "\<dots> = entered a ob (net_of s1)"
        unfolding s2_def by (rule net_of_enter [OF h1 ob new])
      finally have s': "net_of s' = entered a ob (net_of s1)" .
      show ?thesis
      proof (cases ob)
        case (ObjSlice sl)
        then have "slice_at s (s_name sl) = None" using False ob(1) by (auto simp: slice_at_def sm_has_iff)
        moreover have "net_of s' = (net_of s)\<lparr>nt_slice :=
            (nt_slice (net_of s))(s_name sl \<mapsto> (nt_next (net_of s), share (allocation_policy sl), {})),
            nt_next := Suc (nt_next (net_of s))\<rparr>"
          by (rule net.equality) (simp_all only: s' n1 ObjSlice, simp_all add: a_def)
        ultimately have "net_step (net_of s) (net_of s')"
          using net_step.create [of "net_of s" "s_name sl" "share (allocation_policy sl)"] by simp
        then show ?thesis by blast
      qed (use s' tick in simp_all)
    qed
  qed
qed

section \<open>Updates\<close>

lemma slice_update_ues: "slice_update d ae sl = Inr (b, ae', sl') \<Longrightarrow> s_ues sl' = s_ues sl"
  by (auto simp: slice_update_def split: if_splits prod.splits bool.splits option.splits)

text \<open>A new share of a slice, and the configuration pushed for it.\<close>

lemma share_net:
  assumes w: "wf_app s" and E: "reliable E" and a: "sm_get (db s SliceResource) name = Some a"
    and sl: "heap s a = Some (ObjSlice sl)" and ues: "s_ues sl' = s_ues sl"
    and w1: "wf_app (set_obj a (ObjSlice sl') s)"
    and p: "push_bound E name (SliceConfigRequest [(name, share (allocation_policy sl'))]) (db s NodeBResource)
      (set_obj a (ObjSlice sl') s) = Inr s'"
  shows "net_step (net_of s) (net_of s')"
proof -
  have "net_of (set_obj a (ObjSlice sl') s) = (net_of s)\<lparr>nt_slice := (slice_at s)(name \<mapsto>
      (a, share (allocation_policy sl'), fst ` set (s_ues sl)))\<rparr>"
    using net_of_set_slice [OF w a sl, of sl'] ues by simp
  from net_of_push_slice [OF w1 E _ this] p
  show ?thesis using net_step.share [of "net_of s" name] slice_at_entry [OF a sl] by simp
qed

lemma app_update_net:
  assumes w: "wf_app s" and E: "reliable E" and r: "app_update E rt rname d ae s = Inr (b, ae', s')"
  shows "net_step\<^sup>*\<^sup>* (net_of s) (net_of s')"
proof (cases "b")
  case False
  with app_update_effect [OF w, of rt E rname d ae] r show ?thesis by auto
next
  case True
  with r obtain a where a: "sm_get (db s rt) rname = Some a" by (auto simp: app_update_def split: option.splits)
  have ok: "store_ok (db s) (heap s) (next_addr s)" using w by (simp add: wf_app_def)
  from store_ok_entry [OF ok a] obtain ob where
    ob: "heap s a = Some ob" "obj_type ob = rt" "obj_name ob = rname" "obj_ok (db s) (heap s) ob" .
  have d: "deref s a = Inr ob" using ob(1) by (simp add: deref_def)
  from r a d obtain ae1 ob1 where upd: "obj_update d ae ob = Inr (True, ae1, ob1)"
    and s': "if rt = SliceResource
      then bind_outcome (get_slice (set_obj a ob1 s) a) (\<lambda>sl. push_bound E rname
        (SliceConfigRequest [(s_name sl, share (allocation_policy sl))]) (db s NodeBResource) (set_obj a ob1 s)) = Inr s'
      else s' = set_obj a ob1 s"
    using True by (fastforce simp: app_update_def Let_def split: if_splits)
  note eff = obj_update_effect [OF upd ob(4)]
  show ?thesis
  proof (cases ob)
    case (ObjSlice sl)
    with upd obtain sl' where sl': "slice_update d ae sl = Inr (True, ae1, sl')" "ob1 = ObjSlice sl'" by auto
    have "obj_ok (db s) ((heap s)(a := Some ob1)) ob1"
      by (rule obj_ok_heap [of "db s" "heap s" ob1 a ob ob1]) (use eff ob(1) in auto)
    then have w1: "wf_app (set_obj a (ObjSlice sl') s)"
      using sl'(2) eff by (intro wf_set_obj [OF w ob(1)]) (use ObjSlice in auto)
    have rt: "rt = SliceResource" using ob(2) ObjSlice by simp
    have n: "s_name sl' = rname" using eff ob(3) sl'(2) by simp
    have "get_slice (set_obj a ob1 s) a = Inr sl'" by (simp add: get_slice_heap sl'(2))
    with s' rt n sl'(2) have "push_bound E rname (SliceConfigRequest [(rname, share (allocation_policy sl'))])
        (db s NodeBResource) (set_obj a (ObjSlice sl') s) = Inr s'" by simp
    from share_net [OF w E _ _ slice_update_ues [OF sl'(1)] w1 this] a ob(1) rt ObjSlice
    show ?thesis by auto
  next
    case (ObjUe u)
    with upd s' ob(1,2) net_of_set_ue [of s a u] show ?thesis by auto
  next
    case (ObjNodeB nb)
    with upd have "ob1 = ObjNodeB nb" by (auto dest: nodeb_update_id)
    with s' ob(1,2) ObjNodeB have "s' = s" by (auto simp: set_obj_def intro!: app.equality)
    then show ?thesis by simp
  qed
qed

section \<open>Reports\<close>

text \<open>Feeding metrics and starting or ending throttling change no share.\<close>

lemma net_of_set_policy:
  "get_slice s a = Inr sl \<Longrightarrow> share p = share (allocation_policy sl) \<Longrightarrow> net_of (set_policy a sl p s) = net_of s"
  unfolding set_policy_def by (rule net_of_same_slice) (simp_all add: get_slice_heap)

lemma feed_loop_net: "feed_loop now l acc s = Inr (acc', s') \<Longrightarrow> net_of s' = net_of s"
proof (induction l arbitrary: acc s)
  case (Cons x l)
  obtain name m tot num where x: "x = (name, m)" "acc = (tot, num)" by (metis surj_pair)
  show ?case
  proof (cases "sm_get (db s SliceResource) name")
    case (Some a)
    from Cons.prems x Some obtain sl where g: "get_slice s a = Inr sl" by auto
    with Cons.prems x Some obtain acc1 where sl: "get_slice s a = Inr sl"
      "feed_loop now l acc1 (set_policy a sl ((allocation_policy sl)\<lparr>metrics :=
         mi_add now m (metrics (allocation_policy sl))\<rparr>) s) = Inr (acc', s')"
      by (simp add: Let_def)
    from Cons.IH [OF sl(2)] net_of_set_policy [OF sl(1)] show ?thesis by simp
  qed (use Cons x in auto)
qed (auto elim: feed_loop.elims)

lemma release_loop_net: "release_loop now l fs s = Inr (fs', s') \<Longrightarrow> net_of s' = net_of s"
proof (induction l arbitrary: fs s)
  case (Cons x l)
  obtain name a where x: "x = (name, a)" by fastforce
  from Cons.prems x obtain sl where sl: "get_slice s a = Inr sl" by auto
  define p where "p = allocation_policy sl"
  show ?case
  proof (cases "\<not> throttle p \<or> \<not> is_throttling p")
    case False
    define p2 where "p2 = snd (maybeEndThrottling now (p\<lparr>metrics := mi_flush now (metrics p)\<rparr>))"
    from Cons.prems x sl False obtain fs1 where "release_loop now l fs1 (set_policy a sl p2 s) = Inr (fs', s')"
      by (auto simp: p_def [symmetric] p2_def Let_def split_beta)
    from Cons.IH [OF this] net_of_set_policy [OF sl, of p2] show ?thesis by (simp add: p2_def p_def)
  qed (use Cons x sl in \<open>auto simp: p_def\<close>)
qed simp

lemma throttle_loop_net: "throttle_loop now l fs s = Inr (fs', s') \<Longrightarrow> net_of s' = net_of s"
proof (induction l arbitrary: fs s)
  case (Cons x l)
  obtain name a where x: "x = (name, a)" by fastforce
  from Cons.prems x obtain sl where sl: "get_slice s a = Inr sl" by auto
  define p where "p = allocation_policy sl"
  show ?case
  proof (cases "\<not> throttle p \<or> is_throttling p")
    case False
    define p2 where "p2 = snd (maybeStartThrottling now (p\<lparr>metrics := mi_flush now (metrics p)\<rparr>))"
    from Cons.prems x sl False obtain fs1 where "throttle_loop now l fs1 (set_policy a sl p2 s) = Inr (fs', s')"
      by (auto simp: p_def [symmetric] p2_def Let_def split_beta)
    from Cons.IH [OF this] net_of_set_policy [OF sl, of p2] show ?thesis by (simp add: p2_def p_def)
  qed (use Cons x sl in \<open>auto simp: p_def\<close>)
qed simp

lemma throttle_phase_net: "throttle_phase now s = Inr (fs, s') \<Longrightarrow> net_of s' = net_of s"
  by (auto simp: throttle_phase_def dest!: release_loop_net throttle_loop_net)

lemma apply_loop_net:
  assumes E: "reliable E"
  shows "apply_loop E l s = Inr s' \<Longrightarrow> wf_app s \<Longrightarrow> net_step\<^sup>*\<^sup>* (net_of s) (net_of s')"
proof (induction l arbitrary: s)
  case (Cons x l)
  obtain name f where x: "x = (name, f)" by fastforce
  from Cons.prems(1) x obtain a where a: "sm_get (db s SliceResource) name = Some a"
    by (auto split: option.splits)
  from wf_get_slice [OF Cons.prems(2) a] obtain sl where
    sl: "get_slice s a = Inr sl" "heap s a = Some (ObjSlice sl)" "throttling_inv (allocation_policy sl)" .
  define p where "p = allocation_policy sl"
  from Cons.prems(1) x a sl(1) obtain nshare where n: "next_share (share p) f = Inr nshare" by (auto simp: p_def)
  define s1 where "s1 = set_policy a sl (snd (setShare nshare p)) s"
  have p1: "snd (setShare nshare p) = p\<lparr>share := nshare\<rparr>"
    by (simp add: setShare_in_range [OF next_share_ok [OF n]])
  have w1: "wf_app s1" unfolding s1_def
    by (rule wf_set_policy [OF Cons.prems(2) a sl(2)]) (simp add: p_def sl(3) throttling_inv_setShare)
  have rest: "if share p = nshare then apply_loop E l s1 = Inr s'
     else bind_outcome (push_bound E name (SliceConfigRequest [(name, nshare)]) (db s NodeBResource) s1)
       (\<lambda>s2. apply_loop E l s2) = Inr s'"
    using Cons.prems(1) x a sl(1) n by (simp add: p_def s1_def Let_def split: if_splits)
  show ?case
  proof (cases "share p = nshare")
    case True
    have "net_of s1 = net_of s" unfolding s1_def
      by (rule net_of_set_policy [OF sl(1)]) (use True p1 in \<open>simp add: p_def\<close>)
    with Cons.IH [OF _ w1] rest True show ?thesis by simp
  next
    case False
    with rest obtain s2 where
      s2: "push_bound E name (SliceConfigRequest [(name, nshare)]) (db s NodeBResource) s1 = Inr s2"
      "apply_loop E l s2 = Inr s'" by auto
    from wf_push [OF w1, of E name "SliceConfigRequest [(name, nshare)]"] s2(1) have w2: "wf_app s2"
      by (auto simp: s1_def)
    have "net_step (net_of s) (net_of s2)"
      using share_net [OF Cons.prems(2) E a sl(2), of "sl\<lparr>allocation_policy := p\<lparr>share := nshare\<rparr>\<rparr>" s2]
        w1 s2(1) by (simp add: s1_def set_policy_def p1)
    with Cons.IH [OF s2(2) w2] show ?thesis by simp
  qed
qed simp

lemma handle_kpm_net:
  assumes w: "wf_app s" and E: "reliable E" and r: "handle_kpm E now report s = Inr (b, s')"
  shows "net_step\<^sup>*\<^sup>* (net_of s) (net_of s')"
proof -
  from r obtain rep where rep: "report = Some rep" by (auto simp: handle_kpm_def split: option.splits)
  show ?thesis
  proof (cases "r_slices rep = []")
    case False
    with r rep obtain acc s1 fs s2 fs1 where
      1: "feed_loop now (r_slices rep) (0, 0) s = Inr (acc, s1)" and
      2: "throttle_phase now s1 = Inr (fs, s2)" and 3: "apply_loop E fs1 s2 = Inr s'"
      by (auto simp: handle_kpm_def)
    from feed_loop_effect [OF w, of now "r_slices rep" "(0, 0)"] 1 have "wf_app s1" by auto
    from throttle_phase_effect [OF this, of now] 2 have "wf_app s2" by auto
    from apply_loop_net [OF E 3 this] show ?thesis
      using feed_loop_net [OF 1] throttle_phase_net [OF 2] by simp
  qed (use r rep in \<open>simp add: handle_kpm_def\<close>)
qed

lemma handle_rmr_message_net:
  assumes w: "wf_app s" and E: "reliable E" and r: "handle_rmr_message E now msg s = Inr s'"
  shows "net_step\<^sup>*\<^sup>* (net_of s) (net_of s')"
proof (cases "supported_mtype (rm_mtype msg)")
  case True
  with r obtain b where "handle_message E now (app_handle E now) s (rm_payload msg) (rm_subid msg)
      (cstr (rm_meid msg)) (case rm_xact msg of None \<Rightarrow> [] | Some x \<Rightarrow> cstr x) = Inr (b, s')"
    by (auto simp: handle_rmr_message_def)
  then obtain ev s1 where st: "table_step s ev s1" and h: "handle_opt (app_handle E now) s1 ev = Inr (b, s')"
    by (rule handle_message_steps)
  have w1: "wf_app s1" by (rule wf_table_step [OF w st])
  have "e2ap.more s1 = e2ap.more s" using table_step_frame [OF st] by simp
  then have "same_store s s1" by (cases s; cases s1) (simp add: same_store_def)
  with table_step_frame [OF st] have n1: "net_of s1 = net_of s" by (intro net_of_eqI) simp_all
  have "net_step\<^sup>*\<^sup>* (net_of s1) (net_of s')"
  proof (cases "ev")
    case (Some e)
    with h have e: "app_handle E now s1 e = Inr (b, s')" by (simp add: handle_opt_def)
    then have "s' = s1 \<or> (\<exists>r. handle_kpm E now r s1 = Inr (b, s'))"
      by (cases "(E, now, s1, e)" rule: app_handle.cases)
         (auto split: option.splits sm_indication.splits)
    then show ?thesis using handle_kpm_net [OF w1 E] by auto
  qed (use h in \<open>simp add: handle_opt_def\<close>)
  then show ?thesis using n1 by simp
qed (use r in \<open>simp add: handle_rmr_message_def\<close>)

section \<open>The simulation\<close>

lemma bind_reply_net:
  assumes "bind_reply r = Inr (resp, s')"
  obtains b ae' where "r = Inr (b, ae', s')"
  using assms by (auto simp: bind_reply_def)

lemma put_one_net:
  "wf_app s \<Longrightarrow> reliable E \<Longrightarrow> put_one E rt n b s = Inr (resp, s') \<Longrightarrow> net_step\<^sup>*\<^sup>* (net_of s) (net_of s')"
  by (auto simp: put_one_def dest: app_update_net)

lemma delete_one_net:
  "wf_app s \<Longrightarrow> reliable E \<Longrightarrow> delete_one E rt n s = Inr (resp, s') \<Longrightarrow> net_step\<^sup>*\<^sup>* (net_of s) (net_of s')"
  by (auto simp: delete_one_def dest: app_del_net)

lemma get_net:
  "get_all rt s = Inr (resp, s') \<Longrightarrow> s' = s" "get_one rt n s = Inr (resp, s') \<Longrightarrow> s' = s"
  by (auto simp: get_all_def get_one_def split: if_splits)

lemma post_net:
  assumes "wf_app s" "reliable E"
  shows "postNodeB E mem b s = Inr (resp, s') \<Longrightarrow> net_step\<^sup>*\<^sup>* (net_of s) (net_of s')"
    and "postSlice E mem b s = Inr (resp, s') \<Longrightarrow> net_step\<^sup>*\<^sup>* (net_of s) (net_of s')"
    and "postUe E mem b s = Inr (resp, s') \<Longrightarrow> net_step\<^sup>*\<^sup>* (net_of s) (net_of s')"
proof -
  show "postNodeB E mem b s = Inr (resp, s') \<Longrightarrow> net_step\<^sup>*\<^sup>* (net_of s) (net_of s')"
    unfolding postNodeB_def
    by (rule post_obj_net [OF assms]) (auto simp: map_created_def dest: nodeb_create_fresh)
  show "postSlice E mem b s = Inr (resp, s') \<Longrightarrow> net_step\<^sup>*\<^sup>* (net_of s) (net_of s')"
    unfolding postSlice_def
    by (rule post_obj_net [OF assms]) (auto simp: map_created_def dest: slice_create_Some)
  show "postUe E mem b s = Inr (resp, s') \<Longrightarrow> net_step\<^sup>*\<^sup>* (net_of s) (net_of s')"
    unfolding postUe_def
    by (rule post_obj_net [OF assms]) (auto simp: map_created_def dest: ue_create_fresh)
qed

lemma serve_net:
  assumes w: "wf_app s" and E: "reliable E" and n: "request_named req"
    and r: "serve E v mem req s = Inr (resp, s')"
  shows "net_step\<^sup>*\<^sup>* (net_of s) (net_of s')"
proof (cases req)
  case (PostNodeBSlice nb sl)
  with r show ?thesis
    by (auto simp: postNodeBSliceBinding_def elim!: bind_reply_net dest: bind_slice_nodeb_net [OF w E])
next
  case (DeleteNodeBSlice nb sl)
  with r show ?thesis
    by (auto simp: deleteNodeBSliceBinding_def elim!: bind_reply_net dest: unbind_slice_nodeb_net [OF w E])
next
  case (PostSliceUe sl i)
  with r n show ?thesis
    by (auto simp: postSliceUeBinding_def elim!: bind_reply_net dest: bind_ue_slice_net [OF w E])
next
  case (DeleteSliceUe sl i)
  with r show ?thesis
    by (auto simp: deleteSliceUeBinding_def elim!: bind_reply_net dest: unbind_ue_slice_net [OF w E])
qed (use r in \<open>auto simp: getVersion_def getNodeBs_def getSlices_def getUes_def getNodeB_def getSlice_def getUe_def
       putNodeB_def putSlice_def putUe_def deleteNodeB_def deleteSlice_def deleteUe_def
       dest: get_net post_net [OF w E] put_one_net [OF w E] delete_one_net [OF w E]\<close>)

lemma app_step_net: "app_step E v s s' \<Longrightarrow> wf_app s \<Longrightarrow> reliable E \<Longrightarrow> net_step\<^sup>*\<^sup>* (net_of s) (net_of s')"
proof (induction rule: app_step.induct)
  case (northbound req mem s resp s')
  then show ?case using serve_net by blast
next
  case (southbound now msg s s')
  then show ?case using handle_rmr_message_net by blast
qed

text \<open>The invariant of the network carries over to every reachable state.\<close>

lemma net_ok_App: "net_ok (net_of App)"
  by (simp add: net_ok_def bound_at_def slice_at_def ran_view_def no_ran_def App_def e2ap.defs E2AP_def)

lemma reachable_net: "reachable E v s \<Longrightarrow> reliable E \<Longrightarrow> net_ok (net_of s)"
  by (induction rule: reachable.induct)
     (auto intro: net_ok_App net_steps_ok app_step_net reachable_wf)

end
