(* ===== verification/Ran_Behaviour.thy ===== *)
theory Ran_Behaviour
  imports Ran_Refinement
begin

text \<open>
  What the NodeBs know: the properties of the requests the application sends in the course of time,
  read off the network it implements.
\<close>

section \<open>Refinement\<close>











section \<open>Deleting a NodeB\<close>













end
