(* ===== verification/Concurrent_Add.thy ===== *)
theory Concurrent_Add
  imports Reachability
begin

text \<open>
  \<open>App::add\<close> as the code interleaves it: the entry is made under the mutex, which is then released; the
  two requests a new NodeB is sent, and the last log line, read the name through the pointer to the
  resource without it. Meanwhile other threads serve requests and receive messages. \<open>app_add\<close> of
  \<^theory_text>\<open>App_Ops\<close> is the run of these stages without interruption.
\<close>

section \<open>Stages\<close>

text \<open>The critical section.\<close>

definition add_insert :: "resource_type \<Rightarrow> addr \<Rightarrow> ae \<Rightarrow> app \<Rightarrow> (bool \<times> wcall list \<times> ae \<times> app) outcome" where
  "add_insert rt a ae s =
     bind_outcome (deref s a) (\<lambda>ob.
       let rname = obj_name ob in
       if sm_has (db s rt) rname
       then Inr (False, [], ae_add 403 (rtype_to_label rt @ '' already exists'') ae, s)
       else Inr (True, obj_serialize ob, ae, s\<lparr>db := (db s)(rt := sm_put (db s rt) rname a)\<rparr>))"

text \<open>The subscription of a new NodeB.\<close>

definition subscribe_nodeb :: "env \<Rightarrow> string \<Rightarrow> app \<Rightarrow> app" where
  "subscribe_nodeb E rname s =
     (let (iid, s2) = get_next_instance_id s;
          req = (SubscriptionRequest (requestor_id s2) iid 0 (Some kpm_trigger_default)
                   [\<lparr>ac_id = 1, ac_type = ACTION_REPORT, ac_definition = None,
                     ac_subsequent_action = -1\<rparr>])\<lparr>sr_meid := rname\<rparr>
      in snd (send_subscription_request E (send_message E) s2 req rname))"

text \<open>Where the adding thread is after the critical section, and what it does next.\<close>

datatype add_stage = Inserted | Asked | Subscribed | Added

fun add_advance :: "env \<Rightarrow> resource_type \<Rightarrow> addr \<Rightarrow> add_stage \<Rightarrow> app \<Rightarrow> (add_stage \<times> app) outcome" where
  "add_advance E rt a Inserted s =
     (if rt \<noteq> NodeBResource then Inr (Subscribed, s)
      else bind_outcome (deref s a) (\<lambda>ob. Inr (Asked, app_control E (SliceStatusRequest []) (obj_name ob) s)))"
| "add_advance E rt a Asked s =
     bind_outcome (deref s a) (\<lambda>ob. Inr (Subscribed, subscribe_nodeb E (obj_name ob) s))"
| "add_advance E rt a Subscribed s = bind_outcome (deref s a) (\<lambda>ob. Inr (Added, s))"
| "add_advance E rt a Added s = Inr (Added, s)"

text \<open>The steps of the adding thread and of the others, in any order.\<close>

inductive race :: "env \<Rightarrow> git_version \<Rightarrow> resource_type \<Rightarrow> addr \<Rightarrow> add_stage \<times> app \<Rightarrow> add_stage \<times> app \<Rightarrow> bool"
  for E v rt a where
  begins: "race E v rt a x x"
| advances: "race E v rt a x (stg, s) \<Longrightarrow> add_advance E rt a stg s = Inr (stg', s') \<Longrightarrow> race E v rt a x (stg', s')"
| others: "race E v rt a x (stg, s) \<Longrightarrow> app_step E v s s' \<Longrightarrow> race E v rt a x (stg, s')"

section \<open>Without interruption\<close>

lemma greet_nodeb_stages:
  "greet_nodeb E n s = subscribe_nodeb E n (app_control E (SliceStatusRequest []) n s)"
  by (simp add: greet_nodeb_def subscribe_nodeb_def)

definition add_sequential :: "env \<Rightarrow> resource_type \<Rightarrow> addr \<Rightarrow> ae \<Rightarrow> app \<Rightarrow> (bool \<times> wcall list \<times> ae \<times> app) outcome" where
  "add_sequential E rt a ae s =
     bind_outcome (add_insert rt a ae s) (\<lambda>(ok, cs, ae1, s1).
       if \<not> ok then Inr (ok, cs, ae1, s1)
       else
         bind_outcome (add_advance E rt a Inserted s1) (\<lambda>(stg2, s2).
         bind_outcome (add_advance E rt a stg2 s2) (\<lambda>(stg3, s3).
         bind_outcome (add_advance E rt a stg3 s3) (\<lambda>(_, s4). Inr (ok, cs, ae1, s4)))))"

lemma control_keeps_object: "deref (app_control E c n s) a = deref s a"
  using app_control_store [of s E c n] by (simp add: same_store_def deref_def)

lemma subscribe_nodeb_store: "same_store s (subscribe_nodeb E n s)"
  unfolding subscribe_nodeb_def Let_def split_beta
  by (rule same_store_trans [OF get_next_instance_id_store send_subscription_store])

lemma subscribe_keeps_object: "deref (subscribe_nodeb E n s) a = deref s a"
  using subscribe_nodeb_store [of s E n] by (simp add: same_store_def deref_def)

lemma add_sequential: "add_sequential E rt a ae s = app_add E rt a ae s"
proof (cases "deref s a")
  case (Inr ob)
  then have "deref (s\<lparr>db := d\<rparr>) a = Inr ob" for d by (simp add: deref_def)
  then show ?thesis
    using Inr
    by (cases "rt = NodeBResource")
       (simp_all add: add_sequential_def add_insert_def app_add_def Let_def greet_nodeb_stages
         control_keeps_object subscribe_keeps_object)
qed (simp add: add_sequential_def add_insert_def app_add_def)

section \<open>With interruptions\<close>

lemma wf_app_control: "wf_app s \<Longrightarrow> wf_app (app_control E c n s)"
  by (rule wf_same_store [OF _ app_control_store]) (simp_all add: wf_app_def app_control_tables)

lemma wf_subscribe_nodeb: "wf_app s \<Longrightarrow> wf_app (subscribe_nodeb E n s)"
proof (rule wf_same_store [OF _ subscribe_nodeb_store])
  assume "wf_app s"
  then have t: "tables_wf s" by (simp add: wf_app_def)
  show "tables_wf (subscribe_nodeb E n s)"
    unfolding subscribe_nodeb_def Let_def split_beta
    by (rule app_agent.subscription_tables_wf)
       (use fresh_id [OF t] in \<open>auto simp: SubscriptionRequest_def get_next_instance_id_def\<close>)
qed

lemma wf_add_advance: "wf_app s \<Longrightarrow> add_advance E rt a stg s = Inr (stg', s') \<Longrightarrow> wf_app s'"
  by (cases stg) (auto simp: wf_app_control wf_subscribe_nodeb split: if_splits)

lemma race_wf: "race E v rt a x y \<Longrightarrow> wf_app (snd x) \<Longrightarrow> wf_app (snd y)"
proof (induction rule: race.induct)
  case (advances x stg s stg' s')
  then show ?case using wf_add_advance [of s E rt a stg stg' s'] by simp
next
  case (others x stg s s')
  then show ?case using app_step_wf [of E v s s'] by simp
qed simp

lemma entry_live: "wf_app s \<Longrightarrow> sm_get (db s rt) k = Some a \<Longrightarrow> heap s a \<noteq> None"
  by (auto simp: wf_app_def elim: store_ok_entry)

lemma add_advance_fault:
  "add_advance E rt a stg s = Inl f \<Longrightarrow> f = UseAfterFree \<and> heap s a = None"
  by (cases stg) (auto simp: bind_outcome_Inl_iff deref_def split: if_splits option.splits)

text \<open>C7: A resource that is being added while other threads work: whatever requests and messages are served
  between the critical section of \<open>App::add\<close> and its end, the state stays well formed, and as long
  as the new entry is in its table the next stage completes. It meets a use after free only when
  another request has deleted the resource meanwhile.\<close>

theorem interleaved_add:
  assumes w: "wf_app s" and a: "heap s a = Some ob" "obj_type ob = rt" "fresh_obj ob"
    and ins: "add_insert rt a ae s = Inr (True, cs, ae', s1)"
    and r: "race E v rt a (Inserted, s1) (stg, s2)"
  shows "wf_app s2 \<and>
    (case add_advance E rt a stg s2 of
       Inr (stg', s3) \<Rightarrow> wf_app s3
     | Inl f \<Rightarrow> f = UseAfterFree \<and> (\<forall>rt' k. sm_get (db s2 rt') k \<noteq> Some a))"
proof -
  from ins a have new: "\<not> sm_has (db s rt) (obj_name ob)"
    and s1: "s1 = s\<lparr>db := (db s)(rt := sm_put (db s rt) (obj_name ob) a)\<rparr>"
    by (auto simp: add_insert_def deref_def Let_def split: if_splits)
  have "wf_app s1" unfolding s1 using new by (intro wf_add_entry [OF w a]) (auto simp: sm_has_iff)
  with race_wf [OF r] have w2: "wf_app s2" by simp
  show ?thesis
  proof (cases "add_advance E rt a stg s2")
    case (Inl f)
    from add_advance_fault [OF Inl] have f: "f = UseAfterFree" "heap s2 a = None" by simp_all
    then have "sm_get (db s2 rt') k \<noteq> Some a" for rt' k using entry_live [OF w2, of rt' k a] by auto
    with Inl f w2 show ?thesis by simp
  next
    case (Inr y)
    with wf_add_advance [OF w2] w2 show ?thesis by (cases y) auto
  qed
qed

text \<open>A NodeB that is deleted before the adding thread sends it the first request.\<close>

definition demo_adding :: app where
  "demo_adding = snd (app_alloc (ObjNodeB
     \<lparr>nb_name = ''n1'', nb_type = GNB, nb_mcc = ''001'', nb_mnc = ''01'', nb_id = 1, nb_id_len = 28,
      nb_connected = False, total_prbs = -1, nb_slices = []\<rparr>) App)"

definition demo_inserted :: app where
  "demo_inserted =
     (case add_insert NodeBResource 0 fresh_ae demo_adding of Inr (_, _, _, s) \<Rightarrow> s | Inl _ \<Rightarrow> App)"

theorem interleaved_add_witness:
  "\<exists>cs s2. add_insert NodeBResource 0 fresh_ae demo_adding = Inr (True, cs, fresh_ae, demo_inserted) \<and>
     race demo_env demo_version NodeBResource 0 (Inserted, demo_inserted) (Inserted, s2) \<and>
     add_advance demo_env NodeBResource 0 Inserted s2 = Inl UseAfterFree \<and>
     sm_get (db s2 NodeBResource) ''n1'' = None"
proof -
  have w: "wf_app demo_adding" unfolding demo_adding_def by (rule wf_alloc [OF wf_App])
  obtain nb where h: "heap demo_adding 0 = Some (ObjNodeB nb)" "nb_slices nb = []" "nb_name nb = ''n1''"
    by (simp add: demo_adding_def app_alloc_def App_def e2ap.defs)
  have "case add_insert NodeBResource 0 fresh_ae demo_adding of Inl _ \<Rightarrow> False | Inr (b, _, ae, _) \<Rightarrow> b \<and> ae = fresh_ae"
    by code_simp
  then obtain cs where ins: "add_insert NodeBResource 0 fresh_ae demo_adding = Inr (True, cs, fresh_ae, demo_inserted)"
    by (auto simp: demo_inserted_def split: sum.splits)
  have "case serve demo_env demo_version False (DeleteNodeB ''n1'') demo_inserted of
      Inl _ \<Rightarrow> False
    | Inr (_, s2) \<Rightarrow> heap s2 0 = None \<and> sm_get (db s2 NodeBResource) ''n1'' = None" by code_simp
  then obtain r s2 where del: "serve demo_env demo_version False (DeleteNodeB ''n1'') demo_inserted = Inr (r, s2)"
      and gone: "heap s2 0 = None" "sm_get (db s2 NodeBResource) ''n1'' = None"
    by (auto split: sum.splits)
  have race: "race demo_env demo_version NodeBResource 0 (Inserted, demo_inserted) (Inserted, s2)"
    by (rule race.others [OF race.begins app_step.northbound [OF _ del]]) simp
  have f: "add_advance demo_env NodeBResource 0 Inserted s2 = Inl UseAfterFree" using gone by (simp add: deref_def)
  from interleaved_add [OF w h(1) _ _ ins race] h ins race f gone(2) show ?thesis by auto
qed

end
