(* ===== verification/E2sm_Buffers.thy ===== *)
theory E2sm_Buffers
  imports E2ap_Core
begin

text \<open>
  The base classes of \<open>lib/e2sm/include/e2sm.h\<close> and \<open>Message\<close> of \<open>lib/e2ap/include/e2ap.h\<close>: objects that
  encode themselves when a buffer is first asked for, and keep the result. The other theories take the
  encoding of a value as a function of it; here the objects are as in the code, the encoder may
  answer differently from call to call, and the two views are related.
\<close>

section \<open>Objects with one buffer\<close>

text \<open>
  \<open>EventTrigger\<close>, \<open>ActionDefinition\<close>, \<open>ControlOutcome\<close> and \<open>Message\<close>: a flag, a buffer that may be null
  and a length. \<open>codec n v\<close> is what the \<open>n\<close>-th call of the encoder makes of \<open>v\<close>.
\<close>

type_synonym codec = "nat \<Rightarrow> asn \<Rightarrow> bytes option"

record buffer_object =
  bo_encoded :: bool
  bo_buf :: "bytes option"
  bo_len :: nat

definition buffer_new :: buffer_object where
  "buffer_new = \<lparr>bo_encoded = False, bo_buf = None, bo_len = 0\<rparr>"

text \<open>
  \<open>EventTrigger::encode\<close> of both service models and \<open>encode\<close> of the three requests: the number of the
  next call of the encoder is passed along. The triggers set buffer and length to null on failure, the
  requests leave them as they are; both are null before the first success.
\<close>

definition trigger_encode :: "codec \<Rightarrow> asn \<Rightarrow> nat \<times> buffer_object \<Rightarrow> bool \<times> nat \<times> buffer_object" where
  "trigger_encode C v = (\<lambda>(k, b).
     if bo_encoded b then (True, k, b)
     else case C k v of
       None \<Rightarrow> (False, Suc k, b\<lparr>bo_buf := None, bo_len := 0\<rparr>)
     | Some bs \<Rightarrow> (True, Suc k, \<lparr>bo_encoded = True, bo_buf = Some bs, bo_len = length bs\<rparr>))"

definition message_encode :: "codec \<Rightarrow> asn \<Rightarrow> nat \<times> buffer_object \<Rightarrow> bool \<times> nat \<times> buffer_object" where
  "message_encode C v = (\<lambda>(k, b).
     if bo_encoded b then (True, k, b)
     else case C k v of
       None \<Rightarrow> (False, Suc k, b)
     | Some bs \<Rightarrow> (True, Suc k, \<lparr>bo_encoded = True, bo_buf = Some bs, bo_len = length bs\<rparr>))"

text \<open>\<open>get_buf\<close> and \<open>get_buf_len\<close> (\<open>get_len\<close>) with the class's \<open>encode\<close>.\<close>

type_synonym object_encode = "nat \<times> buffer_object \<Rightarrow> bool \<times> nat \<times> buffer_object"

definition demand :: "object_encode \<Rightarrow> nat \<times> buffer_object \<Rightarrow> nat \<times> buffer_object" where
  "demand enc = (\<lambda>(k, b). if \<not> bo_encoded b then snd (enc (k, b)) else (k, b))"

definition get_buf :: "object_encode \<Rightarrow> nat \<times> buffer_object \<Rightarrow> bytes option \<times> nat \<times> buffer_object" where
  "get_buf enc s = (let s1 = demand enc s in (bo_buf (snd s1), s1))"

definition get_buf_len :: "object_encode \<Rightarrow> nat \<times> buffer_object \<Rightarrow> nat \<times> nat \<times> buffer_object" where
  "get_buf_len enc s = (let s1 = demand enc s in (bo_len (snd s1), s1))"

section \<open>Control objects\<close>

text \<open>What the five \<open>encode\<close> methods of the control requests hand to the encoder.\<close>

fun control_id :: "control \<Rightarrow> control_message_id" where
  "control_id (SliceConfigRequest _) = Id_sliceConfigRequest"
| "control_id (SliceDeleteRequest _) = Id_sliceDeleteRequest"
| "control_id (SliceStatusRequest _) = Id_sliceStatusRequest"
| "control_id (SliceUeBindRequest _ _) = Id_sliceUeBindRequest"
| "control_id (SliceUeUnbindRequest _ _) = Id_sliceUeUnbindRequest"

fun control_content :: "control \<Rightarrow> nx_control_message" where
  "control_content (SliceConfigRequest cs) = Msg_sliceConfigRequest (map (\<lambda>(n, s). (cstr n, s)) cs)"
| "control_content (SliceDeleteRequest ns) = Msg_sliceDeleteRequest (map cstr ns)"
| "control_content (SliceStatusRequest ns) = Msg_sliceStatusRequest (map cstr ns)"
| "control_content (SliceUeBindRequest s is) = Msg_sliceUeBindRequest (cstr s) (map cstr is)"
| "control_content (SliceUeUnbindRequest s is) = Msg_sliceUeUnbindRequest (cstr s) (map cstr is)"

record control_object =
  co_encoded :: bool
  co_header :: "bytes option"
  co_header_len :: nat
  co_message :: "bytes option"
  co_message_len :: nat
  co_call_process_id :: "bytes option"
  co_call_process_id_len :: nat

definition control_new :: control_object where
  "control_new = \<lparr>co_encoded = False, co_header = None, co_header_len = 0, co_message = None, co_message_len = 0,
     co_call_process_id = None, co_call_process_id_len = 0\<rparr>"

definition control_object_encode ::
    "codec \<Rightarrow> control \<Rightarrow> nat \<times> control_object \<Rightarrow> bool \<times> nat \<times> control_object" where
  "control_object_encode C c = (\<lambda>(k, ob).
     if co_encoded ob then (True, k, ob)
     else case C k (NxControlHeader (control_id c)) of
       None \<Rightarrow> (True, Suc k, ob\<lparr>co_header := None, co_header_len := 0\<rparr>)
     | Some h \<Rightarrow>
         (case C (Suc k) (NxControlMessage (control_content c)) of
            None \<Rightarrow> (True, Suc (Suc k), ob\<lparr>co_header := None, co_header_len := 0\<rparr>)
          | Some m \<Rightarrow>
              (True, Suc (Suc k),
               ob\<lparr>co_header := Some h, co_header_len := length h, co_message := Some m,
                  co_message_len := length m, co_encoded := True\<rparr>)))"

datatype accessor = Get_header | Get_header_len | Get_message | Get_message_len
  | Get_call_process_id | Get_call_process_id_len

datatype accessed = Buffer "bytes option" | Length nat

fun stored :: "control_object \<Rightarrow> accessor \<Rightarrow> accessed" where
  "stored ob Get_header = Buffer (co_header ob)" | "stored ob Get_header_len = Length (co_header_len ob)"
| "stored ob Get_message = Buffer (co_message ob)" | "stored ob Get_message_len = Length (co_message_len ob)"
| "stored ob Get_call_process_id = Buffer (co_call_process_id ob)"
| "stored ob Get_call_process_id_len = Length (co_call_process_id_len ob)"

definition control_access ::
    "codec \<Rightarrow> control \<Rightarrow> nat \<times> control_object \<Rightarrow> accessor \<Rightarrow> accessed \<times> nat \<times> control_object" where
  "control_access C c = (\<lambda>(k, ob) a.
     let (k1, ob1) = (if \<not> co_encoded ob then snd (control_object_encode C c (k, ob)) else (k, ob))
     in (stored ob1 a, k1, ob1))"

text \<open>A sequence of accessor calls: what they return, and the object afterwards.\<close>

fun accesses :: "codec \<Rightarrow> control \<Rightarrow> nat \<times> control_object \<Rightarrow> accessor list \<Rightarrow> accessed list \<times> nat \<times> control_object" where
  "accesses C c s [] = ([], s)"
| "accesses C c s (a # as) =
     (let (r, s1) = control_access C c s a; (rs, s2) = accesses C c s1 as in (r # rs, s2))"

text \<open>
  \<open>Indication\<close>: its two constructors and plain accessors. The one that is given buffers keeps none of them,
  only the flag that says they are encoded.
\<close>

record indication_object =
  io_encoded :: bool
  io_header :: "bytes option"
  io_header_len :: nat
  io_message :: "bytes option"
  io_message_len :: nat

definition indication_new :: indication_object where
  "indication_new = \<lparr>io_encoded = False, io_header = None, io_header_len = 0, io_message = None, io_message_len = 0\<rparr>"

definition indication_of_buffers :: "bytes \<Rightarrow> nat \<Rightarrow> bytes \<Rightarrow> nat \<Rightarrow> bool \<Rightarrow> indication_object" where
  "indication_of_buffers header header_len message message_len encoded =
     \<lparr>io_encoded = encoded, io_header = None, io_header_len = 0, io_message = None, io_message_len = 0\<rparr>"

section \<open>Models\<close>

text \<open>\<open>class Model\<close>: its names and its registry of functions, here by their addresses.\<close>

record model =
  m_name :: string
  m_oid :: string
  m_functions :: "(int, addr) smap"

definition Model :: "string \<Rightarrow> string \<Rightarrow> model" where
  "Model name oid = \<lparr>m_name = name, m_oid = oid, m_functions = []\<rparr>"

definition add_function :: "int \<Rightarrow> addr \<Rightarrow> model \<Rightarrow> model" where
  "add_function fid f m = m\<lparr>m_functions := sm_put (m_functions m) fid f\<rparr>"

definition NexRANModel :: model where
  "NexRANModel = Model ''ORAN-E2SM-NEXRAN'' ''1.3.6.1.4.1.1.1.2.100''"

definition KpmModel :: model where
  "KpmModel = Model ''ORAN-E2SM-KPM'' ''1.3.6.1.4.1.1.1.2.2''"

text \<open>The counter of local function ids, and its use as a key of the registry.\<close>

definition get_next_ran_function_id :: "int \<Rightarrow> int \<times> int" where
  "get_next_ran_function_id n = (n, n + 1)"

section \<open>On demand and at once\<close>

lemma control_encode_content: "control_encode E c = encode_parts E (control_id c) (control_content c)"
  by (cases c)
     (simp_all add: SliceConfigRequest_encode_def SliceDeleteRequest_encode_def SliceStatusRequest_encode_def
       SliceUeBindRequest_encode_def SliceUeUnbindRequest_encode_def)

text \<open>
  Every object the accessors reach is coherent: before a success its buffers are null, and lengths are
  those of the buffers.
\<close>

definition buffer_len :: "bytes option \<Rightarrow> nat" where
  "buffer_len b = (case b of None \<Rightarrow> 0 | Some bs \<Rightarrow> length bs)"

definition coherent :: "control_object \<Rightarrow> bool" where
  "coherent ob \<longleftrightarrow>
     (if co_encoded ob then co_header ob \<noteq> None \<and> co_message ob \<noteq> None
      else co_header ob = None \<and> co_message ob = None) \<and>
     co_header_len ob = buffer_len (co_header ob) \<and> co_message_len ob = buffer_len (co_message ob) \<and>
     co_call_process_id ob = None \<and> co_call_process_id_len ob = 0"

lemma coherent_new [simp]: "coherent control_new"
  by (simp add: coherent_def control_new_def buffer_len_def)

lemma access_coherent:
  "coherent ob \<Longrightarrow> control_access C c (k, ob) a = (r, k', ob') \<Longrightarrow> coherent ob'"
  by (auto simp: control_access_def control_object_encode_def coherent_def buffer_len_def Let_def
      split: if_splits option.splits)

lemma accesses_coherent:
  "coherent ob \<Longrightarrow> accesses C c (k, ob) as = (rs, k', ob') \<Longrightarrow> coherent ob'"
proof (induction as arbitrary: k ob rs)
  case (Cons a as)
  obtain r k1 ob1 where 1: "control_access C c (k, ob) a = (r, k1, ob1)" by (metis prod_cases3)
  obtain rs2 where "accesses C c (k1, ob1) as = (rs2, k', ob')"
    using Cons.prems(2) 1 by (auto simp: Let_def split: prod.splits)
  with Cons.IH access_coherent [OF Cons.prems(1) 1] show ?case by blast
qed simp

lemma accesses_encoded:
  "co_encoded ob \<Longrightarrow> accesses C c (k, ob) as = (map (stored ob) as, k, ob)"
  by (induction as) (simp_all add: control_access_def)

text \<open>
  With an encoder that always answers alike: what an accessor returns at once, and how often \<open>n\<close>
  accessor calls need the encoder. A failure is not remembered, so every call tries again.
\<close>

definition encodable :: "env \<Rightarrow> control \<Rightarrow> bool" where
  "encodable E c \<longleftrightarrow> aper_encode E (NxControlHeader (control_id c)) \<noteq> None \<and>
     aper_encode E (NxControlMessage (control_content c)) \<noteq> None"

fun at_once :: "env \<Rightarrow> control \<Rightarrow> accessor \<Rightarrow> accessed" where
  "at_once E c Get_header = Buffer (if encodable E c then Some (get_header E c) else None)"
| "at_once E c Get_header_len = Length (length (get_header E c))"
| "at_once E c Get_message = Buffer (if encodable E c then Some (get_message E c) else None)"
| "at_once E c Get_message_len = Length (length (get_message E c))"
| "at_once E c Get_call_process_id = Buffer None"
| "at_once E c Get_call_process_id_len = Length (length (get_call_process_id E c))"

definition encoder_calls :: "env \<Rightarrow> control \<Rightarrow> nat \<Rightarrow> nat" where
  "encoder_calls E c n =
     (if aper_encode E (NxControlHeader (control_id c)) = None then n
      else if aper_encode E (NxControlMessage (control_content c)) = None then 2 * n
      else if n = 0 then 0 else 2)"

lemma access_once:
  assumes "coherent ob" "\<not> co_encoded ob"
  obtains ob1 where "control_access (\<lambda>_. aper_encode E) c (k, ob) a = (at_once E c a, k + encoder_calls E c 1, ob1)"
    "coherent ob1" "co_encoded ob1 \<longleftrightarrow> encodable E c" "co_encoded ob1 \<Longrightarrow> stored ob1 = at_once E c"
proof -
  obtain r k1 ob1 where acc: "control_access (\<lambda>_. aper_encode E) c (k, ob) a = (r, k1, ob1)" by (metis prod_cases3)
  have eqs: "r = stored ob1 a \<and> k1 = k + encoder_calls E c 1 \<and> (co_encoded ob1 \<longleftrightarrow> encodable E c)"
    using acc assms
    by (auto simp: control_access_def control_object_encode_def encoder_calls_def encodable_def split: option.splits)
  have "stored ob1 x = at_once E c x" for x
    using acc assms
    by (cases x)
       (auto simp: control_access_def control_object_encode_def encodable_def coherent_def buffer_len_def get_header_def
         get_message_def get_call_process_id_def control_encode_content encode_parts_def split: option.splits)
  then have "stored ob1 = at_once E c" by (intro ext)
  with that [of ob1] acc eqs access_coherent [OF assms(1) acc] show thesis by simp
qed

lemma accesses_once:
  assumes "coherent ob" "\<not> co_encoded ob"
  shows "\<exists>ob'. accesses (\<lambda>_. aper_encode E) c (k, ob) as =
    (map (at_once E c) as, k + encoder_calls E c (length as), ob')"
  using assms
proof (induction as arbitrary: k ob)
  case (Cons a as)
  from access_once [OF Cons.prems, of E c k a] obtain ob1 where
    1: "control_access (\<lambda>_. aper_encode E) c (k, ob) a = (at_once E c a, k + encoder_calls E c 1, ob1)"
    "coherent ob1" "co_encoded ob1 \<longleftrightarrow> encodable E c" "co_encoded ob1 \<Longrightarrow> stored ob1 = at_once E c" by blast
  show ?case
  proof (cases "encodable E c")
    case True
    then have "accesses (\<lambda>_. aper_encode E) c (k + encoder_calls E c 1, ob1) as =
        (map (at_once E c) as, k + encoder_calls E c 1, ob1)"
      using accesses_encoded [of ob1] 1(3,4) by simp
    then show ?thesis using 1(1) True by (auto simp: encoder_calls_def encodable_def)
  next
    case False
    with 1(3) Cons.IH [OF 1(2), of "k + encoder_calls E c 1"] obtain ob' where
      "accesses (\<lambda>_. aper_encode E) c (k + encoder_calls E c 1, ob1) as =
        (map (at_once E c) as, k + encoder_calls E c 1 + encoder_calls E c (length as), ob')" by blast
    then show ?thesis using 1(1) False by (auto simp: encoder_calls_def encodable_def)
  qed
qed (simp add: encoder_calls_def)

text \<open>The order in which \<open>ControlRequest::encode\<close> asks for the buffers, and the elements it makes of them.\<close>

fun content :: "accessed \<Rightarrow> bytes" where
  "content (Buffer b) = (case b of None \<Rightarrow> [] | Some bs \<Rightarrow> bs)" | "content (Length n) = []"

definition control_request_pdu_on_demand :: "codec \<Rightarrow> control_request \<Rightarrow> nat \<Rightarrow> pdu" where
  "control_request_pdu_on_demand C r k =
     (let rs = fst (accesses C (cr_control r) (k, control_new)
                 [Get_call_process_id, Get_call_process_id_len, Get_header, Get_header_len, Get_message, Get_message_len])
      in InitiatingMessage RICcontrol Reject
        ([(Reject, RICrequestID (cr_requestor_id r) (cr_instance_id r)),
          (Reject, RANfunctionID (cr_function_id r))]
         @ (if content (rs ! 0) \<noteq> [] then [(Reject, RICcallProcessID (content (rs ! 0)))] else [])
         @ [(Reject, RICcontrolHeader (content (rs ! 2))),
            (Reject, RICcontrolMessage (content (rs ! 4))),
            (Reject, RICcontrolAckRequest (ack_code (cr_ack_request r)))]))"

lemma content_at_once:
  "content (at_once E c Get_header) = get_header E c" "content (at_once E c Get_message) = get_message E c"
  "content (at_once E c Get_call_process_id) = get_call_process_id E c"
  by (auto simp: encodable_def get_header_def get_message_def get_call_process_id_def control_encode_content
      encode_parts_def split: option.splits)

lemma control_request_pdu_demand:
  "control_request_pdu_on_demand (\<lambda>_. aper_encode E) r k = control_request_pdu E r"
proof -
  have "\<not> co_encoded control_new" by (simp add: control_new_def)
  from accesses_once [OF coherent_new this, of E "cr_control r" k
      "[Get_call_process_id, Get_call_process_id_len, Get_header, Get_header_len, Get_message, Get_message_len]"]
  show ?thesis
    by (auto simp: control_request_pdu_on_demand_def control_request_pdu_def Let_def simp del: at_once.simps content.simps
        simp add: content_at_once)
qed

text \<open>Whatever the encoder answers: header and message come from one run of \<open>encode\<close>, and then stay.\<close>

lemma encoded_once:
  assumes "accesses C c (k, control_new) as = (rs, k', ob)" "co_encoded ob"
  shows "\<exists>j h m. C j (NxControlHeader (control_id c)) = Some h \<and> C (Suc j) (NxControlMessage (control_content c)) = Some m \<and>
    Suc j < k' \<and> stored ob Get_header = Buffer (Some h) \<and> stored ob Get_header_len = Length (length h) \<and>
    stored ob Get_message = Buffer (Some m) \<and> stored ob Get_message_len = Length (length m)"
proof -
  have "\<not> co_encoded ob0 \<Longrightarrow> coherent ob0 \<Longrightarrow> accesses C c (k, ob0) as = (rs, k', ob) \<Longrightarrow> ?thesis" for ob0
  proof (induction as arbitrary: k ob0 rs)
    case (Cons a as)
    obtain r k1 ob1 where 1: "control_access C c (k, ob0) a = (r, k1, ob1)" by (metis prod_cases3)
    obtain rs2 where 2: "accesses C c (k1, ob1) as = (rs2, k', ob)"
      using Cons.prems(3) 1 by (auto simp: Let_def split: prod.splits)
    show ?case
    proof (cases "co_encoded ob1")
      case False
      from Cons.IH [OF this access_coherent [OF Cons.prems(2) 1] 2] show ?thesis .
    next
      case True
      then have "ob = ob1" "k' = k1" using 2 accesses_encoded [OF True, of C c k1 as] by simp_all
      with 1 True Cons.prems(1) show ?thesis
        by (auto simp: control_access_def control_object_encode_def split: option.splits)
    qed
  qed (use assms(2) in simp)
  moreover have "\<not> co_encoded control_new" by (simp add: control_new_def)
  ultimately show ?thesis using coherent_new assms(1) by blast
qed

text \<open>The requests: once \<open>encode\<close> has succeeded, \<open>get_buf\<close> and \<open>get_len\<close> return its result.\<close>

lemma message_buffer:
  assumes "message_encode C v (k, buffer_new) = (True, k', b)"
  shows "\<exists>bs. C k v = Some bs \<and> k' = Suc k \<and> get_buf (message_encode C v) (k', b) = (Some bs, k', b) \<and>
    get_buf_len (message_encode C v) (k', b) = (length bs, k', b)"
  using assms
  by (auto simp: message_encode_def get_buf_def get_buf_len_def demand_def buffer_new_def split: option.splits)

lemma trigger_buffer:
  "fst (get_buf (trigger_encode (\<lambda>_. aper_encode E) (KpmEventTrigger [p])) (k, buffer_new)) =
     (case aper_encode E (KpmEventTrigger [p]) of None \<Rightarrow> None | Some _ \<Rightarrow> Some (trigger_buf E (Trigger_kpm p)))"
  by (simp add: trigger_encode_def get_buf_def demand_def buffer_new_def kpm_trigger_encode_def split: option.splits)

section \<open>The property\<close>

text \<open>C40: Encoding on demand is encoding at once: with an encoder that always answers alike, every sequence
  of accessor calls on a new control object returns the buffers and lengths of the encoding, the
  encoder runs twice in all (header and message), or again at every call while it fails, and the
  PDU \<open>ControlRequest::encode\<close> builds from the accessors is that of the request.\<close>

theorem buffers_on_demand:
  "(\<exists>ob. accesses (\<lambda>_. aper_encode E) c (k, control_new) as =
      (map (at_once E c) as, k + encoder_calls E c (length as), ob)) \<and>
   control_request_pdu_on_demand (\<lambda>_. aper_encode E) req k = control_request_pdu E req"
  using accesses_once [OF coherent_new, of E c k as] control_request_pdu_demand
  by (simp add: control_new_def)

end
