(* ===== verification/Spec2Isabelle.thy ===== *)
theory Spec2Isabelle
  imports App_Behaviour Protocol_Behaviour Data_Behaviour Share_Behaviour Lifecycle_Behaviour Ran_Behaviour Concurrent_Add
    E2sm_Buffers
begin

text \<open>
  A model of NexRAN, an O-RAN xApp that slices the radio resources of NodeBs, and what has been proved of
  it. The paths below are those of the repository.

  \<^bold>\<open>The program.\<close> A REST server (\<open>src/restserver.cc\<close>) lets an operator create NodeBs, slices and subscribers
  (UEs), bind slices to NodeBs and subscribers to slices, and change the share of a slice. The
  application (\<open>src/nexran.cc\<close>, \<open>include/nexran.h\<close>) keeps these resources in three tables of pointers and
  sends each change, as a control request of the NexRAN service model (\<open>lib/e2sm/src/e2sm_nexran.cc\<close>), to
  the NodeBs concerned. Every new NodeB is also sent a subscription to KPM reports. The E2AP library
  (\<open>lib/e2ap\<close>) encodes requests, hands them to RMR, remembers them, decodes what comes back and calls the
  application's handlers. A KPM report (\<open>lib/e2sm/src/e2sm_kpm.cc\<close>) makes the application start and end
  throttling and equalise the shares of slices, again with control requests. \<open>main\<close> loads a configuration
  and settings (\<open>src/config.cc\<close>), registers the xApp and starts server and threads.

  \<^bold>\<open>Conventions\<close> (\<open>Prelude\<close>). A function that may meet undefined behaviour or an abort returns an
  \<open>outcome\<close>: \<open>Inl\<close> a fault or \<open>Inr\<close> a result; a \<open>false\<close> with an error record is an ordinary result.
  \<open>std::map\<close> is a list sorted by key (\<open>smap\<close>), which \<open>ordered_map\<close> describes as a partial map. Objects
  held by pointer live at addresses of a heap that are never reused, so following a dangling pointer is
  always the fault \<open>UseAfterFree\<close>. 64-bit counters are words; \<open>int\<close> and \<open>long\<close> are \<open>int\<close> with the ranges the
  code tests, and the conversions that narrow them are written out. \<open>float\<close> is binary32 with rounding to
  the nearest even (\<open>Float32\<close>). Code that is generated at build time or belongs to libraries is a
  field of the record \<open>env\<close> (\<open>E2_Types\<close>) or an argument: the ASN.1 codec, RMR's buffers and results, the
  JSON parser, the standard library's string hash, \<open>getopt_long\<close>, \<open>getenv\<close>, the descriptor file and the
  HTTP client. The mutex of the application and of the library is held during each operation, so that
  operations are steps of a sequence; \<open>App::add\<close>, which releases it early, is also modelled by stages
  between which other threads work.

  \<^bold>\<open>Theories and sources.\<close>
  \<^item> \<open>Json_Value\<close>, \<open>Resource_Schema\<close>: JSON documents, rapidjson's getters and writer calls; the error records
    and \<open>Resource<T>::validate_json\<close> (\<open>include/restserver.h\<close>, \<open>include/nexran.h\<close>), proved equivalent to
    conformance with the schema; the locale \<open>resource_class\<close> states what the application relies on of a
    resource class.
  \<^item> \<open>Ue_Resource\<close>, \<open>Policy_Resource\<close>, \<open>Slice_Resource\<close>, \<open>NodeB_Resource\<close>: the classes of \<open>include/nexran.h\<close> with
    \<open>src/ue.cc\<close>, \<open>src/policy.cc\<close>, \<open>src/slice.cc\<close> and \<open>src/nodeb.cc\<close>; each interprets \<open>resource_class\<close>.
  \<^item> \<open>Kpm_Metrics\<close>, \<open>Kpm_Model\<close>, \<open>Nexran_Model\<close>: the sliding window of metrics, the decoding of KPM
    indications, control requests and status reports of the NexRAN model; the locale \<open>service_model\<close> is
    what E2AP relies on of a model.
  \<^item> \<open>E2sm_Buffers\<close>: the base classes of \<open>lib/e2sm/include/e2sm.h\<close> and \<open>Message\<close> of \<open>lib/e2ap\<close>, which encode
    themselves when a buffer is first asked for, over an encoder that may answer differently at every
    call; the other theories use the encoding as a function of the value, and the theory relates the two.
  \<^item> \<open>E2_Types\<close>, \<open>E2ap_Core\<close>, \<open>E2ap_Handler\<close>: the messages; the requests, tables, PDUs and sending operations of
    \<open>lib/e2ap/src/e2ap.cc\<close>; decoding and dispatch of received messages. The locale \<open>agent\<close> is what the
    library relies on of the application's \<open>send_message\<close>, interpreted in \<open>App_State\<close>.
  \<^item> \<open>App_State\<close>, \<open>App_Ops\<close>: the state of \<open>class App\<close> and its northbound operations; \<open>App_Invariant\<close>,
    \<open>App_Safety\<close>: the invariant \<open>wf_app\<close> and its preservation by each of them; \<open>App_Push\<close>: the requests a
    change sends, as a function of the NodeBs bound.
  \<^item> \<open>Float32\<close>, \<open>Float32_Error\<close>, \<open>Kpm_Handler\<close>, \<open>Kpm_Safety\<close>: \<open>App::handle(KpmIndication *)\<close> and the RMR callback,
    what they keep, and the rounding errors of the share arithmetic.
  \<^item> \<open>Rest_Server\<close>: the routes and handlers of \<open>src/restserver.cc\<close>.
  \<^item> \<open>Reachability\<close>: the transition system of northbound requests and received messages, and a concrete
    scenario the properties are applied to.
  \<^item> \<open>Configuration\<close>, \<open>Xapp_Settings\<close>, \<open>Request_Groups\<close>, \<open>Lifecycle\<close>: \<open>src/config.cc\<close> and \<open>include/config.h\<close>; the
    request groups and the response thread; \<open>main\<close>, start, stop and registration.

  \<^item> \<open>Ran_View\<close>: an abstract network, as a specification of the application: slices, bindings, and what
    each NodeB has been told so far, with nine kinds of changes and an invariant they preserve;
    \<open>Ran_Refinement\<close>: the abstraction \<open>net_of\<close> and the simulation of every operation by such changes.

  \<^bold>\<open>Properties.\<close>
  \<^item> \<open>App_Behaviour\<close>: reachable states satisfy the invariant; requests follow no dangling pointer and are
    answered; refusals change nothing and give a reason; a push reaches exactly the NodeBs bound; updates,
    bindings, deletions and lookups do what they say, including where the code falls short (a
    subscriber unbound stays bound for itself, a slice deleted stays listed by its NodeBs, a slice
    with the empty name leads to a use after free); the shares after a report lie in 64..1024.
  \<^item> \<open>Ran_Behaviour\<close>: every step of the application refines the network; a NodeB has been told the present
    share of each slice bound to it, and of nothing that is not bound; what binding a slice late and
    deleting a NodeB send. These assume a transport that accepts every message: the application does not
    repeat a control request that RMR refused.
  \<^item> \<open>Concurrent_Add\<close>: \<open>App::add\<close> in four stages, the first under the mutex, interleaved with whole requests
    and messages of other threads: uninterrupted the stages are \<open>app_add\<close>; interrupted they keep the
    invariant and complete unless another request deletes the resource, which ends in a use after free.
  \<^item> \<open>Protocol_Behaviour\<close>: control requests are remembered exactly if sent; a new NodeB is subscribed;
    received messages refine a relation of four steps on the tables, follow no dangling pointer, and
    those that answer control requests or report failures change nothing.
  \<^item> \<open>Data_Behaviour\<close>: validation, serialisation and re-creation, names of NodeBs, the metrics window,
    the termination of its loop, the throttling state machine, decoding of reports, encoding of control
    requests.
  \<^item> \<open>Share_Behaviour\<close>: the single-precision share computations against their exact specifications.
  \<^item> \<open>Config_Behaviour\<close>, \<open>Lifecycle_Behaviour\<close>: precedence of environment, command line and defaults;
    what is registered; where the server listens; request groups; and that a started process cannot be
    stopped.

  \<^bold>\<open>Bounds.\<close> Loops over containers are recursive on the lists they run over and need no fuel; the one that
  empties its queue is also given as the loop of the code (\<open>flush_while\<close>) and proved to end. The
  response thread is followed for a finite list of wake-ups, chosen by the environment; the statements hold
  for every such list. The equivalence of equalised shares assumes that the
  share times the total of the traffic is at most 65536 times the number of slices times the traffic of
  the slice, and fewer than \<open>2 ^ 24\<close> slices; without traffic the result is a fault, which is a property of its own.

  \<^bold>\<open>Not modelled.\<close> ASN.1 codecs, RMR, Pistache, rapidjson's text parser and writer, nlohmann and cpprest:
  they are not part of the repository or are generated, and are parameters. Logging. Freeing of
  memory by destructors, apart from the objects whose deletion the program may observe. Data races between
  threads: the operations take the mutex, and what runs between two of its releases is one step. Three functions of \<open>include/nexran.h\<close> and two handlers of
  \<open>src/nexran.cc\<close> end without the return statement they need; the model has the effect of their body and no
  result that is used.
\<close>

end
